(* ===== verification/Prelude.thy ===== *)
theory Prelude
  imports Main
begin

text \<open>
  Shared vocabulary of the development: the names of the model's basic types
  (milliseconds, timer handles), strings given by their UTF-8 bytes, and
  generic lemmas on lists that several components use.
\<close>

type_synonym ms = nat
type_synonym timer_handle = nat

text \<open>A string given by its UTF-8 bytes: the program's literals with emoji are
  written this way, so that the theories stay ASCII.\<close>

definition utf8 :: "nat list \<Rightarrow> string" where
  "utf8 bs = map char_of bs"

lemma zip_same_conv_map [simp]: "zip xs xs = map (\<lambda>x. (x, x)) xs"
  by (induction xs) auto

lemma sum_list_map_filter_le:
  "sum_list (map f (filter P xs)) \<le> (sum_list (map f xs) :: nat)"
  by (induction xs) auto

lemma sum_list_map_remove1_split:
  "x \<in> set xs \<Longrightarrow> sum_list (map f xs) = f x + sum_list (map f (remove1 x xs))"
  for f :: "'a \<Rightarrow> nat"
  by (induction xs) auto

lemma distinct_map_remove1_notin:
  "distinct (map f xs) \<Longrightarrow> x \<in> set xs \<Longrightarrow> f x \<notin> f ` set (remove1 x xs)"
proof (induction xs)
  case Nil
  then show ?case by simp
next
  case (Cons a xs)
  show ?case
  proof (cases "x = a")
    case True
    with Cons.prems show ?thesis by simp
  next
    case False
    with Cons.prems have "x \<in> set xs" and "f a \<notin> f ` set xs" and "distinct (map f xs)"
      by auto
    then have "f x \<noteq> f a"
      by (metis imageI)
    moreover have "f x \<notin> f ` set (remove1 x xs)"
      using Cons.IH \<open>x \<in> set xs\<close> \<open>distinct (map f xs)\<close> by blast
    ultimately have "f x \<noteq> f a \<and> f x \<notin> f ` set (remove1 x xs)" by blast
    with False show ?thesis by simp
  qed
qed

lemma filter_remove1_other:
  "\<not> P x \<Longrightarrow> filter P (remove1 x xs) = filter P xs"
  by (induction xs) auto

lemma distinct_map_const_length:
  "distinct (map f xs) \<Longrightarrow> \<forall>x\<in>set xs. f x = c \<Longrightarrow> length xs \<le> 1"
proof (induction xs)
  case Nil
  then show ?case by simp
next
  case (Cons a xs)
  have "xs = []"
  proof (rule ccontr)
    assume "xs \<noteq> []"
    then obtain y ys where "xs = y # ys" by (cases xs) auto
    with Cons.prems show False by auto
  qed
  then show ?case by simp
qed

lemma length_le_1_cases:
  "length xs \<le> 1 \<Longrightarrow> xs = [] \<or> (\<exists>x. xs = [x])"
  by (cases xs) auto

lemma sum_list_map_filter_remove1:
  "P x \<Longrightarrow> x \<in> set xs \<Longrightarrow>
   sum_list (map f (filter P xs)) = f x + sum_list (map f (filter P (remove1 x xs)))"
  for f :: "'a \<Rightarrow> nat"
  by (induction xs) auto

text \<open>The clock after events at times \<open>ts\<close> is their maximum with the start.\<close>

lemma fold_max_le: "\<forall>t\<in>set ts. t \<le> T \<Longrightarrow> c \<le> T \<Longrightarrow> fold max ts c \<le> (T::nat)"
  by (induction ts arbitrary: c) auto

end
