(* ===== verification/Timers.thy ===== *)
theory Timers
  imports Prelude
begin

text \<open>
  The browser's timer service, which every component of the presentation uses
  through \<open>setTimeout\<close>, \<open>setInterval\<close>, \<open>clearTimeout\<close> and
  \<open>clearInterval\<close>. It is not code of the repository but the environment the
  code runs in, modelled after the HTML timer steps: a handle is a positive
  integer, fresh for every call; a cleared handle is removed from the list of
  active timers; the event loop runs the active timer with the earliest due
  time first (ties in the order of creation); an interval is re-armed one
  period after its due time unless its callback clears it.
  The callback is a value of a type chosen by the component (\<open>'cb\<close>), so that
  each component can say which of its closures a timer runs.
\<close>

datatype 'cb timer =
  Timer (timer_id: timer_handle) (timer_due: ms) (timer_period: "ms option") (timer_cb: 'cb)

record 'cb timers =
  clock :: ms
  next_handle :: timer_handle
  pending :: "'cb timer list"

definition timers_init :: "ms \<Rightarrow> 'cb timers" where
  "timers_init t = \<lparr>clock = t, next_handle = 1, pending = []\<rparr>"

definition set_timeout :: "ms \<Rightarrow> 'cb \<Rightarrow> 'cb timers \<Rightarrow> timer_handle \<times> 'cb timers" where
  "set_timeout d cb q =
     (next_handle q,
      q\<lparr>next_handle := Suc (next_handle q),
        pending := pending q @ [Timer (next_handle q) (clock q + d) None cb]\<rparr>)"

definition set_interval :: "ms \<Rightarrow> 'cb \<Rightarrow> 'cb timers \<Rightarrow> timer_handle \<times> 'cb timers" where
  "set_interval d cb q =
     (next_handle q,
      q\<lparr>next_handle := Suc (next_handle q),
        pending := pending q @ [Timer (next_handle q) (clock q + d) (Some d) cb]\<rparr>)"

text \<open>\<open>clearTimeout\<close> and \<open>clearInterval\<close> share one pool of handles; an unknown
  handle is ignored.\<close>

definition clear_timer :: "timer_handle \<Rightarrow> 'cb timers \<Rightarrow> 'cb timers" where
  "clear_timer h q = q\<lparr>pending := filter (\<lambda>e. timer_id e \<noteq> h) (pending q)\<rparr>"

fun earliest :: "'cb timer list \<Rightarrow> 'cb timer option" where
  "earliest [] = None"
| "earliest (e # es) =
     (case earliest es of
        None \<Rightarrow> Some e
      | Some e' \<Rightarrow> (if timer_due e' < timer_due e then Some e' else Some e))"

definition rearm :: "'cb timer \<Rightarrow> 'cb timer list" where
  "rearm e =
     (case timer_period e of
        None \<Rightarrow> []
      | Some p \<Rightarrow> [Timer (timer_id e) (timer_due e + max 1 p) (Some p) (timer_cb e)])"

text \<open>One turn of the event loop up to time \<open>t\<close>: the earliest active timer, if it
  is due, is taken off the list (an interval is re-armed) and its callback is
  returned for the component to run. A callback that clears its own interval
  removes the re-armed entry, as the HTML steps abort the re-arming of a
  cleared handle.\<close>

definition pop_due :: "ms \<Rightarrow> 'cb timers \<Rightarrow> ('cb \<times> 'cb timers) option" where
  "pop_due t q =
     (case earliest (pending q) of
        None \<Rightarrow> None
      | Some e \<Rightarrow>
          (if timer_due e \<le> t
           then Some (timer_cb e,
                      q\<lparr>clock := max (clock q) (timer_due e),
                        pending := remove1 e (pending q) @ rearm e\<rparr>)
           else None))"

definition advance_clock :: "ms \<Rightarrow> 'cb timers \<Rightarrow> 'cb timers" where
  "advance_clock t q = q\<lparr>clock := max (clock q) t\<rparr>"

text \<open>The work left before time \<open>t\<close>: it decreases with every timer that fires,
  which is the termination measure of every component's event loop.\<close>

definition timer_work :: "ms \<Rightarrow> 'cb timers \<Rightarrow> nat" where
  "timer_work t q = sum_list (map (\<lambda>e. Suc t - timer_due e) (pending q))"

text \<open>The same work, counted over the timers whose callback satisfies \<open>P\<close>:
  a lexicographic component of the measure of an event loop whose callbacks
  schedule further timers of another kind.\<close>

definition timer_work_of :: "('cb \<Rightarrow> bool) \<Rightarrow> ms \<Rightarrow> 'cb timers \<Rightarrow> nat" where
  "timer_work_of P t q =
     sum_list (map (\<lambda>e. Suc t - timer_due e) (filter (\<lambda>e. P (timer_cb e)) (pending q)))"

definition timers_wf :: "'cb timers \<Rightarrow> bool" where
  "timers_wf q \<longleftrightarrow>
     0 < next_handle q \<and> distinct (map timer_id (pending q)) \<and>
     (\<forall>e\<in>set (pending q). 0 < timer_id e \<and> timer_id e < next_handle q)"

definition is_pending :: "timer_handle \<Rightarrow> 'cb timers \<Rightarrow> bool" where
  "is_pending h q \<longleftrightarrow> (\<exists>e\<in>set (pending q). timer_id e = h)"

subsection \<open>The event loop picks the earliest active timer\<close>

lemma earliest_None_iff [simp]: "earliest es = None \<longleftrightarrow> es = []"
  by (induction es) (auto split: option.splits)

lemma earliest_in: "earliest es = Some e \<Longrightarrow> e \<in> set es"
  by (induction es arbitrary: e) (auto split: option.splits if_splits)

lemma earliest_min: "earliest es = Some e \<Longrightarrow> e' \<in> set es \<Longrightarrow> timer_due e \<le> timer_due e'"
proof (induction es arbitrary: e)
  case Nil
  then show ?case by simp
next
  case (Cons x es)
  then show ?case
    by (cases "earliest es") (fastforce split: if_splits)+
qed

lemma pop_due_SomeE:
  assumes "pop_due t q = Some (cb, q')"
  obtains e where "e \<in> set (pending q)" and "timer_cb e = cb" and "timer_due e \<le> t"
    and "pending q' = remove1 e (pending q) @ rearm e"
    and "next_handle q' = next_handle q"
    and "\<forall>e'\<in>set (pending q). timer_due e \<le> timer_due e'"
proof -
  obtain e where e: "earliest (pending q) = Some e"
    using assms by (cases "earliest (pending q)") (auto simp: pop_due_def)
  with assms have "timer_due e \<le> t" and "cb = timer_cb e"
    and "q' = q\<lparr>clock := max (clock q) (timer_due e), pending := remove1 e (pending q) @ rearm e\<rparr>"
    by (auto simp: pop_due_def split: if_splits)
  then show thesis
    using that earliest_in [OF e] earliest_min [OF e] by simp
qed

lemma pop_due_None_iff:
  "pop_due t q = None \<longleftrightarrow> (\<forall>e\<in>set (pending q). t < timer_due e)"
proof (cases "earliest (pending q)")
  case None
  then show ?thesis by (simp add: pop_due_def)
next
  case (Some e)
  have "e \<in> set (pending q)" using earliest_in [OF Some] .
  moreover have "\<forall>e'\<in>set (pending q). timer_due e \<le> timer_due e'"
    using earliest_min [OF Some] by blast
  ultimately show ?thesis
    using Some by (auto simp: pop_due_def not_le intro: less_le_trans) (use not_less in blast)
qed

lemma rearm_ids: "map timer_id (rearm e) = (case timer_period e of None \<Rightarrow> [] | Some p \<Rightarrow> [timer_id e])"
  by (simp add: rearm_def split: option.splits)

lemma set_rearm: "x \<in> set (rearm e) \<Longrightarrow> timer_id x = timer_id e \<and> timer_cb x = timer_cb e
    \<and> timer_due e < timer_due x"
  by (auto simp: rearm_def split: option.splits)

subsection \<open>Every firing consumes work: the measure of the event loops\<close>

lemma timer_work_rearm:
  "timer_due e \<le> t \<Longrightarrow>
   sum_list (map (\<lambda>x. Suc t - timer_due x) (rearm e)) < Suc t - timer_due e"
  by (auto simp: rearm_def split: option.splits)

lemma timer_work_pop_due:
  assumes "pop_due t q = Some (cb, q')"
  shows "timer_work t q' < timer_work t q"
proof -
  from assms obtain e where e: "e \<in> set (pending q)" "timer_due e \<le> t"
    and p: "pending q' = remove1 e (pending q) @ rearm e"
    by (rule pop_due_SomeE) blast
  let ?f = "\<lambda>x. Suc t - timer_due x"
  have split: "sum_list (map ?f (pending q)) = ?f e + sum_list (map ?f (remove1 e (pending q)))"
    using e(1) by (rule sum_list_map_remove1_split)
  have "sum_list (map ?f (rearm e)) < ?f e"
    using e(2) by (rule timer_work_rearm)
  then show ?thesis
    using split p by (simp add: timer_work_def)
qed

lemma timer_work_clear: "timer_work t (clear_timer h q) \<le> timer_work t q"
  by (simp add: timer_work_def clear_timer_def sum_list_map_filter_le)

lemma timer_work_advance [simp]: "timer_work t (advance_clock c q) = timer_work t q"
  by (simp add: timer_work_def advance_clock_def)

subsection \<open>Handles are fresh, positive and unique\<close>

lemma timers_wf_init: "timers_wf (timers_init t)"
  by (simp add: timers_wf_def timers_init_def)

lemma set_timeout_fresh:
  assumes "timers_wf q"
  shows "fst (set_timeout d cb q) = next_handle q"
    and "\<not> is_pending (next_handle q) q"
    and "0 < fst (set_timeout d cb q)"
  using assms by (auto simp: set_timeout_def timers_wf_def is_pending_def)

lemma timers_wf_set_timeout: "timers_wf q \<Longrightarrow> timers_wf (snd (set_timeout d cb q))"
  by (auto simp: set_timeout_def timers_wf_def)

lemma timers_wf_set_interval: "timers_wf q \<Longrightarrow> timers_wf (snd (set_interval d cb q))"
  by (auto simp: set_interval_def timers_wf_def)

lemma timers_wf_clear: "timers_wf q \<Longrightarrow> timers_wf (clear_timer h q)"
  by (auto simp: clear_timer_def timers_wf_def distinct_map_filter)

lemma timers_wf_advance: "timers_wf q \<Longrightarrow> timers_wf (advance_clock t q)"
  by (simp add: advance_clock_def timers_wf_def)

lemma timers_wf_pop_due:
  assumes "timers_wf q" and "pop_due t q = Some (cb, q')"
  shows "timers_wf q'"
proof -
  from assms(2) obtain e where e: "e \<in> set (pending q)"
    and p: "pending q' = remove1 e (pending q) @ rearm e"
    and n: "next_handle q' = next_handle q"
    by (rule pop_due_SomeE) blast
  have d: "distinct (map timer_id (pending q))"
    using assms(1) by (simp add: timers_wf_def)
  then have "distinct (map timer_id (remove1 e (pending q)))"
    by (simp add: distinct_map distinct_remove1 inj_on_diff)
  moreover have "timer_id e \<notin> timer_id ` set (remove1 e (pending q))"
    using distinct_map_remove1_notin [OF d e] .
  moreover have "\<forall>x\<in>set (remove1 e (pending q)). 0 < timer_id x \<and> timer_id x < next_handle q"
    using assms(1) by (auto simp: timers_wf_def dest: subsetD [OF set_remove1_subset])
  moreover have "0 < timer_id e \<and> timer_id e < next_handle q"
    using assms(1) e by (auto simp: timers_wf_def)
  ultimately show ?thesis
    using assms(1) p n by (auto simp: timers_wf_def rearm_def split: option.splits)
qed

subsection \<open>A cleared timer never runs\<close>

lemma clear_timer_not_pending: "\<not> is_pending h (clear_timer h q)"
  by (simp add: is_pending_def clear_timer_def)

lemma pending_clear_timer: "pending (clear_timer h q) = filter (\<lambda>e. timer_id e \<noteq> h) (pending q)"
  by (simp add: clear_timer_def)

lemma pop_due_advance_None: "pop_due t q = None \<Longrightarrow> pending (advance_clock t q) = pending q"
  by (simp add: advance_clock_def)

lemma pop_due_single:
  "pending q = [e] \<Longrightarrow> pop_due t q =
     (if timer_due e \<le> t then Some (timer_cb e, q\<lparr>clock := max (clock q) (timer_due e),
        pending := rearm e\<rparr>) else None)"
  by (simp add: pop_due_def)

lemma timer_work_of_pop_due:
  assumes "pop_due t q = Some (cb, q')"
  shows "P cb \<Longrightarrow> timer_work_of P t q' < timer_work_of P t q"
    and "\<not> P cb \<Longrightarrow> timer_work_of P t q' = timer_work_of P t q"
proof -
  from assms obtain e where e: "e \<in> set (pending q)" "timer_cb e = cb" "timer_due e \<le> t"
    and p: "pending q' = remove1 e (pending q) @ rearm e"
    by (rule pop_due_SomeE) blast
  let ?f = "\<lambda>e. Suc t - timer_due e" and ?P = "\<lambda>e. P (timer_cb e)"
  have r: "sum_list (map ?f (filter ?P (rearm e))) \<le> sum_list (map ?f (rearm e))"
    by (rule sum_list_map_filter_le)
  have rl: "sum_list (map ?f (rearm e)) < ?f e"
    using e(3) by (rule timer_work_rearm)
  {
    assume "P cb"
    then have "sum_list (map ?f (filter ?P (pending q)))
        = ?f e + sum_list (map ?f (filter ?P (remove1 e (pending q))))"
      using e(1,2) by (intro sum_list_map_filter_remove1) auto
    with r rl p show "timer_work_of P t q' < timer_work_of P t q"
      by (simp add: timer_work_of_def)
  next
    assume "\<not> P cb"
    then have "filter ?P (rearm e) = []"
      using e(2) by (auto simp: rearm_def split: option.splits)
    moreover have "filter ?P (remove1 e (pending q)) = filter ?P (pending q)"
      using \<open>\<not> P cb\<close> e(2) by (intro filter_remove1_other) simp
    ultimately show "timer_work_of P t q' = timer_work_of P t q"
      using p by (simp add: timer_work_of_def)
  }
qed

lemma timer_work_of_set_timeout_other:
  "\<not> P cb \<Longrightarrow> timer_work_of P t (snd (set_timeout d cb q)) = timer_work_of P t q"
  by (simp add: timer_work_of_def set_timeout_def)

text \<open>A timeout at the head of the list that is due no later than every other
  active timer fires first, even on a tie.\<close>

lemma earliest_head:
  "\<forall>e'\<in>set es. timer_due e \<le> timer_due e' \<Longrightarrow> earliest (e # es) = Some e"
proof (cases "earliest es")
  case (Some x)
  assume "\<forall>e'\<in>set es. timer_due e \<le> timer_due e'"
  with earliest_in [OF Some] Some show ?thesis by auto
qed simp

lemma pop_due_head:
  assumes "pending q = e # es" and "\<forall>e'\<in>set es. timer_due e \<le> timer_due e'"
    and "timer_due e \<le> t" and "timer_period e = None"
  shows "pop_due t q = Some (timer_cb e, q\<lparr>clock := max (clock q) (timer_due e), pending := es\<rparr>)"
proof -
  have "earliest (pending q) = Some e"
    using assms(1,2) by (simp only: earliest_head)
  with assms show ?thesis by (simp add: pop_due_def rearm_def)
qed

lemma map_timer_single:
  assumes "map (\<lambda>e. (timer_due e, timer_period e, timer_cb e)) xs = [(d, p, cb)]"
  obtains h where "xs = [Timer h d p cb]"
proof (cases xs)
  case (Cons x ys)
  with assms that show ?thesis by (cases x) auto
qed (use assms in simp)

text \<open>A component with one timeout due at \<open>d\<close>, active until it fires: the
  event loop fires it exactly when it is due and has not fired yet.\<close>

lemma pop_due_one_shot:
  assumes "map (\<lambda>e. (timer_due e, timer_period e, timer_cb e)) (pending q)
             = (if d \<le> clock q then [] else [(d, None, cb)])"
  shows "pop_due T q = (if clock q < d \<and> d \<le> T then Some (cb, q\<lparr>clock := d, pending := []\<rparr>) else None)"
proof (cases "d \<le> clock q")
  case True
  with assms show ?thesis by (simp add: pop_due_def)
next
  case False
  with assms have "map (\<lambda>e. (timer_due e, timer_period e, timer_cb e)) (pending q) = [(d, None, cb)]"
    by simp
  then obtain h where p: "pending q = [Timer h d None cb]" by (rule map_timer_single)
  with False show ?thesis by (simp add: pop_due_single rearm_def max_def)
qed

end
