(* ===== verification/Sequencer.thy ===== *)
theory Sequencer
  imports Prelude
begin

text \<open>
  The scene sequencer of \<open>src/src/app/App.tsx\<close>: the state \<open>currentScene\<close>
  (a JS number, here \<open>nat\<close>), the two callbacks \<open>handleSceneComplete\<close> and
  \<open>handleReplay\<close> that the scenes receive, and the conditional mounting under
  \<open>AnimatePresence mode="wait"\<close>. Under that mode a scene whose key leaves the
  tree stays rendered until its exit animation has run (Scenes 2 to 5 have one, the
  intro's plain \<open>div\<close> and the finale have none), and the next scene is mounted
  only afterwards; the exiting scene still holds its \<open>onComplete\<close> prop and its
  buttons still take clicks. The presence state records that exiting scene.
  The section ends with the abstract sequencer of the specification (active scene
  and epoch, advance guarded at the finale, idempotent completion) and the
  simulation of it by the code when every scene completes once.
\<close>

datatype scene = Intro | PhotoJourney | GiftBox | MemoryUniverse | Timeline | Finale

text \<open>\<open>{currentScene === k && <Scene.../>}\<close> for \<open>k = 0..5\<close>: no scene for any
  other index.\<close>

definition scene_at :: "nat \<Rightarrow> scene option" where
  "scene_at k =
     (if k = 0 then Some Intro
      else if k = 1 then Some PhotoJourney
      else if k = 2 then Some GiftBox
      else if k = 3 then Some MemoryUniverse
      else if k = 4 then Some Timeline
      else if k = 5 then Some Finale
      else None)"

definition handleSceneComplete :: "nat \<Rightarrow> nat" where
  "handleSceneComplete prev = prev + 1"

definition handleReplay :: "nat \<Rightarrow> nat" where
  "handleReplay prev = 0"

text \<open>Which scene roots declare an \<open>exit\<close> animation (a \<open>motion.div\<close> with an
  \<open>exit\<close> prop).\<close>

fun has_exit_animation :: "scene \<Rightarrow> bool" where
  "has_exit_animation Intro = False"
| "has_exit_animation Finale = False"
| "has_exit_animation _ = True"

text \<open>Scenes 1 to 5 receive \<open>onComplete={handleSceneComplete}\<close>; the finale
  receives \<open>onReplay={handleReplay}\<close> instead.\<close>

definition calls_complete :: "scene \<Rightarrow> bool" where
  "calls_complete sc \<longleftrightarrow> sc \<noteq> Finale"

record presence =
  currentScene :: nat
  exiting :: "scene option"

definition presence_init :: presence where
  "presence_init = \<lparr>currentScene = 0, exiting = None\<rparr>"

text \<open>The scene that receives input: the exiting one while its exit animation
  runs (the next is not mounted yet under mode \<open>wait\<close>), else the one of the
  current index.\<close>

definition live_scene :: "presence \<Rightarrow> scene option" where
  "live_scene s = (case exiting s of Some sc \<Rightarrow> Some sc | None \<Rightarrow> scene_at (currentScene s))"

text \<open>Re-rendering after the index changed: the old child leaves the tree, and
  stays as the exiting child when it has an exit animation.\<close>

definition leave :: "scene \<Rightarrow> presence \<Rightarrow> presence" where
  "leave sc s = s\<lparr>exiting := (if has_exit_animation sc then Some sc else None)\<rparr>"

datatype app_event =
    CompleteLive     \<comment> \<open>the mounted scene calls \<open>onComplete\<close>\<close>
  | CompleteExiting  \<comment> \<open>the exiting scene calls \<open>onComplete\<close> again (a second click)\<close>
  | ReplayLive       \<comment> \<open>the finale calls \<open>onReplay\<close>\<close>
  | ExitDone         \<comment> \<open>the exit animation ends, the next scene mounts\<close>

fun present_step :: "app_event \<Rightarrow> presence \<Rightarrow> presence option" where
  "present_step CompleteLive s =
     (case (exiting s, scene_at (currentScene s)) of
        (None, Some sc) \<Rightarrow>
          (if calls_complete sc
           then Some (leave sc (s\<lparr>currentScene := handleSceneComplete (currentScene s)\<rparr>))
           else None)
      | _ \<Rightarrow> None)"
| "present_step CompleteExiting s =
     (case exiting s of
        Some sc \<Rightarrow>
          (if calls_complete sc
           then Some (s\<lparr>currentScene := handleSceneComplete (currentScene s)\<rparr>)
           else None)
      | None \<Rightarrow> None)"
| "present_step ReplayLive s =
     (case (exiting s, scene_at (currentScene s)) of
        (None, Some Finale) \<Rightarrow> Some (leave Finale (s\<lparr>currentScene := handleReplay (currentScene s)\<rparr>))
      | _ \<Rightarrow> None)"
| "present_step ExitDone s =
     (case exiting s of
        Some sc \<Rightarrow> Some (s\<lparr>exiting := None\<rparr>)
      | None \<Rightarrow> None)"

fun present_run :: "app_event list \<Rightarrow> presence \<Rightarrow> presence option" where
  "present_run [] s = Some s"
| "present_run (e # es) s =
     (case present_step e s of None \<Rightarrow> None | Some s' \<Rightarrow> present_run es s')"

inductive present_reach :: "presence \<Rightarrow> bool" where
  init: "present_reach presence_init"
| step: "present_reach s \<Longrightarrow> present_step e s = Some s' \<Longrightarrow> present_reach s'"

subsection \<open>The sequencer of the specification\<close>

record spec_seq =
  active :: nat
  epoch :: nat

definition spec_init :: spec_seq where
  "spec_init = \<lparr>active = 0, epoch = 0\<rparr>"

definition spec_advance :: "spec_seq \<Rightarrow> spec_seq" where
  "spec_advance a = (if active a < 5 then a\<lparr>active := Suc (active a)\<rparr> else a)"

definition spec_reset :: "spec_seq \<Rightarrow> spec_seq" where
  "spec_reset a = \<lparr>active = 0, epoch = Suc (epoch a)\<rparr>"

text \<open>Completion of the scene instance \<open>k\<close> of epoch \<open>ep\<close>: only the first call
  of the live instance advances; a stale or repeated call is ignored.\<close>

definition spec_on_complete :: "nat \<Rightarrow> nat \<Rightarrow> spec_seq \<Rightarrow> spec_seq" where
  "spec_on_complete ep k a = (if ep = epoch a \<and> k = active a then spec_advance a else a)"

inductive spec_step :: "spec_seq \<Rightarrow> spec_seq \<Rightarrow> bool" where
  advance: "active a < 5 \<Longrightarrow> spec_step a (spec_advance a)"
| reset: "spec_step a (spec_reset a)"

text \<open>The code's index moves as the spec's sequencer would under the event that
  moved it: the live scene's completion is the first completion of the current
  instance, the repeated completion of an exiting scene is a stale call of the
  previous instance, a replay is a reset, the end of an exit animation is no
  transition.\<close>

fun spec_of_event :: "app_event \<Rightarrow> spec_seq \<Rightarrow> spec_seq" where
  "spec_of_event CompleteLive a = spec_on_complete (epoch a) (active a) a"
| "spec_of_event CompleteExiting a = spec_on_complete (epoch a) (active a - 1) a"
| "spec_of_event ReplayLive a = spec_reset a"
| "spec_of_event ExitDone a = a"

definition spec_run :: "app_event list \<Rightarrow> spec_seq \<Rightarrow> spec_seq" where
  "spec_run es a = fold spec_of_event es a"

text \<open>The invariant of runs in which every scene completes once: the index is a
  scene's, and an exiting scene is the one just before the current index.\<close>

definition seq_inv :: "presence \<Rightarrow> bool" where
  "seq_inv s \<longleftrightarrow> currentScene s \<le> 5 \<and>
     (case exiting s of
        None \<Rightarrow> True
      | Some sc \<Rightarrow> 0 < currentScene s \<and> scene_at (currentScene s - 1) = Some sc
                   \<and> has_exit_animation sc)"

subsection \<open>Lemmas on the scene table and the presence steps\<close>

lemma scene_at_None_iff: "scene_at k = None \<longleftrightarrow> 5 < k"
  by (simp add: scene_at_def)

lemma scene_at_Some_le: "scene_at k = Some sc \<Longrightarrow> k \<le> 5"
  by (simp add: scene_at_def split: if_splits)

lemma scene_at_Finale_iff: "scene_at k = Some Finale \<longleftrightarrow> k = 5"
  by (simp add: scene_at_def)

lemma scene_at_not_Finale: "scene_at k = Some sc \<Longrightarrow> sc \<noteq> Finale \<Longrightarrow> k < 5"
  by (simp add: scene_at_def split: if_splits)

lemma present_run_append:
  "present_run (xs @ ys) s = (case present_run xs s of None \<Rightarrow> None | Some s' \<Rightarrow> present_run ys s')"
  by (induction xs arbitrary: s) (auto split: option.splits)

lemma present_run_Cons_Some:
  "present_run (e # es) s = Some s'' \<Longrightarrow> \<exists>s'. present_step e s = Some s' \<and> present_run es s' = Some s''"
  by (auto split: option.splits)

lemma present_step_past_finale:
  assumes "present_step e s = Some s'" and "6 \<le> currentScene s"
  shows "6 \<le> currentScene s' \<and> e \<noteq> ReplayLive \<and> e \<noteq> CompleteLive"
proof -
  have "scene_at (currentScene s) = None"
    using assms(2) by (simp add: scene_at_None_iff)
  with assms show ?thesis
    by (cases e) (auto simp: handleSceneComplete_def split: option.splits if_splits)
qed

lemma seq_inv_init: "seq_inv presence_init"
  by (simp add: seq_inv_def presence_init_def)

lemma seq_inv_live: "seq_inv s \<Longrightarrow> live_scene s \<noteq> None"
  by (cases "scene_at (currentScene s)") (auto simp: seq_inv_def live_scene_def scene_at_None_iff split: option.splits)

lemma seq_inv_step:
  assumes "seq_inv s" and "present_step e s = Some s'" and "e \<noteq> CompleteExiting"
  shows "seq_inv s'"
proof (cases e)
  case CompleteLive
  with assms(2) obtain sc where ex: "exiting s = None" and sc: "scene_at (currentScene s) = Some sc"
    and c: "calls_complete sc"
    and s': "s' = leave sc (s\<lparr>currentScene := Suc (currentScene s)\<rparr>)"
    by (auto simp: handleSceneComplete_def split: option.splits prod.splits if_splits)
  have "currentScene s < 5"
    using scene_at_not_Finale [OF sc] c by (simp add: calls_complete_def)
  with sc s' show ?thesis
    by (simp add: seq_inv_def leave_def)
next
  case CompleteExiting
  with assms(3) show ?thesis by simp
next
  case ReplayLive
  with assms(2) have "s' = leave Finale (s\<lparr>currentScene := 0\<rparr>)"
    by (auto simp: handleReplay_def split: option.splits prod.splits scene.splits)
  then show ?thesis by (simp add: seq_inv_def leave_def)
next
  case ExitDone
  with assms(1,2) show ?thesis
    by (auto simp: seq_inv_def split: option.splits)
qed

lemma seq_inv_run:
  "seq_inv s \<Longrightarrow> present_run es s = Some s' \<Longrightarrow> CompleteExiting \<notin> set es \<Longrightarrow> seq_inv s'"
proof (induction es arbitrary: s)
  case Nil
  then show ?case by simp
next
  case (Cons e es)
  from Cons.prems(2) obtain s1 where s1: "present_step e s = Some s1" and r: "present_run es s1 = Some s'"
    by (blast dest: present_run_Cons_Some)
  have "seq_inv s1"
    using seq_inv_step [OF Cons.prems(1) s1] Cons.prems(3) by auto
  with r Cons.prems(3) show ?case by (intro Cons.IH) auto
qed

lemma spec_on_complete_idem:
  "spec_on_complete ep k (spec_on_complete ep k a) = spec_on_complete ep k a"
  by (simp add: spec_on_complete_def spec_advance_def)

lemma present_step_spec_step:
  assumes "seq_inv s" and "present_step e s = Some s'" and "e \<noteq> CompleteExiting"
    and "active a = currentScene s"
  shows "currentScene s' = active (spec_of_event e a)"
proof (cases e)
  case CompleteLive
  with assms(2) obtain sc where sc: "scene_at (currentScene s) = Some sc"
    and c: "calls_complete sc"
    and s': "s' = leave sc (s\<lparr>currentScene := Suc (currentScene s)\<rparr>)"
    by (auto simp: handleSceneComplete_def split: option.splits prod.splits if_splits)
  have "currentScene s < 5"
    using scene_at_not_Finale [OF sc] c by (simp add: calls_complete_def)
  with s' assms(4) CompleteLive show ?thesis
    by (simp add: leave_def spec_on_complete_def spec_advance_def)
next
  case CompleteExiting
  with assms(3) show ?thesis by simp
next
  case ReplayLive
  with assms(2) have "s' = leave Finale (s\<lparr>currentScene := 0\<rparr>)"
    by (auto simp: handleReplay_def split: option.splits prod.splits scene.splits)
  with ReplayLive show ?thesis by (simp add: leave_def spec_reset_def)
next
  case ExitDone
  with assms(2,4) show ?thesis by (auto split: option.splits)
qed

lemma present_run_spec_run:
  assumes "seq_inv s" and "active a = currentScene s"
    and "present_run es s = Some s'" and "CompleteExiting \<notin> set es"
  shows "currentScene s' = active (spec_run es a)"
  using assms
proof (induction es arbitrary: s a)
  case Nil
  then show ?case by (simp add: spec_run_def)
next
  case (Cons e es)
  from Cons.prems(3) obtain s1 where s1: "present_step e s = Some s1"
    and r: "present_run es s1 = Some s'"
    by (blast dest: present_run_Cons_Some)
  have e: "e \<noteq> CompleteExiting" using Cons.prems(4) by auto
  have "seq_inv s1" by (rule seq_inv_step [OF Cons.prems(1) s1 e])
  moreover have "active (spec_of_event e a) = currentScene s1"
    using present_step_spec_step [OF Cons.prems(1) s1 e Cons.prems(2)] by simp
  ultimately have "currentScene s' = active (spec_run es (spec_of_event e a))"
    using r Cons.prems(4) by (intro Cons.IH) auto
  then show ?case by (simp add: spec_run_def)
qed

lemma present_reach_run: "present_reach s \<Longrightarrow> present_run es s = Some s' \<Longrightarrow> present_reach s'"
proof (induction es arbitrary: s)
  case Nil
  then show ?case by simp
next
  case (Cons e es)
  then show ?case
    by (blast dest: present_run_Cons_Some intro: present_reach.step)
qed

lemma present_run_past_finale:
  "present_run es s = Some s' \<Longrightarrow> 6 \<le> currentScene s \<Longrightarrow>
   6 \<le> currentScene s' \<and> ReplayLive \<notin> set es \<and> CompleteLive \<notin> set es"
proof (induction es arbitrary: s)
  case Nil
  then show ?case by simp
next
  case (Cons e es)
  from Cons.prems(1) obtain s1 where s1: "present_step e s = Some s1"
    and r: "present_run es s1 = Some s'"
    by (blast dest: present_run_Cons_Some)
  from present_step_past_finale [OF s1 Cons.prems(2)] Cons.IH [OF r] show ?case
    by auto
qed

subsection \<open>Properties of the sequencer\<close>

text \<open>Claim C1 (refinement). In every run of the app in which each scene calls
  \<open>onComplete\<close> once (no repeated call from a scene that is already exiting),
  \<open>currentScene\<close> is the active scene of the specification's sequencer run
  on the same events: a live scene's completion is the first completion of the
  current instance, a replay is a reset with a new epoch, the end of an exit
  animation is no transition.\<close>

theorem present_refines_spec:
  assumes "present_run es presence_init = Some s" and "CompleteExiting \<notin> set es"
  shows "currentScene s = active (spec_run es spec_init)"
  using present_run_spec_run [OF seq_inv_init _ assms(1) assms(2)]
  by (simp add: presence_init_def spec_init_def)

theorem present_refines_spec_witness:
  "present_run [CompleteLive, CompleteLive, ExitDone] presence_init
     = Some \<lparr>currentScene = 2, exiting = None\<rparr>
   \<and> CompleteExiting \<notin> set [CompleteLive, CompleteLive, ExitDone]
   \<and> 2 = active (spec_run [CompleteLive, CompleteLive, ExitDone] spec_init)"
proof -
  have r: "present_run [CompleteLive, CompleteLive, ExitDone] presence_init
     = Some \<lparr>currentScene = 2, exiting = None\<rparr>"
    by (simp add: presence_init_def scene_at_def handleSceneComplete_def leave_def calls_complete_def)
  have "currentScene \<lparr>currentScene = 2, exiting = None\<rparr>
        = active (spec_run [CompleteLive, CompleteLive, ExitDone] spec_init)"
    by (rule present_refines_spec [OF r]) simp
  with r show ?thesis by simp
qed

text \<open>Claim C2 (divergence from the specification). The scene's
  \<open>onComplete\<close> is not idempotent: when a scene with an exit animation completes
  and its button is pressed again while it fades out, \<open>currentScene\<close> advances
  twice and the next scene is skipped, while the specification's sequencer
  advances once on the same two calls.\<close>

theorem double_complete_skips_scene:
  assumes "exiting s = None" and "scene_at (currentScene s) = Some sc"
    and "has_exit_animation sc" and "active a = currentScene s"
  shows "\<exists>s2. present_run [CompleteLive, CompleteExiting] s = Some s2
           \<and> currentScene s2 = currentScene s + 2 \<and> exiting s2 = Some sc
           \<and> active (spec_run [CompleteLive, CompleteExiting] a) = currentScene s + 1"
proof -
  have c: "calls_complete sc" and lt: "currentScene s < 5"
    using assms(2,3) scene_at_not_Finale [OF assms(2)]
    by (auto simp: calls_complete_def elim: has_exit_animation.elims)
  have "active (spec_run [CompleteLive, CompleteExiting] a) = currentScene s + 1"
    using lt assms(4) by (simp add: spec_run_def spec_on_complete_def spec_advance_def)
  with assms(1,2,3) c show ?thesis
    by (simp add: leave_def handleSceneComplete_def)
qed

theorem double_complete_skips_scene_witness:
  "\<exists>s2. present_run [CompleteLive, CompleteExiting] \<lparr>currentScene = 1, exiting = None\<rparr> = Some s2
      \<and> currentScene s2 = 3 \<and> exiting s2 = Some PhotoJourney
      \<and> active (spec_run [CompleteLive, CompleteExiting] \<lparr>active = 1, epoch = 0\<rparr>) = 2"
proof -
  have h: "exiting \<lparr>currentScene = 1, exiting = None\<rparr> = None"
    "scene_at (currentScene \<lparr>currentScene = 1, exiting = None\<rparr>) = Some PhotoJourney"
    "has_exit_animation PhotoJourney"
    "active \<lparr>active = 1, epoch = 0\<rparr> = currentScene \<lparr>currentScene = 1, exiting = None\<rparr>"
    by (simp_all add: scene_at_def)
  from double_complete_skips_scene [OF h] show ?thesis
    by (simp del: present_run.simps add: eval_nat_numeral)
qed

text \<open>Claim C3 (safety). Once \<open>currentScene\<close> has passed the finale's index
  5, no run ever brings it back: no scene is mounted by index again, no scene
  can call \<open>onComplete\<close> from the mounted position and the replay button,
  which only the finale renders, is never pressed. The presentation is stuck.\<close>

theorem past_finale_no_scene_again:
  assumes "present_run es s = Some s'" and "6 \<le> currentScene s"
  shows "6 \<le> currentScene s' \<and> scene_at (currentScene s') = None \<and> ReplayLive \<notin> set es"
  using present_run_past_finale [OF assms] by (simp add: scene_at_None_iff)

theorem past_finale_no_scene_again_witness:
  "present_run [CompleteExiting, ExitDone] \<lparr>currentScene = 6, exiting = Some Timeline\<rparr>
     = Some \<lparr>currentScene = 7, exiting = None\<rparr>
   \<and> 6 \<le> currentScene \<lparr>currentScene = 7, exiting = None\<rparr>
   \<and> scene_at (currentScene \<lparr>currentScene = 7, exiting = None\<rparr>) = None"
proof -
  have r: "present_run [CompleteExiting, ExitDone] \<lparr>currentScene = 6, exiting = Some Timeline\<rparr>
     = Some \<lparr>currentScene = 7, exiting = None\<rparr>"
    by (simp add: calls_complete_def handleSceneComplete_def)
  from past_finale_no_scene_again [OF r] r show ?thesis by simp
qed

text \<open>Claim C4 (reachability of the dead end). The stuck state is reachable
  from the start: completing the intro, the photo journey, the gift box and the
  memory universe, and then pressing the timeline's Continue button twice while
  it fades out leaves \<open>currentScene = 6\<close> with nothing mounted.\<close>

theorem dead_end_reachable:
  "present_reach \<lparr>currentScene = 6, exiting = None\<rparr>"
proof -
  have "present_run [CompleteLive, CompleteLive, ExitDone, CompleteLive, ExitDone, CompleteLive,
      ExitDone, CompleteLive, CompleteExiting, ExitDone] presence_init
    = Some \<lparr>currentScene = 6, exiting = None\<rparr>"
    by (simp add: presence_init_def scene_at_def handleSceneComplete_def leave_def calls_complete_def)
  then show ?thesis by (rule present_reach_run [OF present_reach.init])
qed

text \<open>Claim C5 (invariant). In every run in which each scene calls
  \<open>onComplete\<close> once, \<open>currentScene\<close> stays within the six scenes and some
  scene is always rendered (mounted or exiting).\<close>

theorem once_completion_stays_in_range:
  assumes "present_run es presence_init = Some s" and "CompleteExiting \<notin> set es"
  shows "currentScene s \<le> 5 \<and> live_scene s \<noteq> None"
proof -
  have "seq_inv s" by (rule seq_inv_run [OF seq_inv_init assms])
  then show ?thesis by (simp add: seq_inv_def seq_inv_live)
qed

theorem once_completion_stays_in_range_witness:
  "currentScene \<lparr>currentScene = 5, exiting = Some Timeline\<rparr> \<le> 5
   \<and> live_scene \<lparr>currentScene = 5, exiting = Some Timeline\<rparr> \<noteq> None"
proof -
  have r: "present_run [CompleteLive, CompleteLive, ExitDone, CompleteLive, ExitDone, CompleteLive,
      ExitDone, CompleteLive] presence_init = Some \<lparr>currentScene = 5, exiting = Some Timeline\<rparr>"
    by (simp add: presence_init_def scene_at_def handleSceneComplete_def leave_def calls_complete_def)
  show ?thesis by (rule once_completion_stays_in_range [OF r]) simp
qed

end
