(* ===== verification/LongPress.thy ===== *)
theory LongPress
  imports Timers
begin

text \<open>
  The long-press trigger of the hidden easter egg in \<open>src/src/app/App.tsx\<close>:
  the states \<open>showEasterEgg\<close> and \<open>longPressTimer\<close>, the handlers
  \<open>handleTouchStart\<close> (also \<open>onMouseDown\<close>) and \<open>handleTouchEnd\<close> (also
  \<open>onMouseUp\<close> and \<open>onMouseLeave\<close>), the effect whose cleanup clears the
  previous timer whenever \<open>longPressTimer\<close> changes, and the 3000 ms timeout
  that sets \<open>showEasterEgg\<close>. User input arrives at a time; the timers due by
  then run first, in the browser's order (theory \<open>Timers\<close>).
\<close>

datatype press_cb = ShowEasterEgg

record press =
  showEasterEgg :: bool
  longPressTimer :: "timer_handle option"
  press_timers :: "press_cb timers"

definition press_init :: press where
  "press_init = \<lparr>showEasterEgg = False, longPressTimer = None, press_timers = timers_init 0\<rparr>"

definition long_press_delay :: ms where
  "long_press_delay = 3000"

text \<open>JavaScript's \<open>if (longPressTimer)\<close>: \<open>null\<close> and the handle \<open>0\<close> are
  false.\<close>

definition js_truthy_handle :: "timer_handle option \<Rightarrow> bool" where
  "js_truthy_handle h = (case h of None \<Rightarrow> False | Some n \<Rightarrow> n \<noteq> 0)"

text \<open>The cleanup of the effect \<open>useEffect(() => () => { if (longPressTimer)
  clearTimeout(longPressTimer) }, [longPressTimer])\<close> of the render that saw
  \<open>old\<close>; React runs it when the next render commits a different value.\<close>

definition long_press_cleanup :: "timer_handle option \<Rightarrow> press \<Rightarrow> press" where
  "long_press_cleanup old s =
     (if js_truthy_handle old
      then s\<lparr>press_timers := clear_timer (the old) (press_timers s)\<rparr>
      else s)"

definition commit_long_press :: "timer_handle option \<Rightarrow> press \<Rightarrow> press" where
  "commit_long_press old s = (if old = longPressTimer s then s else long_press_cleanup old s)"

definition handleTouchStart :: "press \<Rightarrow> press" where
  "handleTouchStart s =
     (let (h, q) = set_timeout long_press_delay ShowEasterEgg (press_timers s)
      in commit_long_press (longPressTimer s) (s\<lparr>longPressTimer := Some h, press_timers := q\<rparr>))"

definition handleTouchEnd :: "press \<Rightarrow> press" where
  "handleTouchEnd s =
     (if js_truthy_handle (longPressTimer s)
      then commit_long_press (longPressTimer s)
             (s\<lparr>press_timers := clear_timer (the (longPressTimer s)) (press_timers s),
                longPressTimer := None\<rparr>)
      else s)"

text \<open>The timeout's callback \<open>setShowEasterEgg(true)\<close>.\<close>

primrec press_fire :: "press_cb \<Rightarrow> press \<Rightarrow> press" where
  "press_fire ShowEasterEgg s = s\<lparr>showEasterEgg := True\<rparr>"

datatype pointer_event = TouchStart | TouchEnd | MouseDown | MouseUp | MouseLeave

fun press_input :: "pointer_event \<Rightarrow> press \<Rightarrow> press" where
  "press_input TouchStart s = handleTouchStart s"
| "press_input MouseDown s = handleTouchStart s"
| "press_input TouchEnd s = handleTouchEnd s"
| "press_input MouseUp s = handleTouchEnd s"
| "press_input MouseLeave s = handleTouchEnd s"

text \<open>The event loop up to time \<open>t\<close>: every timer due by then fires.\<close>

function press_run :: "ms \<Rightarrow> press \<Rightarrow> press" where
  "press_run t s =
     (case pop_due t (press_timers s) of
        None \<Rightarrow> s\<lparr>press_timers := advance_clock t (press_timers s)\<rparr>
      | Some (cb, q) \<Rightarrow> press_run t (press_fire cb (s\<lparr>press_timers := q\<rparr>)))"
  by pat_completeness auto
termination
  apply (relation "measure (\<lambda>(t, s). timer_work t (press_timers s))")
   apply auto
  subgoal for t s cb q by (cases cb) (simp add: timer_work_pop_due)
  done

definition press_event :: "ms \<times> pointer_event \<Rightarrow> press \<Rightarrow> press" where
  "press_event te s = press_input (snd te) (press_run (fst te) s)"

fun press_trace :: "(ms \<times> pointer_event) list \<Rightarrow> press \<Rightarrow> press" where
  "press_trace [] s = s"
| "press_trace (te # tes) s = press_trace tes (press_event te s)"

text \<open>The invariant: every active timer is the long-press timeout whose handle
  \<open>longPressTimer\<close> holds, and that handle was issued by the browser.\<close>

definition press_inv :: "press \<Rightarrow> bool" where
  "press_inv s \<longleftrightarrow> timers_wf (press_timers s) \<and>
     (\<forall>e\<in>set (pending (press_timers s)).
        longPressTimer s = Some (timer_id e) \<and> timer_period e = None) \<and>
     (\<forall>h. longPressTimer s = Some h \<longrightarrow> 0 < h \<and> h < next_handle (press_timers s))"

subsection \<open>The event loop and the handlers under the invariant\<close>

declare press_run.simps [simp del]

lemma press_run_None:
  "pop_due t (press_timers s) = None \<Longrightarrow>
   press_run t s = s\<lparr>press_timers := advance_clock t (press_timers s)\<rparr>"
  by (simp add: press_run.simps)

lemma press_run_Some:
  "pop_due t (press_timers s) = Some (cb, q) \<Longrightarrow>
   press_run t s = press_run t (press_fire cb (s\<lparr>press_timers := q\<rparr>))"
  by (simp add: press_run.simps)

lemma press_inv_pending:
  assumes "press_inv s"
  shows "pending (press_timers s) = [] \<or>
    (\<exists>h d. longPressTimer s = Some h \<and> pending (press_timers s) = [Timer h d None ShowEasterEgg])"
proof -
  let ?xs = "pending (press_timers s)"
  show ?thesis
  proof (cases "?xs = []")
    case True
    then show ?thesis by simp
  next
    case False
    then obtain e where e: "e \<in> set ?xs" by (cases ?xs) auto
    with assms obtain h where h: "longPressTimer s = Some h"
      by (auto simp: press_inv_def)
    have all: "\<forall>x\<in>set ?xs. timer_id x = h \<and> timer_period x = None"
      using assms h by (auto simp: press_inv_def)
    have "distinct (map timer_id ?xs)"
      using assms by (simp add: press_inv_def timers_wf_def)
    then have "length ?xs \<le> 1"
      using all by (intro distinct_map_const_length [where c = h]) auto
    with False obtain x where x: "?xs = [x]"
      using length_le_1_cases by blast
    with all have "x = Timer h (timer_due x) None (timer_cb x)"
      by (cases x) auto
    moreover have "timer_cb x = ShowEasterEgg" by (cases "timer_cb x") simp
    ultimately show ?thesis using h x by metis
  qed
qed

lemma press_run_closed:
  assumes "press_inv s"
  shows "press_run t s = s\<lparr>showEasterEgg :=
            (showEasterEgg s \<or> (\<exists>e\<in>set (pending (press_timers s)). timer_due e \<le> t)),
          press_timers := (press_timers s)\<lparr>clock := max (clock (press_timers s)) t,
            pending := filter (\<lambda>e. t < timer_due e) (pending (press_timers s))\<rparr>\<rparr>"
  using press_inv_pending [OF assms]
proof
  assume "pending (press_timers s) = []"
  then show ?thesis
    by (simp add: press_run_None pop_due_def advance_clock_def)
next
  assume "\<exists>h d. longPressTimer s = Some h \<and> pending (press_timers s) = [Timer h d None ShowEasterEgg]"
  then obtain h d where p: "pending (press_timers s) = [Timer h d None ShowEasterEgg]" by blast
  show ?thesis
  proof (cases "d \<le> t")
    case True
    let ?q = "(press_timers s)\<lparr>clock := max (clock (press_timers s)) d, pending := []\<rparr>"
    have "pop_due t (press_timers s) = Some (ShowEasterEgg, ?q)"
      using True by (simp add: pop_due_single [OF p] rearm_def)
    then have "press_run t s = press_run t (s\<lparr>press_timers := ?q, showEasterEgg := True\<rparr>)"
      by (simp add: press_run_Some)
    also have "\<dots> = s\<lparr>press_timers := ?q\<lparr>clock := max (clock ?q) t\<rparr>, showEasterEgg := True\<rparr>"
      by (simp add: press_run_None pop_due_def advance_clock_def)
    finally show ?thesis using True p by (simp add: max.assoc)
  next
    case False
    then have "pop_due t (press_timers s) = None"
      by (simp add: pop_due_single [OF p])
    with False p show ?thesis
      by (simp add: press_run_None advance_clock_def)
  qed
qed

lemma press_inv_run: "press_inv s \<Longrightarrow> press_inv (press_run t s)"
  by (auto simp: press_run_closed press_inv_def timers_wf_def distinct_map_filter)

lemma handleTouchStart_closed:
  assumes "press_inv s"
  shows "handleTouchStart s = s\<lparr>longPressTimer := Some (next_handle (press_timers s)),
      press_timers := (press_timers s)\<lparr>next_handle := Suc (next_handle (press_timers s)),
         pending := [Timer (next_handle (press_timers s)) (clock (press_timers s) + long_press_delay)
                      None ShowEasterEgg]\<rparr>\<rparr>"
proof -
  let ?q = "press_timers s" and ?n = "next_handle (press_timers s)"
  let ?new = "Timer ?n (clock ?q + long_press_delay) None ShowEasterEgg"
  show ?thesis
  proof (cases "longPressTimer s")
    case None
    then have "pending ?q = []"
      using assms by (cases "pending ?q") (auto simp: press_inv_def)
    with None show ?thesis
      by (simp add: handleTouchStart_def set_timeout_def commit_long_press_def
          long_press_cleanup_def js_truthy_handle_def)
  next
    case (Some h)
    with assms have h: "0 < h" "h < ?n" and ids: "\<forall>e\<in>set (pending ?q). timer_id e = h"
      by (auto simp: press_inv_def)
    then have "filter (\<lambda>e. timer_id e \<noteq> h) (pending ?q @ [?new]) = [?new]"
      by (simp add: filter_empty_conv)
    with Some h show ?thesis
      by (simp add: handleTouchStart_def set_timeout_def commit_long_press_def
          long_press_cleanup_def js_truthy_handle_def clear_timer_def)
  qed
qed

lemma handleTouchEnd_closed:
  assumes "press_inv s"
  shows "handleTouchEnd s = s\<lparr>longPressTimer := None,
      press_timers := (press_timers s)\<lparr>pending := []\<rparr>\<rparr>"
proof (cases "longPressTimer s")
  case None
  then have "pending (press_timers s) = []"
    using assms by (cases "pending (press_timers s)") (auto simp: press_inv_def)
  with None show ?thesis
    by (simp add: handleTouchEnd_def js_truthy_handle_def)
next
  case (Some h)
  with assms have h: "0 < h" and ids: "\<forall>e\<in>set (pending (press_timers s)). timer_id e = h"
    by (auto simp: press_inv_def)
  then have "filter (\<lambda>e. timer_id e \<noteq> h) (pending (press_timers s)) = []"
    by (simp add: filter_empty_conv)
  with Some h show ?thesis
    by (simp add: handleTouchEnd_def commit_long_press_def long_press_cleanup_def
        js_truthy_handle_def clear_timer_def)
qed

lemma press_inv_touch_start: "press_inv s \<Longrightarrow> press_inv (handleTouchStart s)"
  by (auto simp: handleTouchStart_closed press_inv_def timers_wf_def)

lemma press_inv_touch_end: "press_inv s \<Longrightarrow> press_inv (handleTouchEnd s)"
  by (auto simp: handleTouchEnd_closed press_inv_def timers_wf_def)

lemma press_inv_input: "press_inv s \<Longrightarrow> press_inv (press_input ev s)"
  by (cases ev) (simp_all add: press_inv_touch_start press_inv_touch_end)

lemma press_inv_event: "press_inv s \<Longrightarrow> press_inv (press_event te s)"
  by (simp add: press_event_def press_inv_input press_inv_run)

lemma press_inv_init: "press_inv press_init"
  by (simp add: press_inv_def press_init_def timers_init_def timers_wf_def)

lemma press_trace_no_start:
  assumes "press_inv s" and "pending (press_timers s) = []"
    and "\<forall>te\<in>set tes. snd te \<noteq> TouchStart \<and> snd te \<noteq> MouseDown"
  shows "showEasterEgg (press_trace tes s) = showEasterEgg s
         \<and> pending (press_timers (press_trace tes s)) = []"
  using assms
proof (induction tes arbitrary: s)
  case Nil
  then show ?case by simp
next
  case (Cons te tes)
  obtain t ev where te: "te = (t, ev)" by (cases te)
  with Cons.prems(3) have ev: "ev \<noteq> TouchStart" "ev \<noteq> MouseDown" by auto
  let ?s1 = "press_run t s"
  have s1: "press_inv ?s1" "showEasterEgg ?s1 = showEasterEgg s" "pending (press_timers ?s1) = []"
    using Cons.prems(1,2) press_inv_run [OF Cons.prems(1)] by (simp_all add: press_run_closed)
  have "press_input ev ?s1 = handleTouchEnd ?s1"
    using ev by (cases ev) simp_all
  then have e: "press_event te s = handleTouchEnd ?s1"
    by (simp add: press_event_def te)
  have "press_inv (press_event te s)"
    using press_inv_event [OF Cons.prems(1)] .
  moreover have "showEasterEgg (press_event te s) = showEasterEgg s"
    and "pending (press_timers (press_event te s)) = []"
    using e s1 by (simp_all add: handleTouchEnd_closed)
  ultimately show ?case
    using Cons.IH [of "press_event te s"] Cons.prems(3) by simp
qed

subsection \<open>Properties of the long-press trigger\<close>

text \<open>Claim C6 (safety: cancellation). Once the press ends (\<open>onTouchEnd\<close>,
  \<open>onMouseUp\<close> or \<open>onMouseLeave\<close>), no long-press timeout remains active, and
  whatever later input arrives, as long as no new press starts, the timeout of
  the ended press never shows the easter egg.\<close>

theorem touch_end_cancels_long_press:
  assumes "press_inv s"
    and "\<forall>te\<in>set tes. snd te \<noteq> TouchStart \<and> snd te \<noteq> MouseDown"
  shows "pending (press_timers (handleTouchEnd s)) = []
         \<and> showEasterEgg (press_trace tes (handleTouchEnd s)) = showEasterEgg s"
proof -
  have "press_inv (handleTouchEnd s)"
    using assms(1) by (rule press_inv_touch_end)
  moreover have "pending (press_timers (handleTouchEnd s)) = []"
    and "showEasterEgg (handleTouchEnd s) = showEasterEgg s"
    using assms(1) by (simp_all add: handleTouchEnd_closed)
  ultimately
  show ?thesis using press_trace_no_start [OF _ _ assms(2)] by simp
qed

theorem touch_end_cancels_long_press_witness:
  "pending (press_timers (handleTouchEnd (handleTouchStart press_init))) = []
   \<and> showEasterEgg (press_trace [(5000, MouseUp), (9000, TouchEnd)]
        (handleTouchEnd (handleTouchStart press_init)))
     = showEasterEgg (handleTouchStart press_init)"
proof -
  have i: "press_inv (handleTouchStart press_init)"
    by (rule press_inv_touch_start [OF press_inv_init])
  show ?thesis
    by (rule touch_end_cancels_long_press [OF i]) simp
qed

text \<open>Claim C7 (functional, timed). A press that starts at \<open>t0\<close> and ends at
  \<open>t1\<close>, with no long-press timer active before it, shows the easter egg exactly
  when it was held for the 3000 ms of the timeout.\<close>

theorem long_press_fires_iff_held:
  assumes "press_inv s" and "pending (press_timers s) = []"
    and "clock (press_timers s) \<le> t0" and "t0 \<le> t1"
  shows "showEasterEgg (press_trace [(t0, TouchStart), (t1, TouchEnd)] s)
         = (showEasterEgg s \<or> t0 + 3000 \<le> t1)"
proof -
  let ?s1 = "press_run t0 s"
  have i1: "press_inv ?s1" by (rule press_inv_run [OF assms(1)])
  have s1: "pending (press_timers ?s1) = []" "clock (press_timers ?s1) = t0"
    "showEasterEgg ?s1 = showEasterEgg s"
    using assms by (simp_all add: press_run_closed)
  let ?s2 = "handleTouchStart ?s1"
  have i2: "press_inv ?s2" by (rule press_inv_touch_start [OF i1])
  have s2: "pending (press_timers ?s2) = [Timer (next_handle (press_timers ?s1)) (t0 + 3000) None ShowEasterEgg]"
    "showEasterEgg ?s2 = showEasterEgg s"
    using s1 by (simp_all add: handleTouchStart_closed [OF i1] long_press_delay_def)
  have "showEasterEgg (press_run t1 ?s2) = (showEasterEgg s \<or> t0 + 3000 \<le> t1)"
    using s2 by (simp add: press_run_closed [OF i2])
  moreover have "press_trace [(t0, TouchStart), (t1, TouchEnd)] s = handleTouchEnd (press_run t1 ?s2)"
    by (simp add: press_event_def)
  ultimately show ?thesis
    using press_inv_run [OF i2] by (simp add: handleTouchEnd_closed)
qed

theorem long_press_fires_iff_held_witness:
  "showEasterEgg (press_trace [(100, TouchStart), (3100, TouchEnd)] press_init) = True
   \<and> showEasterEgg (press_trace [(100, TouchStart), (3099, TouchEnd)] press_init) = False"
proof -
  have h: "press_inv press_init" "pending (press_timers press_init) = []"
    "clock (press_timers press_init) \<le> 100"
    by (rule press_inv_init) (simp_all add: press_init_def timers_init_def)
  have a: "showEasterEgg (press_trace [(100, TouchStart), (3100, TouchEnd)] press_init)
      = (showEasterEgg press_init \<or> (100::nat) + 3000 \<le> 3100)"
    by (rule long_press_fires_iff_held [OF h]) simp
  have b: "showEasterEgg (press_trace [(100, TouchStart), (3099, TouchEnd)] press_init)
      = (showEasterEgg press_init \<or> (100::nat) + 3000 \<le> 3099)"
    by (rule long_press_fires_iff_held [OF h]) simp
  from a b show ?thesis by (simp add: press_init_def)
qed

text \<open>Claim C8 (invariant). In every state reached by timed pointer input from
  the start, at most one long-press timeout is active, and it is the one whose
  handle \<open>longPressTimer\<close> holds.\<close>

theorem long_press_single_timer:
  "length (pending (press_timers (press_trace tes press_init))) \<le> 1
   \<and> timer_id ` set (pending (press_timers (press_trace tes press_init)))
       \<subseteq> set_option (longPressTimer (press_trace tes press_init))"
proof -
  have "press_inv (press_trace tes s)" if "press_inv s" for s
    using that by (induction tes arbitrary: s) (simp_all add: press_inv_event)
  then have i: "press_inv (press_trace tes press_init)" using press_inv_init by blast
  from press_inv_pending [OF i] show ?thesis
    using i by (auto simp: press_inv_def)
qed

text \<open>Claim C9 (divergence from the specification). A second press start while
  a long-press timeout is pending cancels it and starts a new 3000 ms timeout
  (the effect cleanup clears the old handle when \<open>longPressTimer\<close> changes):
  the code implements cancel-and-restart, where the specification mandates that
  such a press start be ignored.\<close>

theorem touch_start_restarts_timer:
  assumes "press_inv s"
  shows "pending (press_timers (handleTouchStart (handleTouchStart s)))
         = [Timer (Suc (next_handle (press_timers s))) (clock (press_timers s) + 3000) None ShowEasterEgg]
         \<and> longPressTimer (handleTouchStart (handleTouchStart s)) = Some (Suc (next_handle (press_timers s)))"
  using press_inv_touch_start [OF assms]
  by (simp add: handleTouchStart_closed assms long_press_delay_def)

theorem touch_start_restarts_timer_witness:
  "pending (press_timers (handleTouchStart (handleTouchStart press_init)))
     = [Timer 2 3000 None ShowEasterEgg]"
  using touch_start_restarts_timer [OF press_inv_init]
  by (simp add: press_init_def timers_init_def)

end
