(* ===== verification/Carousel.thy ===== *)
theory Carousel
  imports Timers Complex_Main
begin

text \<open>
  The photo carousel of \<open>src/src/app/components/Scene2PhotoJourney.tsx\<close>:
  the states \<open>currentIndex\<close> and \<open>showContinue\<close>, the effect that starts a
  3000 ms interval on mount and clears it on unmount, the interval's updater
  (advance to the next photo, or on the last one clear the interval and show the
  Continue button), the render window of the polaroid stack (no photo behind the
  current one, at most two ahead), the per-item animation values, and the
  progress dots. \<open>photos.length\<close> is the parameter \<open>n\<close>. Animation values
  are JS numbers; they are modelled as exact reals.
\<close>

datatype carousel_cb = AdvancePhoto

record carousel =
  currentIndex :: nat
  showContinue :: bool
  ticker :: timer_handle
  carousel_timers :: "carousel_cb timers"

definition photo_interval :: ms where
  "photo_interval = 3000"

text \<open>Mounting at time \<open>t0\<close>: the initial state and the effect's
  \<open>setInterval\<close>, whose handle the updater's closure holds as \<open>timer\<close>.\<close>

definition carousel_mount :: "ms \<Rightarrow> carousel" where
  "carousel_mount t0 =
     (let (h, q) = set_interval photo_interval AdvancePhoto (timers_init t0)
      in \<lparr>currentIndex = 0, showContinue = False, ticker = h, carousel_timers = q\<rparr>)"

text \<open>The effect's cleanup \<open>() => clearInterval(timer)\<close>.\<close>

definition carousel_unmount :: "carousel \<Rightarrow> carousel" where
  "carousel_unmount c = c\<lparr>carousel_timers := clear_timer (ticker c) (carousel_timers c)\<rparr>"

text \<open>The interval's callback: \<open>setCurrentIndex(prev => ...)\<close> with
  \<open>next = prev + 1\<close>; when \<open>next >= photos.length\<close> it clears the interval,
  sets \<open>showContinue\<close> and keeps \<open>prev\<close>. (Run twice, as React's strict mode
  may run an updater, it has the same effect.)\<close>

definition carousel_tick :: "nat \<Rightarrow> carousel \<Rightarrow> carousel" where
  "carousel_tick n c =
     (let next = Suc (currentIndex c)
      in if n \<le> next
         then c\<lparr>carousel_timers := clear_timer (ticker c) (carousel_timers c), showContinue := True\<rparr>
         else c\<lparr>currentIndex := next\<rparr>)"

primrec carousel_fire :: "nat \<Rightarrow> carousel_cb \<Rightarrow> carousel \<Rightarrow> carousel" where
  "carousel_fire n AdvancePhoto c = carousel_tick n c"

function carousel_run :: "nat \<Rightarrow> ms \<Rightarrow> carousel \<Rightarrow> carousel" where
  "carousel_run n t c =
     (case pop_due t (carousel_timers c) of
        None \<Rightarrow> c\<lparr>carousel_timers := advance_clock t (carousel_timers c)\<rparr>
      | Some (cb, q) \<Rightarrow> carousel_run n t (carousel_fire n cb (c\<lparr>carousel_timers := q\<rparr>)))"
  by pat_completeness auto
termination
  apply (relation "measure (\<lambda>(n, t, c). timer_work t (carousel_timers c))")
   apply auto
  subgoal for n t c cb q
    using timer_work_pop_due [of t "carousel_timers c" cb q] timer_work_clear [of t _ q]
    by (cases cb) (auto simp: carousel_tick_def Let_def intro: le_less_trans)
  done

text \<open>The Continue button is rendered, and calls \<open>onComplete\<close>, only when
  \<open>showContinue\<close> holds.\<close>

definition continue_enabled :: "carousel \<Rightarrow> bool" where
  "continue_enabled c = showContinue c"

text \<open>What a tick changes: the view \<open>(currentIndex, showContinue)\<close>, and the
  invariant of the interval: while the Continue button is hidden exactly one
  interval, the updater's, is active; once it is shown none is.\<close>

definition car_view :: "carousel \<Rightarrow> nat \<times> bool" where
  "car_view c = (currentIndex c, showContinue c)"

fun view_tick :: "nat \<Rightarrow> nat \<times> bool \<Rightarrow> nat \<times> bool" where
  "view_tick n (i, b) = (if n \<le> Suc i then (i, True) else (Suc i, b))"

definition car_inv :: "carousel \<Rightarrow> bool" where
  "car_inv c \<longleftrightarrow>
     (if showContinue c then pending (carousel_timers c) = []
      else (\<exists>d. pending (carousel_timers c) = [Timer (ticker c) d (Some photo_interval) AdvancePhoto]))"

subsection \<open>Rendering\<close>

text \<open>\<open>isPast = index < currentIndex\<close>, \<open>offset = index - currentIndex\<close>;
  the item is rendered when \<open>!isPast && Math.abs(offset) <= 2\<close>.\<close>

definition carousel_visible :: "nat \<Rightarrow> nat \<Rightarrow> bool" where
  "carousel_visible current index =
     (let isPast = index < current; offset = int index - int current
      in \<not> isPast \<and> \<bar>offset\<bar> \<le> 2)"

definition rendered_photos :: "nat \<Rightarrow> nat \<Rightarrow> nat list" where
  "rendered_photos n current = filter (carousel_visible current) [0..<n]"

record frame =
  frame_scale :: real
  frame_rotateY :: real
  frame_z :: real
  frame_x :: real
  frame_opacity :: real
  frame_y :: real
  frame_zIndex :: real

text \<open>The \<open>animate\<close> values and the \<open>zIndex\<close> of a rendered item.\<close>

definition carousel_frame :: "nat \<Rightarrow> nat \<Rightarrow> frame" where
  "carousel_frame current index =
     (let isActive = (index = current); offset = real_of_int (int index - int current)
      in \<lparr>frame_scale = (if isActive then 1 else 0.85 - \<bar>offset\<bar> * 0.1),
          frame_rotateY = (if isActive then 0 else offset * 15),
          frame_z = (if isActive then 0 else - \<bar>offset\<bar> * 100),
          frame_x = offset * 30,
          frame_opacity = (if isActive then 1 else 0.4),
          frame_y = (if isActive then 0 else \<bar>offset\<bar> * 20),
          frame_zIndex = (if isActive then 10 else 10 - \<bar>offset\<bar>)\<rparr>)"

text \<open>A progress dot: 24 px wide for the current photo, 8 px otherwise, and
  in the gold gradient up to the current photo.\<close>

definition dot_width :: "nat \<Rightarrow> nat \<Rightarrow> nat" where
  "dot_width current index = (if index = current then 24 else 8)"

definition dot_lit :: "nat \<Rightarrow> nat \<Rightarrow> bool" where
  "dot_lit current index = (index \<le> current)"

subsection \<open>Ticks and the event loop\<close>

declare carousel_run.simps [simp del]

lemma car_view_tick: "car_view (carousel_tick n c) = view_tick n (car_view c)"
  by (simp add: car_view_def carousel_tick_def Let_def)

lemma car_view_funpow: "car_view ((carousel_tick n ^^ k) c) = (view_tick n ^^ k) (car_view c)"
  by (induction k) (simp_all add: car_view_tick)

lemma view_tick_funpow_start:
  "(view_tick n ^^ k) (0, False) = (min k (n - 1), max 1 n \<le> k)"
  by (induction k) auto

lemma view_tick_stable: "n \<le> Suc i \<Longrightarrow> (view_tick n ^^ k) (i, True) = (i, True)"
  by (induction k) auto

lemma carousel_run_None:
  "pop_due t (carousel_timers c) = None \<Longrightarrow>
   carousel_run n t c = c\<lparr>carousel_timers := advance_clock t (carousel_timers c)\<rparr>"
  by (simp add: carousel_run.simps)

lemma carousel_run_Some:
  "pop_due t (carousel_timers c) = Some (cb, q) \<Longrightarrow>
   carousel_run n t c = carousel_run n t (carousel_fire n cb (c\<lparr>carousel_timers := q\<rparr>))"
  by (simp add: carousel_run.simps)

lemma carousel_run_idle:
  "pending (carousel_timers c) = [] \<Longrightarrow>
   carousel_run n t c = c\<lparr>carousel_timers := advance_clock t (carousel_timers c)\<rparr>"
  by (simp add: carousel_run_None pop_due_def)

lemma div_step_3000: "3000 \<le> x \<Longrightarrow> (x - 3000) div 3000 + 1 = (x::nat) div 3000"
  by (auto simp: le_iff_add)

lemma carousel_run_view:
  assumes "pending (carousel_timers c) = [Timer (ticker c) d (Some photo_interval) AdvancePhoto]"
    and "\<not> showContinue c"
  shows "car_view (carousel_run n t c)
         = (view_tick n ^^ (if t < d then 0 else (t - d) div 3000 + 1)) (car_view c)"
  using assms
proof (induction n t c arbitrary: d rule: carousel_run.induct)
  case (1 n t c)
  let ?e = "Timer (ticker c) d (Some photo_interval) AdvancePhoto"
  show ?case
  proof (cases "d \<le> t")
    case False
    then have "pop_due t (carousel_timers c) = None"
      by (simp add: pop_due_single [OF "1.prems"(1)])
    with False show ?thesis
      by (simp add: carousel_run_None car_view_def)
  next
    case True
    let ?q = "(carousel_timers c)\<lparr>clock := max (clock (carousel_timers c)) d,
                pending := [Timer (ticker c) (d + 3000) (Some photo_interval) AdvancePhoto]\<rparr>"
    have pop: "pop_due t (carousel_timers c) = Some (AdvancePhoto, ?q)"
      using True by (simp add: pop_due_single [OF "1.prems"(1)] rearm_def photo_interval_def)
    let ?c1 = "carousel_tick n (c\<lparr>carousel_timers := ?q\<rparr>)"
    have run: "carousel_run n t c = carousel_run n t ?c1"
      using pop by (simp add: carousel_run_Some)
    have "car_view (c\<lparr>carousel_timers := ?q\<rparr>) = car_view c"
      by (simp add: car_view_def)
    then have v1: "car_view ?c1 = view_tick n (car_view c)"
      by (simp only: car_view_tick)
    show ?thesis
    proof (cases "n \<le> Suc (currentIndex c)")
      case ex: True
      have "pending (carousel_timers ?c1) = []"
        using ex by (simp add: carousel_tick_def clear_timer_def)
      then have "car_view (carousel_run n t ?c1) = car_view ?c1"
        by (simp add: carousel_run_idle car_view_def)
      also have "\<dots> = (currentIndex c, True)"
        using v1 ex by (simp add: car_view_def)
      also have "\<dots> = (view_tick n ^^ ((t - d) div 3000)) (view_tick n (car_view c))"
        using ex "1.prems"(2) by (simp add: view_tick_stable car_view_def)
      finally show ?thesis
        using run True by (simp add: funpow_Suc_right del: funpow.simps)
    next
      case go: False
      have p1: "pending (carousel_timers ?c1) = [Timer (ticker ?c1) (d + 3000) (Some photo_interval) AdvancePhoto]"
        and n1: "\<not> showContinue ?c1"
        using go "1.prems"(2) by (simp_all add: carousel_tick_def)
      have ih: "car_view (carousel_run n t ?c1)
          = (view_tick n ^^ (if t < d + 3000 then 0 else (t - (d + 3000)) div 3000 + 1)) (car_view ?c1)"
        using "1.IH" [OF pop refl] p1 n1 by simp
      have "(if t < d + 3000 then 0 else (t - (d + 3000)) div 3000 + 1) = (t - d) div 3000"
        using True div_step_3000 [of "t - d"] by auto
      with ih run v1 True show ?thesis
        by (simp add: funpow_Suc_right del: funpow.simps)
    qed
  qed
qed

lemma car_inv_tick:
  assumes "car_inv c" and "\<not> showContinue c"
  shows "car_inv (carousel_tick n c)"
  using assms
  by (auto simp: car_inv_def carousel_tick_def Let_def clear_timer_def)

lemma car_inv_run: "car_inv c \<Longrightarrow> car_inv (carousel_run n t c)"
proof (induction n t c rule: carousel_run.induct)
  case (1 n t c)
  show ?case
  proof (cases "pop_due t (carousel_timers c)")
    case None
    with "1.prems" show ?thesis
      by (simp add: carousel_run_None car_inv_def advance_clock_def)
  next
    case (Some x)
    then obtain cb q where x: "x = (cb, q)" by (cases x)
    have nc: "\<not> showContinue c"
      using "1.prems" Some by (auto simp: car_inv_def pop_due_def)
    then obtain d where p: "pending (carousel_timers c) = [Timer (ticker c) d (Some photo_interval) AdvancePhoto]"
      using "1.prems" by (auto simp: car_inv_def)
    with Some x have "cb = AdvancePhoto" and "car_inv (c\<lparr>carousel_timers := q\<rparr>)"
      by (auto simp: pop_due_single car_inv_def rearm_def nc split: if_splits)
    then have "car_inv (carousel_fire n cb (c\<lparr>carousel_timers := q\<rparr>))"
      using car_inv_tick nc by simp
    with "1.IH" [OF Some x [symmetric]] Some x show ?thesis
      by (simp add: carousel_run_Some)
  qed
qed

lemma carousel_mount_state:
  "pending (carousel_timers (carousel_mount t0)) = [Timer 1 (t0 + 3000) (Some photo_interval) AdvancePhoto]"
  "ticker (carousel_mount t0) = 1" "car_view (carousel_mount t0) = (0, False)"
  "car_inv (carousel_mount t0)"
  by (simp_all add: carousel_mount_def set_interval_def timers_init_def photo_interval_def
      car_view_def car_inv_def)

lemma mount_ticks: "(if t < t0 + 3000 then 0 else (t - (t0 + 3000)) div 3000 + 1) = (t - t0) div (3000::nat)"
  using div_step_3000 [of "t - t0"] by auto

lemma carousel_mount_view:
  "car_view (carousel_run n t (carousel_mount t0))
   = (min ((t - t0) div 3000) (n - 1), max 1 n \<le> (t - t0) div 3000)"
proof -
  have "\<not> showContinue (carousel_mount t0)"
    using carousel_mount_state(3) [of t0] by (simp add: car_view_def)
  then have "car_view (carousel_run n t (carousel_mount t0))
        = (view_tick n ^^ ((t - t0) div 3000)) (0, False)"
    using carousel_run_view [of "carousel_mount t0" "t0 + 3000" n t] carousel_mount_state [of t0]
    by (simp add: mount_ticks)
  then show ?thesis
    by (simp add: view_tick_funpow_start)
qed

subsection \<open>The render window\<close>

lemma carousel_visible_iff: "carousel_visible cur i \<longleftrightarrow> cur \<le> i \<and> i < cur + 3"
  by (auto simp: carousel_visible_def Let_def)

lemma filter_upt_window:
  "filter (\<lambda>i. a \<le> i \<and> i < b) [0..<n] = [a..<min n b]"
proof (induction n)
  case 0
  then show ?case by simp
next
  case (Suc n)
  then show ?case
    by (cases "a \<le> n \<and> n < b") (auto simp: min_def upt_Suc_append not_less)
qed

lemma rendered_photos_upt: "rendered_photos n cur = [cur..<min n (cur + 3)]"
  using filter_upt_window [of cur "cur + 3" n]
  by (simp add: rendered_photos_def carousel_visible_iff [abs_def])

subsection \<open>Properties of the carousel\<close>

text \<open>Claim C10 (functional, timed). Mounted at time \<open>t0\<close>, at any time
  \<open>t\<close> the carousel has advanced once per elapsed 3000 ms interval and stops on
  the last photo: \<open>currentIndex = min ((t - t0) div 3000) (n - 1)\<close>; the
  Continue button appears with the \<open>n\<close>-th interval (the first one for an
  empty photo list), so exactly \<open>n - 1\<close> advances precede it.\<close>

theorem carousel_timed_progress:
  "currentIndex (carousel_run n t (carousel_mount t0)) = min ((t - t0) div 3000) (n - 1)
   \<and> showContinue (carousel_run n t (carousel_mount t0)) = (max 1 n \<le> (t - t0) div 3000)"
  using carousel_mount_view [of n t t0] by (simp add: car_view_def)

text \<open>Claim C11 (invariant). At every time after mounting, the auto-advance
  interval is active exactly while the Continue button is hidden, and then it is
  the only active timer: the interval is cleared exactly once, when the last
  photo is reached.\<close>

theorem carousel_interval_until_exhausted:
  "(if showContinue (carousel_run n t (carousel_mount t0))
    then pending (carousel_timers (carousel_run n t (carousel_mount t0))) = []
    else length (pending (carousel_timers (carousel_run n t (carousel_mount t0)))) = 1)"
  using car_inv_run [OF carousel_mount_state(4) [of t0], of n t]
  by (auto simp: car_inv_def split: if_splits)

text \<open>Claim C12 (safety: cancellation). Unmounting the scene (the effect's
  cleanup) leaves no active timer of the carousel, so no later firing of the
  interval changes the carousel's state.\<close>

theorem carousel_unmount_cancels:
  assumes "car_inv c"
  shows "pending (carousel_timers (carousel_unmount c)) = []
         \<and> car_view (carousel_run n t (carousel_unmount c)) = car_view c"
proof -
  have "pending (carousel_timers (carousel_unmount c)) = []"
    using assms by (auto simp: car_inv_def carousel_unmount_def clear_timer_def split: if_splits)
  then show ?thesis
    by (simp add: carousel_run_idle car_view_def carousel_unmount_def)
qed

theorem carousel_unmount_cancels_witness:
  "pending (carousel_timers (carousel_unmount (carousel_mount 0))) = []
   \<and> car_view (carousel_run 13 100000 (carousel_unmount (carousel_mount 0))) = (0, False)"
  using carousel_unmount_cancels [OF carousel_mount_state(4), of 0 13 100000] carousel_mount_state(3)
  by simp

text \<open>Claim C13 (functional). The polaroid stack renders the current photo and
  at most two after it, never one before it: the rendered indices are
  \<open>[currentIndex ..< min n (currentIndex + 3)]\<close>, so at most three photos
  are rendered.\<close>

theorem carousel_render_window:
  "rendered_photos n cur = [cur..<min n (cur + 3)]
   \<and> length (rendered_photos n cur) = min 3 (n - cur)"
  by (simp add: rendered_photos_upt)

text \<open>Claim C14 (functional). Among the rendered photos the current one is in
  front: every other rendered photo has a lower \<open>zIndex\<close>, a smaller scale,
  opacity 0.4, and is pushed back along z by 100 per step of offset.\<close>

theorem carousel_active_in_front:
  assumes "carousel_visible cur i" and "i \<noteq> cur"
  shows "frame_zIndex (carousel_frame cur i) < frame_zIndex (carousel_frame cur cur)
         \<and> frame_scale (carousel_frame cur i) < frame_scale (carousel_frame cur cur)
         \<and> frame_opacity (carousel_frame cur i) = 0.4
         \<and> frame_z (carousel_frame cur i) = - 100 * real (i - cur)"
proof -
  have r: "cur < i" "i < cur + 3"
    using assms by (auto simp: carousel_visible_iff)
  then have d: "real_of_int (int i - int cur) = real (i - cur)"
    by (simp add: of_nat_diff)
  from r have "real cur < real i" by (simp only: of_nat_less_iff)
  then have "0.85 - \<bar>real_of_int (int i - int cur)\<bar> * 0.1 < (1::real)"
    by (simp add: field_simps)
  with d r show ?thesis
    by (simp add: carousel_frame_def Let_def)
qed

theorem carousel_active_in_front_witness:
  "frame_zIndex (carousel_frame 4 6) < frame_zIndex (carousel_frame 4 4)
   \<and> frame_scale (carousel_frame 4 6) < frame_scale (carousel_frame 4 4)
   \<and> frame_opacity (carousel_frame 4 6) = 0.4
   \<and> frame_z (carousel_frame 4 6) = - 100 * real ((6::nat) - 4)"
  by (rule carousel_active_in_front) (simp_all add: carousel_visible_iff)

end
