(* ===== verification/Layout.thy ===== *)
theory Layout
  imports Prelude Complex_Main
begin

text \<open>
  The layout mathematics of the scenes, over exact reals (the code computes in
  JS floating point; the theorems state the exact values the floating-point
  computation approximates):
  \<^item> \<open>getHeartPositions\<close> of \<open>src/src/app/components/Scene6Finale.tsx\<close>: the
    parametric heart curve sampled at \<open>count\<close> evenly spaced parameters, scaled
    into percent coordinates, with a random tilt; \<open>Math.random()\<close> is an
    injected source \<open>rnd\<close>, its \<open>i\<close>-th call giving \<open>rnd i\<close>;
  \<^item> the radial placement of \<open>src/src/app/components/Scene4MemoryUniverse.tsx\<close>
    (angle \<open>i / n * 2\<pi>\<close>, distance 150, position \<open>(cos, sin) * distance\<close>) and
    the same formula for the 30 burst particles of the gift box in
    \<open>src/src/app/components/Scene3GiftBox.tsx\<close> (distance 200).
\<close>

record heart_pos =
  hx :: real
  hy :: real
  hrot :: real

definition heart_t :: "nat \<Rightarrow> nat \<Rightarrow> real" where
  "heart_t count i = (real i / real count) * pi * 2"

definition heart_point :: "(nat \<Rightarrow> real) \<Rightarrow> nat \<Rightarrow> nat \<Rightarrow> heart_pos" where
  "heart_point rnd count i =
     (let t = heart_t count i;
          x = 16 * sin t ^ 3;
          y = - (13 * cos t - 5 * cos (2 * t) - 2 * cos (3 * t) - cos (4 * t));
          xPercent = 50 + (x / 20) * 40;
          yPercent = 50 + (y / 20) * 35
      in \<lparr>hx = xPercent, hy = yPercent, hrot = rnd i * 30 - 15\<rparr>)"

definition getHeartPositions :: "(nat \<Rightarrow> real) \<Rightarrow> nat \<Rightarrow> heart_pos list" where
  "getHeartPositions rnd count = map (heart_point rnd count) [0..<count]"

text \<open>\<open>photos.slice(0, heartPositions.length).map((photo, i) => ... heartPositions[i])\<close>.\<close>

definition heart_photos :: "(nat \<Rightarrow> real) \<Rightarrow> 'a list \<Rightarrow> ('a \<times> heart_pos) list" where
  "heart_photos rnd photos =
     (let hp = getHeartPositions rnd (length photos) in zip (take (length hp) photos) hp)"

record 'a positioned =
  photo :: 'a
  pid :: nat
  angle :: real
  distance :: real

definition radial_angle :: "nat \<Rightarrow> nat \<Rightarrow> real" where
  "radial_angle n i = (real i / real n) * pi * 2"

text \<open>The effect of Scene 4 that positions the photos in a radial burst.\<close>

definition positionPhotos :: "'a list \<Rightarrow> 'a positioned list" where
  "positionPhotos photos =
     map (\<lambda>(i, p). \<lparr>photo = p, pid = i, angle = radial_angle (length photos) i, distance = 150\<rparr>)
       (zip [0..<length photos] photos)"

definition orbit_xy :: "'a positioned \<Rightarrow> real \<times> real" where
  "orbit_xy p = (cos (angle p) * distance p, sin (angle p) * distance p)"

text \<open>The 30 particles of the gift-box explosion.\<close>

definition burst_xy :: "nat \<Rightarrow> real \<times> real" where
  "burst_xy i = (let a = radial_angle 30 i; d = 200 in (cos a * d, sin a * d))"

subsection \<open>Trigonometric facts of the heart curve\<close>

lemma cos_mult_2pi_minus: "cos (real k * (2 * pi - t)) = cos (real k * t)"
proof -
  have "real k * (2 * pi - t) = 2 * real k * pi - real k * t" by (simp add: algebra_simps)
  moreover have "sin (2 * real k * pi) = 0"
    using sin_npi [of "2 * k"] by (simp add: mult.assoc)
  ultimately show ?thesis by (simp add: cos_diff)
qed

lemma heart_t_mirror: "0 < count \<Longrightarrow> i \<le> count \<Longrightarrow> heart_t count (count - i) = 2 * pi - heart_t count i"
  by (simp add: heart_t_def of_nat_diff field_simps)

lemma heart_first: "0 < count \<Longrightarrow> hx (heart_point rnd count 0) = 50 \<and> hy (heart_point rnd count 0) = 41.25"
  by (simp add: heart_point_def heart_t_def)

lemma sin3_bound: "\<bar>16 * sin t ^ 3\<bar> \<le> (16::real)"
proof -
  have "\<bar>sin t\<bar> ^ 3 \<le> 1" by (rule power_le_one) simp_all
  then show ?thesis by (simp add: abs_mult power_abs)
qed

lemma heart_y_bound: "\<bar>13 * cos t - 5 * cos (2 * t) - 2 * cos (3 * t) - cos (4 * t)\<bar> \<le> (21::real)"
  unfolding abs_le_iff
  using cos_le_one [of t] cos_ge_minus_one [of t] cos_le_one [of "2 * t"] cos_ge_minus_one [of "2 * t"]
    cos_le_one [of "3 * t"] cos_ge_minus_one [of "3 * t"] cos_le_one [of "4 * t"] cos_ge_minus_one [of "4 * t"]
  by (intro conjI) linarith+
lemma heart_point_bounds:
  "18 \<le> hx (heart_point rnd count i) \<and> hx (heart_point rnd count i) \<le> 82
   \<and> 13.25 \<le> hy (heart_point rnd count i) \<and> hy (heart_point rnd count i) \<le> 86.75"
proof -
  let ?t = "heart_t count i"
  define X where "X = 16 * sin ?t ^ 3"
  define Y where "Y = 13 * cos ?t - 5 * cos (2 * ?t) - 2 * cos (3 * ?t) - cos (4 * ?t)"
  have x: "\<bar>X\<bar> \<le> 16" unfolding X_def by (rule sin3_bound)
  have y: "\<bar>Y\<bar> \<le> 21" unfolding Y_def by (rule heart_y_bound)
  have hx: "hx (heart_point rnd count i) = 50 + X / 20 * 40"
    by (simp add: heart_point_def Let_def X_def)
  have hy: "hy (heart_point rnd count i) = 50 + (- Y) / 20 * 35"
    by (simp add: heart_point_def Let_def Y_def)
  have d: "(13.25::real) = 53 / 4" "(86.75::real) = 347 / 4" by simp_all
  show ?thesis
    unfolding hx hy d using x y unfolding abs_le_iff by (intro conjI) linarith+
qed

lemma heart_point_mirror:
  assumes "0 < count" and "i \<le> count"
  shows "hx (heart_point rnd count (count - i)) = 100 - hx (heart_point rnd count i)
         \<and> hy (heart_point rnd count (count - i)) = hy (heart_point rnd count i)"
proof -
  let ?t = "heart_t count i"
  have t: "heart_t count (count - i) = 2 * pi - ?t" by (rule heart_t_mirror [OF assms])
  have c2: "cos (4 * pi - 2 * ?t) = cos (2 * ?t)"
    using cos_mult_2pi_minus [of 2 ?t] by (simp add: right_diff_distrib)
  have c3: "cos (6 * pi - 3 * ?t) = cos (3 * ?t)"
    using cos_mult_2pi_minus [of 3 ?t] by (simp add: right_diff_distrib)
  have c4: "cos (8 * pi - 4 * ?t) = cos (4 * ?t)"
    using cos_mult_2pi_minus [of 4 ?t] by (simp add: right_diff_distrib)
  show ?thesis
    by (simp add: heart_point_def Let_def t c2 c3 c4)
qed

lemma nth_positionPhotos:
  "i < length photos \<Longrightarrow> positionPhotos photos ! i
     = \<lparr>photo = photos ! i, pid = i, angle = radial_angle (length photos) i, distance = 150\<rparr>"
  by (simp add: positionPhotos_def)

subsection \<open>Properties of the layouts\<close>

text \<open>Claim C15 (functional). \<open>getHeartPositions count\<close> yields one position
  per photo, and the first (parameter \<open>t = 0\<close>, curve point \<open>(0, -5)\<close>) is at
  \<open>(50%, 41.25%)\<close>, the reference value of the specification.\<close>

theorem heart_positions_shape:
  assumes "0 < count"
  shows "length (getHeartPositions rnd count) = count
         \<and> hx (getHeartPositions rnd count ! 0) = 50
         \<and> hy (getHeartPositions rnd count ! 0) = 41.25"
  using assms heart_first [OF assms, of rnd]
  by (simp add: getHeartPositions_def)

theorem heart_positions_shape_witness:
  "length (getHeartPositions (\<lambda>_. 0) 13) = 13
   \<and> hx (getHeartPositions (\<lambda>_. 0) 13 ! 0) = 50
   \<and> hy (getHeartPositions (\<lambda>_. 0) 13 ! 0) = 41.25"
  by (rule heart_positions_shape) simp

text \<open>Claim C16 (bounds). Every heart position lies inside the container:
  \<open>x\<close> within \<open>[18%, 82%]\<close>, \<open>y\<close> within \<open>[13.25%, 86.75%]\<close>; and for a
  random source with values in \<open>[0, 1)\<close>, as \<open>Math.random()\<close>, the tilt is
  within \<open>[-15\<degree>, 15\<degree>)\<close>.\<close>

theorem heart_positions_bounds:
  assumes "i < count" and "0 \<le> rnd i" and "rnd i < 1"
  shows "18 \<le> hx (getHeartPositions rnd count ! i) \<and> hx (getHeartPositions rnd count ! i) \<le> 82
    \<and> 13.25 \<le> hy (getHeartPositions rnd count ! i) \<and> hy (getHeartPositions rnd count ! i) \<le> 86.75
    \<and> -15 \<le> hrot (getHeartPositions rnd count ! i) \<and> hrot (getHeartPositions rnd count ! i) < 15"
proof -
  have p: "getHeartPositions rnd count ! i = heart_point rnd count i"
    using assms(1) by (simp add: getHeartPositions_def)
  have "-15 \<le> rnd i * 30 - 15" and "rnd i * 30 - 15 < 15"
    using assms(2,3) by simp_all
  then show ?thesis
    using heart_point_bounds [of rnd count i] by (simp add: p heart_point_def Let_def)
qed

theorem heart_positions_bounds_witness:
  "18 \<le> hx (getHeartPositions (\<lambda>_. 0.5) 13 ! 5) \<and> hx (getHeartPositions (\<lambda>_. 0.5) 13 ! 5) \<le> 82
    \<and> 13.25 \<le> hy (getHeartPositions (\<lambda>_. 0.5) 13 ! 5) \<and> hy (getHeartPositions (\<lambda>_. 0.5) 13 ! 5) \<le> 86.75
    \<and> -15 \<le> hrot (getHeartPositions (\<lambda>_. 0.5) 13 ! 5) \<and> hrot (getHeartPositions (\<lambda>_. 0.5) 13 ! 5) < 15"
  by (rule heart_positions_bounds) simp_all

text \<open>Claim C17 (functional). The heart is mirror-symmetric: the positions of
  photos \<open>i\<close> and \<open>count - i\<close> are reflections of each other in the vertical
  axis \<open>x = 50%\<close>, at the same height.\<close>

theorem heart_mirror_symmetry:
  assumes "0 < i" and "i < count"
  shows "hx (getHeartPositions rnd count ! (count - i)) = 100 - hx (getHeartPositions rnd count ! i)
         \<and> hy (getHeartPositions rnd count ! (count - i)) = hy (getHeartPositions rnd count ! i)"
proof -
  have "count - i < count" using assms by simp
  then show ?thesis
    using assms heart_point_mirror [of count i rnd] by (simp add: getHeartPositions_def)
qed

theorem heart_mirror_symmetry_witness:
  "hx (getHeartPositions (\<lambda>_. 0) 13 ! (13 - 3)) = 100 - hx (getHeartPositions (\<lambda>_. 0) 13 ! 3)
   \<and> hy (getHeartPositions (\<lambda>_. 0) 13 ! (13 - 3)) = hy (getHeartPositions (\<lambda>_. 0) 13 ! 3)"
  by (rule heart_mirror_symmetry) simp_all

text \<open>Scene 4 places photo \<open>i\<close> with id \<open>i\<close> on the
  circle of radius 150 around the centre.\<close>

theorem orbit_on_circle:
  assumes "i < length photos"
  shows "pid (positionPhotos photos ! i) = i
         \<and> (fst (orbit_xy (positionPhotos photos ! i)))\<^sup>2 + (snd (orbit_xy (positionPhotos photos ! i)))\<^sup>2 = 150\<^sup>2"
proof -
  have "(cos a)\<^sup>2 * 22500 + (sin a)\<^sup>2 * 22500 = (22500::real)" for a
    by (metis distrib_right sin_cos_squared_add add.commute mult_1)
  then show ?thesis
    using assms by (simp add: nth_positionPhotos orbit_xy_def)
qed

theorem orbit_on_circle_witness:
  "pid (positionPhotos [''a'', ''b'', ''c''] ! 2) = 2
   \<and> (fst (orbit_xy (positionPhotos [''a'', ''b'', ''c''] ! 2)))\<^sup>2
     + (snd (orbit_xy (positionPhotos [''a'', ''b'', ''c''] ! 2)))\<^sup>2 = 150\<^sup>2"
  by (rule orbit_on_circle) simp

text \<open>The reference value of the specification: with
  four photos, photo 1 is at angle \<open>\<pi>/2\<close>, the point \<open>(0, 150)\<close>.\<close>

theorem orbit_reference_point:
  assumes "length photos = 4"
  shows "orbit_xy (positionPhotos photos ! 1) = (0, 150)"
  using assms by (simp add: nth_positionPhotos orbit_xy_def radial_angle_def)

theorem orbit_reference_point_witness:
  "orbit_xy (positionPhotos [1, 2, 3, 4 :: nat] ! 1) = (0, 150)"
  by (rule orbit_reference_point) simp

end
