(* ===== verification/GiftBox.thy ===== *)
theory GiftBox
  imports Timers Layout
begin

text \<open>
  The gift box of \<open>src/src/app/components/Scene3GiftBox.tsx\<close>: the states
  \<open>isOpening\<close> and \<open>isOpened\<close>, \<open>handleTap\<close> with its guard against a second
  tap, and the two chained timeouts (2000 ms to open the lid, 2000 ms more to
  call \<open>onComplete\<close>), which the component never clears. The number of
  \<open>onComplete\<close> calls is the effect the scene has on App. The view is what the
  JSX renders from the two flags: the instruction, the bobbing box and its
  parts, and the explosion with its 30 burst particles.
\<close>

datatype gift_cb = OpenLid | CallComplete

record gift =
  isOpening :: bool
  isOpened :: bool
  completions :: nat
  gift_timers :: "gift_cb timers"

definition gift_init :: "ms \<Rightarrow> gift" where
  "gift_init t0 = \<lparr>isOpening = False, isOpened = False, completions = 0, gift_timers = timers_init t0\<rparr>"

definition gift_step_delay :: ms where
  "gift_step_delay = 2000"

definition handleTap :: "gift \<Rightarrow> gift" where
  "handleTap s =
     (if isOpening s \<or> isOpened s then s
      else s\<lparr>isOpening := True,
             gift_timers := snd (set_timeout gift_step_delay OpenLid (gift_timers s))\<rparr>)"

text \<open>The callbacks: the first sets \<open>isOpened\<close> and schedules the second,
  which calls \<open>onComplete()\<close>.\<close>

primrec gift_fire :: "gift_cb \<Rightarrow> gift \<Rightarrow> gift" where
  "gift_fire OpenLid s =
     s\<lparr>isOpened := True,
       gift_timers := snd (set_timeout gift_step_delay CallComplete (gift_timers s))\<rparr>"
| "gift_fire CallComplete s = s\<lparr>completions := Suc (completions s)\<rparr>"

function gift_run :: "ms \<Rightarrow> gift \<Rightarrow> gift" where
  "gift_run t s =
     (case pop_due t (gift_timers s) of
        None \<Rightarrow> s\<lparr>gift_timers := advance_clock t (gift_timers s)\<rparr>
      | Some (cb, q) \<Rightarrow> gift_run t (gift_fire cb (s\<lparr>gift_timers := q\<rparr>)))"
  by pat_completeness auto
termination
proof (relation "measures [\<lambda>(t, s). timer_work_of (\<lambda>c. c = OpenLid) t (gift_timers s),
                            \<lambda>(t, s). timer_work t (gift_timers s)]")
  show "wf (measures [\<lambda>(t, s). timer_work_of (\<lambda>c. c = OpenLid) t (gift_timers s),
                      \<lambda>(t, s). timer_work t (gift_timers s)])"
    by simp
next
  fix t :: ms and s :: gift and x cb q
  assume pop: "pop_due t (gift_timers s) = Some x" and x: "(cb, q) = x"
  then have pop': "pop_due t (gift_timers s) = Some (cb, q)" by simp
  show "((t, gift_fire cb (s\<lparr>gift_timers := q\<rparr>)), t, s)
      \<in> measures [\<lambda>(t, s). timer_work_of (\<lambda>c. c = OpenLid) t (gift_timers s),
                  \<lambda>(t, s). timer_work t (gift_timers s)]"
  proof (cases cb)
    case OpenLid
    then show ?thesis
      using timer_work_of_pop_due(1) [OF pop', of "\<lambda>c. c = OpenLid"]
      by (simp add: timer_work_of_set_timeout_other)
  next
    case CallComplete
    then show ?thesis
      using timer_work_of_pop_due(2) [OF pop', of "\<lambda>c. c = OpenLid"] timer_work_pop_due [OF pop']
      by simp
  qed
qed

definition gift_taps :: "ms list \<Rightarrow> gift \<Rightarrow> gift" where
  "gift_taps ts s = fold (\<lambda>t s. handleTap (gift_run t s)) ts s"

subsection \<open>What the scene renders\<close>

record gift_view =
  instruction_shown :: bool      \<comment> \<open>\<open>{!isOpening && ...}\<close>, "Tap the gift"\<close>
  box_bobbing :: bool            \<comment> \<open>the container's \<open>y\<close>/\<open>rotate\<close> loop and hover/tap scaling\<close>
  shadow_fading :: bool          \<comment> \<open>the shadow's one-shot fade instead of its pulse\<close>
  ribbons_vanishing :: bool      \<comment> \<open>both ribbons collapse and fade\<close>
  bow_spinning_out :: bool       \<comment> \<open>the bow shrinks while turning once\<close>
  lid_lifting :: bool            \<comment> \<open>the lid rotates up after a 1 s delay\<close>
  explosion_shown :: bool        \<comment> \<open>\<open>{isOpened && ...}\<close>: light burst, particles, sparkles\<close>

definition gift_view_of :: "gift \<Rightarrow> gift_view" where
  "gift_view_of s =
     \<lparr>instruction_shown = (\<not> isOpening s),
      box_bobbing = (\<not> isOpening s),
      shadow_fading = isOpening s,
      ribbons_vanishing = isOpening s,
      bow_spinning_out = isOpening s,
      lid_lifting = isOpening s,
      explosion_shown = isOpened s\<rparr>"

text \<open>The 30 particles of the burst: target offset and colour.\<close>

definition burst_particles :: "((real \<times> real) \<times> string) list" where
  "burst_particles =
     map (\<lambda>i. (burst_xy i, if i mod 2 = 0 then ''#FFD700'' else ''#FFA500'')) [0..<30]"

text \<open>After the first tap at a time that makes the lid due at \<open>d\<close>, the scene's
  flags, its \<open>onComplete\<close> count and its active timers (without their
  handles) are a function of the clock: waiting for the lid, waiting for the
  call, or done.\<close>

definition gift_fields :: "gift \<Rightarrow> bool \<times> nat \<times> (ms \<times> ms option \<times> gift_cb) list" where
  "gift_fields s = (isOpened s, completions s,
     map (\<lambda>e. (timer_due e, timer_period e, timer_cb e)) (pending (gift_timers s)))"

definition gview :: "ms \<Rightarrow> ms \<Rightarrow> bool \<times> nat \<times> (ms \<times> ms option \<times> gift_cb) list" where
  "gview d c =
     (if c < d then (False, 0, [(d, None, OpenLid)])
      else if c < d + gift_step_delay then (True, 0, [(d + gift_step_delay, None, CallComplete)])
      else (True, 1, []))"

definition gift_ok :: "ms \<Rightarrow> gift \<Rightarrow> bool" where
  "gift_ok d s \<longleftrightarrow> isOpening s \<and> gift_fields s = gview d (clock (gift_timers s))"

subsection \<open>The chained timeouts\<close>

declare gift_run.simps [simp del]

lemma gift_run_None:
  "pop_due t (gift_timers s) = None \<Longrightarrow>
   gift_run t s = s\<lparr>gift_timers := advance_clock t (gift_timers s)\<rparr>"
  by (simp add: gift_run.simps)

lemma gift_run_Some:
  "pop_due t (gift_timers s) = Some (cb, q) \<Longrightarrow>
   gift_run t s = gift_run t (gift_fire cb (s\<lparr>gift_timers := q\<rparr>))"
  by (simp add: gift_run.simps)

lemma gift_ok_done:
  assumes "gift_ok d s" and "d + gift_step_delay \<le> clock (gift_timers s)"
  shows "gift_ok d (gift_run T s) \<and> clock (gift_timers (gift_run T s)) = max (clock (gift_timers s)) T"
proof -
  have "pending (gift_timers s) = []"
    using assms by (simp add: gift_ok_def gift_fields_def gview_def)
  then show ?thesis
    using assms by (simp add: gift_run_None pop_due_def advance_clock_def gift_ok_def gift_fields_def gview_def)
qed

lemma gift_ok_calling:
  assumes "gift_ok d s" and "d \<le> clock (gift_timers s)" and "clock (gift_timers s) < d + gift_step_delay"
  shows "gift_ok d (gift_run T s) \<and> clock (gift_timers (gift_run T s)) = max (clock (gift_timers s)) T"
proof -
  let ?c = "clock (gift_timers s)" and ?d2 = "d + gift_step_delay"
  have f: "gift_fields s = (True, 0, [(?d2, None, CallComplete)])"
    using assms by (simp add: gift_ok_def gview_def)
  then have "map (\<lambda>e. (timer_due e, timer_period e, timer_cb e)) (pending (gift_timers s))
      = [(?d2, None, CallComplete)]"
    by (simp add: gift_fields_def)
  then obtain h where p: "pending (gift_timers s) = [Timer h ?d2 None CallComplete]"
    by (rule map_timer_single)
  show ?thesis
  proof (cases "?d2 \<le> T")
    case False
    then have "pop_due T (gift_timers s) = None" by (simp add: pop_due_single [OF p])
    with assms False show ?thesis
      by (simp add: gift_run_None advance_clock_def gift_ok_def gift_fields_def gview_def max_def)
  next
    case True
    let ?s1 = "(s\<lparr>gift_timers := (gift_timers s)\<lparr>clock := ?d2, pending := []\<rparr>\<rparr>)\<lparr>completions := Suc (completions s)\<rparr>"
    have "pop_due T (gift_timers s) = Some (CallComplete, (gift_timers s)\<lparr>clock := ?d2, pending := []\<rparr>)"
      using True assms(3) by (simp add: pop_due_single [OF p] rearm_def max_def)
    then have r: "gift_run T s = gift_run T ?s1" by (simp add: gift_run_Some)
    have ok1: "gift_ok d ?s1"
      using assms(1) f by (simp add: gift_ok_def gift_fields_def gview_def)
    from gift_ok_done [OF ok1] True assms(3) show ?thesis
      by (simp add: r max_def)
  qed
qed

lemma gift_ok_run:
  assumes "gift_ok d s"
  shows "gift_ok d (gift_run T s) \<and> clock (gift_timers (gift_run T s)) = max (clock (gift_timers s)) T"
proof -
  let ?c = "clock (gift_timers s)"
  consider (wait) "?c < d" | (calling) "d \<le> ?c" "?c < d + gift_step_delay"
    | (finished) "d + gift_step_delay \<le> ?c" by linarith
  then show ?thesis
  proof cases
    case finished
    then show ?thesis using gift_ok_done [OF assms] by blast
  next
    case calling
    then show ?thesis using gift_ok_calling [OF assms] by blast
  next
    case wait
    have f: "gift_fields s = (False, 0, [(d, None, OpenLid)])"
      using assms wait by (simp add: gift_ok_def gview_def)
    then have o: "\<not> isOpened s" and z: "completions s = 0"
      and m: "map (\<lambda>e. (timer_due e, timer_period e, timer_cb e)) (pending (gift_timers s)) = [(d, None, OpenLid)]"
      by (simp_all add: gift_fields_def)
    from m obtain h where p: "pending (gift_timers s) = [Timer h d None OpenLid]"
      by (rule map_timer_single)
    show ?thesis
    proof (cases "d \<le> T")
      case False
      then have "pop_due T (gift_timers s) = None" by (simp add: pop_due_single [OF p])
      with assms wait False show ?thesis
        by (simp add: gift_run_None advance_clock_def gift_ok_def gift_fields_def gview_def max_def)
    next
      case True
      let ?q = "(gift_timers s)\<lparr>clock := d, pending := []\<rparr>"
      let ?s1 = "gift_fire OpenLid (s\<lparr>gift_timers := ?q\<rparr>)"
      have "pop_due T (gift_timers s) = Some (OpenLid, ?q)"
        using True wait by (simp add: pop_due_single [OF p] rearm_def max_def)
      then have r: "gift_run T s = gift_run T ?s1" by (simp add: gift_run_Some)
      have c1: "clock (gift_timers ?s1) = d"
        by (simp add: set_timeout_def)
      have ok1: "gift_ok d ?s1"
        using assms z by (simp add: gift_ok_def gift_fields_def gview_def set_timeout_def gift_step_delay_def)
      from gift_ok_calling [OF ok1] c1 True wait show ?thesis
        by (simp add: r max_def gift_step_delay_def)
    qed
  qed
qed

lemma handleTap_opening: "isOpening s \<Longrightarrow> handleTap s = s"
  by (simp add: handleTap_def)

lemma gift_ok_taps:
  "gift_ok d s \<Longrightarrow> gift_ok d (gift_taps ts s)
     \<and> clock (gift_timers (gift_taps ts s)) = fold max ts (clock (gift_timers s))"
proof (induction ts arbitrary: s)
  case Nil
  then show ?case by (simp add: gift_taps_def)
next
  case (Cons t ts)
  have ok: "gift_ok d (gift_run t s)" and c: "clock (gift_timers (gift_run t s)) = max (clock (gift_timers s)) t"
    using gift_ok_run [OF Cons.prems] by auto
  have "isOpening (gift_run t s)" using ok by (simp add: gift_ok_def)
  then have "gift_taps (t # ts) s = gift_taps ts (gift_run t s)"
    by (simp add: gift_taps_def handleTap_opening)
  with Cons.IH [OF ok] c show ?case by (simp add: max.commute)
qed

lemma gift_first_tap:
  assumes "t0 \<le> t1"
  shows "gift_ok (t1 + gift_step_delay) (handleTap (gift_run t1 (gift_init t0)))
    \<and> clock (gift_timers (handleTap (gift_run t1 (gift_init t0)))) = t1"
  using assms
  by (simp add: gift_init_def timers_init_def gift_run_None pop_due_def advance_clock_def handleTap_def
      set_timeout_def gift_ok_def gift_fields_def gview_def gift_step_delay_def)

lemma gift_after_taps:
  assumes "t0 \<le> t1" and "t1 \<le> T" and "\<forall>t\<in>set ts. t \<le> T"
  shows "gift_ok (t1 + gift_step_delay) (gift_run T (gift_taps (t1 # ts) (gift_init t0)))
    \<and> clock (gift_timers (gift_run T (gift_taps (t1 # ts) (gift_init t0)))) = T"
proof -
  let ?s1 = "handleTap (gift_run t1 (gift_init t0))"
  have eq: "gift_taps (t1 # ts) (gift_init t0) = gift_taps ts ?s1"
    by (simp add: gift_taps_def)
  from gift_first_tap [OF assms(1)] have ok: "gift_ok (t1 + gift_step_delay) ?s1"
    and c: "clock (gift_timers ?s1) = t1" by auto
  from gift_ok_taps [OF ok, of ts] c have ok2: "gift_ok (t1 + gift_step_delay) (gift_taps ts ?s1)"
    and c2: "clock (gift_timers (gift_taps ts ?s1)) = fold max ts t1" by auto
  have "fold max ts t1 \<le> T" using fold_max_le [OF assms(3,2)] .
  with gift_ok_run [OF ok2, of T] c2 show ?thesis by (simp add: eq max_def)
qed

lemma polar_on_circle: "(cos a * r)\<^sup>2 + (sin a * r)\<^sup>2 = (r::real)\<^sup>2"
  by (simp add: power_mult_distrib flip: distrib_right)

lemma alternate_upt:
  "map (\<lambda>i. if i mod 2 = 0 then a else b) [0..<2 * n] = concat (replicate n [a, b])"
proof (induction n)
  case (Suc n)
  have "[0..<2 * Suc n] = [0..<2 * n] @ [2 * n, Suc (2 * n)]" by simp
  with Suc show ?case by (simp add: replicate_append_same [symmetric])
qed simp

lemma gift_fields_after_taps:
  assumes "t0 \<le> t1" and "t1 \<le> T" and "\<forall>t\<in>set ts. t \<le> T"
  shows "isOpening (gift_run T (gift_taps (t1 # ts) (gift_init t0)))
    \<and> gift_fields (gift_run T (gift_taps (t1 # ts) (gift_init t0))) = gview (t1 + gift_step_delay) T"
  using gift_after_taps [OF assms] by (simp add: gift_ok_def)

subsection \<open>Properties\<close>

text \<open>Claim C22 (functional, timed). Tapping the gift at \<open>t1\<close> and any number of
  times afterwards, the scene calls \<open>onComplete\<close> exactly once, 4000 ms after
  the first tap, and never before: the guard of \<open>handleTap\<close> makes every
  later tap a no-op, so no second pair of timeouts is ever scheduled.\<close>

theorem gift_single_completion:
  assumes "t0 \<le> t1" and "t1 \<le> T" and "\<forall>t\<in>set ts. t \<le> T"
  shows "completions (gift_run T (gift_taps (t1 # ts) (gift_init t0)))
           = (if t1 + 4000 \<le> T then 1 else 0)"
  using gift_fields_after_taps [OF assms]
  unfolding gift_fields_def gview_def gift_step_delay_def by (auto split: if_splits)

theorem gift_single_completion_witness:
  "completions (gift_run 5000 (gift_taps [100, 200, 2500, 4000] (gift_init 0))) = 1"
  using gift_single_completion [of 0 100 5000 "[200, 2500, 4000]"] by simp

text \<open>Claim C23 (functional, view). From the first tap on the instruction is
  hidden, the box stops bobbing and its shadow, ribbons, bow and lid play their
  opening animations; the explosion with its particles is rendered exactly from
  2000 ms after the first tap.\<close>

theorem gift_view_after_first_tap:
  assumes "t0 \<le> t1" and "t1 \<le> T" and "\<forall>t\<in>set ts. t \<le> T"
  shows "gift_view_of (gift_run T (gift_taps (t1 # ts) (gift_init t0)))
    = \<lparr>instruction_shown = False, box_bobbing = False, shadow_fading = True,
       ribbons_vanishing = True, bow_spinning_out = True, lid_lifting = True,
       explosion_shown = (t1 + 2000 \<le> T)\<rparr>"
  using gift_fields_after_taps [OF assms]
  unfolding gift_view_of_def gift_fields_def gview_def gift_step_delay_def by (auto split: if_splits)

theorem gift_view_after_first_tap_witness:
  "explosion_shown (gift_view_of (gift_run 2100 (gift_taps [100, 150] (gift_init 0))))
   \<and> \<not> instruction_shown (gift_view_of (gift_run 2100 (gift_taps [100, 150] (gift_init 0))))"
  using gift_view_after_first_tap [of 0 100 2100 "[150]"] by simp

text \<open>Before any tap the scene shows the
  instruction and the bobbing box and no explosion, however long it waits, and
  never calls \<open>onComplete\<close>: the scene advances only on a tap.\<close>

theorem gift_waits_for_tap:
  "gift_view_of (gift_run T (gift_init t0))
     = \<lparr>instruction_shown = True, box_bobbing = True, shadow_fading = False,
        ribbons_vanishing = False, bow_spinning_out = False, lid_lifting = False,
        explosion_shown = False\<rparr>
   \<and> completions (gift_run T (gift_init t0)) = 0"
  by (simp add: gift_init_def timers_init_def gift_run_None pop_due_def gift_view_of_def)

text \<open>The burst has 30 particles, all on the
  circle of radius 200 around the box, evenly spaced, alternating gold
  (\<open>#FFD700\<close>) and orange (\<open>#FFA500\<close>).\<close>

theorem burst_particles_circle:
  "length burst_particles = 30
   \<and> list_all (\<lambda>((x, y), c). x\<^sup>2 + y\<^sup>2 = 200\<^sup>2) burst_particles
   \<and> map snd burst_particles = concat (replicate 15 [''#FFD700'', ''#FFA500''])"
proof -
  have c: "map snd burst_particles = map (\<lambda>i. if i mod 2 = 0 then ''#FFD700'' else ''#FFA500'') [0..<30]"
    by (simp add: burst_particles_def)
  have "map (\<lambda>i::nat. if i mod 2 = 0 then ''#FFD700'' else ''#FFA500'') [0..<2 * 15] = concat (replicate 15 [''#FFD700'', ''#FFA500''])"
    by (rule alternate_upt)
  moreover have "list_all (\<lambda>((x, y), c). x\<^sup>2 + y\<^sup>2 = 200\<^sup>2) burst_particles"
    using polar_on_circle [of _ 200]
    by (simp add: burst_particles_def burst_xy_def Let_def list_all_iff)
  ultimately show ?thesis
    using c by (simp add: burst_particles_def)
qed

end
