(* ===== verification/Timeline.thy ===== *)
theory Timeline
  imports Prelude Complex_Main
begin

text \<open>
  The timeline of \<open>src/src/app/components/Scene5Timeline.tsx\<close> and App's
  milestone list (\<open>src/src/app/App.tsx\<close>): the state
  \<open>expandedMilestone\<close>, the two click handlers of each milestone (its icon
  circle and its card, which toggle the same state), the Continue button, and
  what each milestone renders from the state (its photo grid, its hint, its
  entrance delay and its three sparkles).
\<close>

record milestone =
  m_icon :: string
  m_title :: string
  m_date :: string
  m_description :: string
  m_photos :: "string list option"

record timeline =
  expandedMilestone :: "nat option"
  tl_completions :: nat

definition timeline_init :: timeline where
  "timeline_init = \<lparr>expandedMilestone = None, tl_completions = 0\<rparr>"

text \<open>\<open>setExpandedMilestone(expandedMilestone === i ? null : i)\<close>, the handler of
  both the icon circle and the card of milestone \<open>i\<close>.\<close>

definition toggle_milestone :: "nat \<Rightarrow> timeline \<Rightarrow> timeline" where
  "toggle_milestone i s =
     s\<lparr>expandedMilestone := (if expandedMilestone s = Some i then None else Some i)\<rparr>"

text \<open>A click lands on an element that is rendered: milestone \<open>i\<close> exists only
  for \<open>i < n\<close>. The Continue button calls \<open>onComplete\<close> on every click.\<close>

datatype timeline_event = IconClick nat | CardClick nat | ContinueClick

fun timeline_step :: "nat \<Rightarrow> timeline_event \<Rightarrow> timeline \<Rightarrow> timeline" where
  "timeline_step n (IconClick i) s = (if i < n then toggle_milestone i s else s)"
| "timeline_step n (CardClick i) s = (if i < n then toggle_milestone i s else s)"
| "timeline_step n ContinueClick s = s\<lparr>tl_completions := Suc (tl_completions s)\<rparr>"

definition timeline_run :: "nat \<Rightarrow> timeline_event list \<Rightarrow> timeline \<Rightarrow> timeline" where
  "timeline_run n es s = fold (timeline_step n) es s"

subsection \<open>What a milestone renders\<close>

record milestone_view =
  mv_icon :: string
  mv_title :: string
  mv_date :: string
  mv_description :: string
  mv_photos_shown :: "string list"      \<comment> \<open>the grid of \<open>expandedMilestone === i && milestone.photos\<close>\<close>
  mv_hint :: "string option"            \<comment> \<open>the hint paragraph of \<open>milestone.photos && ...\<close>\<close>
  mv_delay :: real                      \<comment> \<open>entrance delay in seconds\<close>
  mv_sparkles :: "(real \<times> real \<times> real) list"  \<comment> \<open>left %, top %, delay\<close>

definition sparkle_at :: "nat \<Rightarrow> nat \<Rightarrow> real \<times> real \<times> real" where
  "sparkle_at i k = (20 + real k * 30, 10 + real k * 20, real i * 0.3 + real k * 0.5)"

text \<open>An array is truthy in JS even when empty, so a milestone with
  \<open>photos: []\<close> shows the hint and an empty grid; only a missing \<open>photos\<close>
  hides both.\<close>

definition milestone_view_of :: "nat option \<Rightarrow> nat \<Rightarrow> milestone \<Rightarrow> milestone_view" where
  "milestone_view_of e i m =
     \<lparr>mv_icon = m_icon m, mv_title = m_title m, mv_date = m_date m,
      mv_description = m_description m,
      mv_photos_shown = (case m_photos m of None \<Rightarrow> [] | Some ps \<Rightarrow> if e = Some i then ps else []),
      mv_hint = (case m_photos m of None \<Rightarrow> None
                 | Some _ \<Rightarrow> Some (if e = Some i then ''Tap to collapse'' else ''Tap to see photos'')),
      mv_delay = 0.8 + real i * 0.2,
      mv_sparkles = map (sparkle_at i) [0..<3]\<rparr>"

definition timeline_view :: "timeline \<Rightarrow> milestone list \<Rightarrow> milestone_view list" where
  "timeline_view s ms =
     map (\<lambda>(i, m). milestone_view_of (expandedMilestone s) i m) (zip [0..<length ms] ms)"

subsection \<open>App's milestones\<close>

definition app_milestones :: "milestone list" where
  "app_milestones =
    [\<lparr>m_icon = ''Heart'', m_title = utf8 [0xF0, 0x9F, 0x92, 0x8D] @ '' Engagement Day'',
      m_date = ''December 4, 2024'',
      m_description = ''The day we promised forever to each other. A moment that changed our lives.'',
      m_photos = Some [''/src/asset/twelve.jpeg'', ''/src/asset/fifteen.jpeg'']\<rparr>,
     \<lparr>m_icon = ''Calendar'', m_title = utf8 [0xF0, 0x9F, 0x92, 0x92] @ '' Wedding Day'',
      m_date = ''February 17, 2025'',
      m_description = ''Surrounded by love, we became one. The most beautiful day of our lives.'',
      m_photos = Some [''/src/asset/seven.jpeg'', ''/src/asset/nine.jpeg'']\<rparr>,
     \<lparr>m_icon = ''Home'', m_title = utf8 [0xF0, 0x9F, 0x8F, 0xA1] @ '' First Home Together'',
      m_date = ''June 2025'',
      m_description = ''Building our nest, creating our sanctuary. Where our love grows every day.'',
      m_photos = None\<rparr>,
     \<lparr>m_icon = ''PartyPopper'', m_title = utf8 [0xF0, 0x9F, 0x8E, 0x89] @ '' First Festival'',
      m_date = ''October 2025'',
      m_description = ''Celebrating traditions together. Lights, love, and laughter filled our home.'',
      m_photos = Some [''/src/asset/five.jpeg'', ''/src/asset/six.jpeg'']\<rparr>,
     \<lparr>m_icon = ''Laugh'', m_title = utf8 [0xF0, 0x9F, 0x98, 0x82] @ '' Funniest Moment'',
      m_date = ''November 2025'',
      m_description = ''That time we got lost on a road trip and found the best sunset spot!'',
      m_photos = None\<rparr>,
     \<lparr>m_icon = ''Heart'', m_title = utf8 [0xE2, 0x9D, 0xA4, 0xEF, 0xB8, 0x8F] @ '' One Year Together'',
      m_date = ''February 17, 2026'',
      m_description = ''365 days of love, laughter, and endless memories. Here''
        @ [char_of (39::nat)] @ ''s to forever!'',
      m_photos = Some [''/src/asset/eight.jpeg'', ''/src/asset/ten.jpeg'']\<rparr>]"

subsection \<open>Lemmas\<close>

lemma timeline_run_simps [simp]:
  "timeline_run n [] s = s"
  "timeline_run n (e # es) s = timeline_run n es (timeline_step n e s)"
  by (simp_all add: timeline_run_def)

lemma length_timeline_view [simp]: "length (timeline_view s ms) = length ms"
  by (simp add: timeline_view_def)

lemma nth_timeline_view:
  "j < length ms \<Longrightarrow> timeline_view s ms ! j = milestone_view_of (expandedMilestone s) j (ms ! j)"
  by (simp add: timeline_view_def)

lemma photos_shown_expanded:
  "mv_photos_shown (milestone_view_of e i m) \<noteq> [] \<Longrightarrow> e = Some i"
  by (auto simp: milestone_view_of_def split: option.splits if_splits)

lemma at_most_one_grid:
  "length (filter (\<lambda>v. mv_photos_shown v \<noteq> []) (timeline_view s ms)) \<le> 1"
proof -
  let ?J = "{j. j < length (timeline_view s ms) \<and> mv_photos_shown (timeline_view s ms ! j) \<noteq> []}"
  have sub: "?J \<subseteq> set_option (expandedMilestone s)"
  proof
    fix j assume "j \<in> ?J"
    then have j: "j < length ms" and "mv_photos_shown (timeline_view s ms ! j) \<noteq> []"
      by simp_all
    then have "mv_photos_shown (milestone_view_of (expandedMilestone s) j (ms ! j)) \<noteq> []"
      by (simp add: nth_timeline_view)
    then show "j \<in> set_option (expandedMilestone s)"
      using photos_shown_expanded by fastforce
  qed
  have "card ?J \<le> card (set_option (expandedMilestone s))"
    by (rule card_mono [OF _ sub]) simp
  also have "\<dots> \<le> 1" by (cases "expandedMilestone s") auto
  finally show ?thesis by (simp only: length_filter_conv_card)
qed

definition tl_inv :: "nat \<Rightarrow> timeline \<Rightarrow> bool" where
  "tl_inv n s \<longleftrightarrow> (case expandedMilestone s of None \<Rightarrow> True | Some i \<Rightarrow> i < n)"

lemma tl_inv_step: "tl_inv n s \<Longrightarrow> tl_inv n (timeline_step n e s)"
  by (cases e) (auto simp: tl_inv_def toggle_milestone_def)

lemma tl_inv_run: "tl_inv n s \<Longrightarrow> tl_inv n (timeline_run n es s)"
  by (induction es arbitrary: s) (auto intro: tl_inv_step)

lemma expanded_step_cong:
  "expandedMilestone s = expandedMilestone s' \<Longrightarrow>
   expandedMilestone (timeline_step n e s) = expandedMilestone (timeline_step n e s')"
  by (cases e) (simp_all add: toggle_milestone_def)

lemma expanded_run_cong:
  "expandedMilestone s = expandedMilestone s' \<Longrightarrow>
   expandedMilestone (timeline_run n es s) = expandedMilestone (timeline_run n es s')"
proof (induction es arbitrary: s s')
  case (Cons e es)
  show ?case using Cons.IH [OF expanded_step_cong [OF Cons.prems, of n e]] by simp
qed simp

lemma expanded_run_no_continue:
  "expandedMilestone (timeline_run n es s)
     = expandedMilestone (timeline_run n (filter (\<lambda>e. e \<noteq> ContinueClick) es) s)"
proof (induction es arbitrary: s)
  case (Cons e es)
  show ?case
  proof (cases e)
    case ContinueClick
    then show ?thesis
      using expanded_run_cong [of "timeline_step n e s" s n es] Cons.IH [of s] by simp
  qed (use Cons.IH [of "timeline_step n e s"] in simp_all)
qed simp

lemma completions_run:
  "tl_completions (timeline_run n es s) = tl_completions s + count_list es ContinueClick"
proof (induction es arbitrary: s)
  case (Cons e es)
  then show ?case by (cases e) (simp_all add: toggle_milestone_def)
qed simp

lemma timeline_step_click:
  "i < n \<Longrightarrow> ev = IconClick i \<or> ev = CardClick i \<Longrightarrow> timeline_step n ev s = toggle_milestone i s"
  by auto

subsection \<open>Properties\<close>

text \<open>Claim C27 (functional). A click on milestone \<open>i\<close>, on its icon or on its
  card, shows the photos of \<open>i\<close> if it was not expanded and hides them if it
  was; every other milestone's grid is hidden, and the hint of \<open>i\<close> says
  what the next click does.\<close>

theorem timeline_click_toggles:
  assumes "i < length ms" and "j < length ms" and "ev = IconClick i \<or> ev = CardClick i"
  shows "mv_photos_shown (timeline_view (timeline_step (length ms) ev s) ms ! j)
           = (if j = i \<and> expandedMilestone s \<noteq> Some i
              then (case m_photos (ms ! i) of None \<Rightarrow> [] | Some ps \<Rightarrow> ps) else [])
         \<and> mv_hint (timeline_view (timeline_step (length ms) ev s) ms ! i)
           = map_option (\<lambda>_. if expandedMilestone s = Some i then ''Tap to see photos'' else ''Tap to collapse'')
               (m_photos (ms ! i))"
  using assms
  by (auto simp: timeline_step_click nth_timeline_view milestone_view_of_def toggle_milestone_def
      split: option.split)

theorem timeline_click_toggles_witness:
  "mv_photos_shown (timeline_view (timeline_step 6 (CardClick 1) timeline_init) app_milestones ! 1)
     = [''/src/asset/seven.jpeg'', ''/src/asset/nine.jpeg'']"
  using timeline_click_toggles [of 1 app_milestones 1 "CardClick 1" timeline_init]
  by (simp add: app_milestones_def timeline_init_def)

text \<open>Claim C28 (functional). The Continue button calls \<open>onComplete\<close> on every
  click, with no guard, and does not touch the expanded milestone.\<close>

theorem timeline_continue_unguarded:
  "tl_completions (timeline_run n es s) = tl_completions s + count_list es ContinueClick
   \<and> expandedMilestone (timeline_run n es s)
     = expandedMilestone (timeline_run n (filter (\<lambda>e. e \<noteq> ContinueClick) es) s)"
  by (simp add: completions_run expanded_run_no_continue [symmetric])

text \<open>App passes six milestones; the first,
  second, fourth and sixth have two photos each, the others none. Opening the
  first and then tapping the third, which has no photos, hides every grid while
  no hint shows that the third is the expanded one.\<close>

theorem app_milestones_grids:
  "map (\<lambda>m. map_option length (m_photos m)) app_milestones
     = [Some 2, Some 2, None, Some 2, None, Some 2]
   \<and> list_all (\<lambda>v. mv_photos_shown v = [])
       (timeline_view (timeline_run 6 [CardClick 0, IconClick 2] timeline_init) app_milestones)
   \<and> expandedMilestone (timeline_run 6 [CardClick 0, IconClick 2] timeline_init) = Some 2
   \<and> mv_hint (timeline_view (timeline_run 6 [CardClick 0, IconClick 2] timeline_init) app_milestones ! 2)
       = None"
  by (simp add: app_milestones_def timeline_init_def toggle_milestone_def timeline_view_def
      milestone_view_of_def upt_rec)


end
