(* ===== verification/Universe.thy ===== *)
theory Universe
  imports Timers Layout
begin

text \<open>
  The memory universe of \<open>src/src/app/components/Scene4MemoryUniverse.tsx\<close>:
  the state \<open>expandedPhoto\<close>, \<open>currentIndex\<close>, \<open>photosWithPosition\<close> (filled
  by the mount effect with the radial layout of \<open>Layout\<close>) and \<open>miniHearts\<close>;
  the handlers \<open>handlePhotoTap\<close>, \<open>handleClose\<close>, \<open>handleSwipe\<close> and
  \<open>handleDoubleTap\<close> with the 1000 ms timeout that removes a batch of hearts;
  the routing of a tap to the element that receives it (the expanded view is a
  full-screen layer above the orbit and the Continue button, and its card stops
  the propagation of clicks to that layer); and what the scene renders.
  \<open>Date.now()\<close> is the clock of the timer queue and \<open>Math.random()\<close> an
  injected function \<open>rnd\<close>.
\<close>

datatype heart_cb = RemoveHearts "nat list"

record mini_heart =
  mh_id :: nat
  mh_x :: real
  mh_y :: real

record 'a universe =
  expandedPhoto :: "'a positioned option"
  currentIndex :: nat
  photosWithPosition :: "'a positioned list"
  miniHearts :: "mini_heart list"
  u_completions :: nat
  u_timers :: "heart_cb timers"

definition universe_init :: "ms \<Rightarrow> 'a universe" where
  "universe_init t0 =
     \<lparr>expandedPhoto = None, currentIndex = 0, photosWithPosition = [], miniHearts = [],
      u_completions = 0, u_timers = timers_init t0\<rparr>"

text \<open>The effect with dependency \<open>[photos]\<close>, run once after the first render.\<close>

definition position_effect :: "'a list \<Rightarrow> 'a universe \<Rightarrow> 'a universe" where
  "position_effect photos s = s\<lparr>photosWithPosition := positionPhotos photos\<rparr>"

definition universe_mount :: "ms \<Rightarrow> 'a list \<Rightarrow> 'a universe" where
  "universe_mount t0 photos = position_effect photos (universe_init t0)"

definition handlePhotoTap :: "'a positioned \<Rightarrow> 'a universe \<Rightarrow> 'a universe" where
  "handlePhotoTap p s = s\<lparr>expandedPhoto := Some p, currentIndex := pid p\<rparr>"

definition handleClose :: "'a universe \<Rightarrow> 'a universe" where
  "handleClose s = s\<lparr>expandedPhoto := None\<rparr>"

datatype direction = SwipeLeft | SwipeRight

text \<open>\<open>n\<close> is \<open>photos.length\<close>. An index past \<open>photosWithPosition\<close> reads
  \<open>undefined\<close>, which closes the expanded view.\<close>

definition handleSwipe :: "nat \<Rightarrow> direction \<Rightarrow> 'a universe \<Rightarrow> 'a universe" where
  "handleSwipe n dir s =
     (let newIndex = (case dir of
                        SwipeRight \<Rightarrow> (currentIndex s + 1) mod n
                      | SwipeLeft \<Rightarrow> (currentIndex s + n - 1) mod n)
      in s\<lparr>currentIndex := newIndex,
           expandedPhoto := (if newIndex < length (photosWithPosition s)
                             then Some (photosWithPosition s ! newIndex) else None)\<rparr>)"

definition heart_spread :: "real \<Rightarrow> real \<Rightarrow> real" where
  "heart_spread c r = c + (r - 0.5) * 50"

text \<open>Ten hearts with ids \<open>Date.now() + i\<close> around the tap point, and a
  timeout that removes, after 1000 ms, the hearts whose id is one of theirs.\<close>

definition new_hearts :: "ms \<Rightarrow> real \<Rightarrow> real \<Rightarrow> (nat \<Rightarrow> real) \<Rightarrow> mini_heart list" where
  "new_hearts now x y rnd =
     map (\<lambda>i. \<lparr>mh_id = now + i, mh_x = heart_spread x (rnd (2 * i)),
               mh_y = heart_spread y (rnd (2 * i + 1))\<rparr>) [0..<10]"

definition handleDoubleTap :: "real \<Rightarrow> real \<Rightarrow> (nat \<Rightarrow> real) \<Rightarrow> 'a universe \<Rightarrow> 'a universe" where
  "handleDoubleTap x y rnd s =
     (let hs = new_hearts (clock (u_timers s)) x y rnd
      in s\<lparr>miniHearts := miniHearts s @ hs,
           u_timers := snd (set_timeout 1000 (RemoveHearts (map mh_id hs)) (u_timers s))\<rparr>)"

primrec universe_fire :: "heart_cb \<Rightarrow> 'a universe \<Rightarrow> 'a universe" where
  "universe_fire (RemoveHearts ids) s =
     s\<lparr>miniHearts := filter (\<lambda>h. mh_id h \<notin> set ids) (miniHearts s)\<rparr>"

function universe_run :: "ms \<Rightarrow> 'a universe \<Rightarrow> 'a universe" where
  "universe_run t s =
     (case pop_due t (u_timers s) of
        None \<Rightarrow> s\<lparr>u_timers := advance_clock t (u_timers s)\<rparr>
      | Some (cb, q) \<Rightarrow> universe_run t (universe_fire cb (s\<lparr>u_timers := q\<rparr>)))"
  by pat_completeness auto
termination
  apply (relation "measure (\<lambda>(t, s). timer_work t (u_timers s))")
   apply auto
  subgoal for t s cb q
    using timer_work_pop_due [of t "u_timers s" cb q] by (cases cb) simp
  done

text \<open>What a tap lands on. While a photo is expanded the full-screen layer
  (z-index 30) covers the orbit and the Continue button (z-index 20), so a tap
  there reaches the layer and closes the view; the close button, the Prev and
  Next buttons and the card exist only in the expanded view, and the card stops
  the propagation of its clicks (a double tap on it is preceded by two such
  clicks, which do nothing).\<close>

datatype universe_event =
    TapPhoto nat | TapBackdrop | TapCloseButton | TapCard | Swipe direction
  | DoubleTapCard real real "nat \<Rightarrow> real" | TapContinue

fun universe_step :: "nat \<Rightarrow> universe_event \<Rightarrow> 'a universe \<Rightarrow> 'a universe" where
  "universe_step n (TapPhoto i) s =
     (if expandedPhoto s \<noteq> None then handleClose s
      else if i < length (photosWithPosition s) then handlePhotoTap (photosWithPosition s ! i) s
      else s)"
| "universe_step n TapBackdrop s = (if expandedPhoto s \<noteq> None then handleClose s else s)"
| "universe_step n TapCloseButton s = (if expandedPhoto s \<noteq> None then handleClose s else s)"
| "universe_step n TapCard s = s"
| "universe_step n (Swipe d) s = (if expandedPhoto s \<noteq> None then handleSwipe n d s else s)"
| "universe_step n (DoubleTapCard x y rnd) s =
     (if expandedPhoto s \<noteq> None then handleDoubleTap x y rnd s else s)"
| "universe_step n TapContinue s =
     (if expandedPhoto s \<noteq> None then handleClose s else s\<lparr>u_completions := Suc (u_completions s)\<rparr>)"

definition universe_at :: "nat \<Rightarrow> ms \<times> universe_event \<Rightarrow> 'a universe \<Rightarrow> 'a universe" where
  "universe_at n te s = universe_step n (snd te) (universe_run (fst te) s)"

definition universe_trace :: "nat \<Rightarrow> (ms \<times> universe_event) list \<Rightarrow> 'a universe \<Rightarrow> 'a universe" where
  "universe_trace n tes s = fold (universe_at n) tes s"

subsection \<open>What the scene renders\<close>

record orbit_item =
  oi_xy :: "real \<times> real"
  oi_delay :: real                          \<comment> \<open>entrance delay \<open>i * 0.2\<close>\<close>
  oi_line :: "(real \<times> real) option"         \<comment> \<open>\<open>x2\<close>, \<open>y2\<close> (in %) of the connecting line\<close>

definition orbit_view :: "'a universe \<Rightarrow> orbit_item list" where
  "orbit_view s =
     (let ps = photosWithPosition s
      in map (\<lambda>(i, p). \<lparr>oi_xy = orbit_xy p, oi_delay = real i * 0.2,
                         oi_line = (if i + 1 < length ps
                                    then Some ((angle (ps ! (i + 1)) - angle p) * 180 / pi, distance p)
                                    else None)\<rparr>)
           (zip [0..<length ps] ps))"

text \<open>The expanded view: the photo it shows, and the mini hearts, which are
  rendered inside it.\<close>

definition expanded_view :: "'a universe \<Rightarrow> ('a \<times> (real \<times> real) list) option" where
  "expanded_view s =
     map_option (\<lambda>p. (photo p, map (\<lambda>h. (mh_x h, mh_y h)) (miniHearts s))) (expandedPhoto s)"

definition continue_reachable :: "'a universe \<Rightarrow> bool" where
  "continue_reachable s \<longleftrightarrow> expandedPhoto s = None"

subsection \<open>The event loop and the invariant of the expanded view\<close>

declare universe_run.simps [simp del]

lemma universe_run_None:
  "pop_due t (u_timers s) = None \<Longrightarrow> universe_run t s = s\<lparr>u_timers := advance_clock t (u_timers s)\<rparr>"
  by (simp add: universe_run.simps)

lemma universe_run_Some:
  "pop_due t (u_timers s) = Some (cb, q) \<Longrightarrow>
   universe_run t s = universe_run t (universe_fire cb (s\<lparr>u_timers := q\<rparr>))"
  by (simp add: universe_run.simps)

text \<open>The timers only remove hearts: every other part of the state is kept by
  the event loop.\<close>

lemma universe_run_keeps:
  assumes "\<And>cb s. f (universe_fire cb s) = f s" and "\<And>s q. f (s\<lparr>u_timers := q\<rparr>) = f s"
  shows "f (universe_run t s) = f s"
proof (induction t s rule: universe_run.induct)
  case (1 t s)
  show ?case
  proof (cases "pop_due t (u_timers s)")
    case None
    then show ?thesis using assms(2) by (simp add: universe_run_None)
  next
    case (Some a)
    obtain cb q where a: "a = (cb, q)" by (cases a)
    with 1 Some have "f (universe_run t (universe_fire cb (s\<lparr>u_timers := q\<rparr>)))
        = f (universe_fire cb (s\<lparr>u_timers := q\<rparr>))" by simp
    with Some a assms show ?thesis by (simp add: universe_run_Some)
  qed
qed

lemma universe_fire_fields [simp]:
  "expandedPhoto (universe_fire cb s) = expandedPhoto s"
  "currentIndex (universe_fire cb s) = currentIndex s"
  "photosWithPosition (universe_fire cb s) = photosWithPosition s"
  "u_completions (universe_fire cb s) = u_completions s"
  by (cases cb; simp)+

lemma universe_run_fields [simp]:
  "expandedPhoto (universe_run t s) = expandedPhoto s"
  "currentIndex (universe_run t s) = currentIndex s"
  "photosWithPosition (universe_run t s) = photosWithPosition s"
  "u_completions (universe_run t s) = u_completions s"
  by (rule universe_run_keeps; simp)+

definition univ_inv :: "'a list \<Rightarrow> 'a universe \<Rightarrow> bool" where
  "univ_inv photos s \<longleftrightarrow> photosWithPosition s = positionPhotos photos \<and>
     (case expandedPhoto s of None \<Rightarrow> True
      | Some p \<Rightarrow> currentIndex s < length photos \<and> p = positionPhotos photos ! currentIndex s)"

lemma length_positionPhotos [simp]: "length (positionPhotos photos) = length photos"
  by (simp add: positionPhotos_def)

lemma pid_positionPhotos: "i < length photos \<Longrightarrow> pid (positionPhotos photos ! i) = i"
  by (simp add: positionPhotos_def)

lemma univ_inv_run: "univ_inv photos s \<Longrightarrow> univ_inv photos (universe_run t s)"
  by (auto simp: univ_inv_def split: option.split)

lemma handleSwipe_index:
  "0 < n \<Longrightarrow> currentIndex (handleSwipe n d s) < n"
  by (cases d) (simp_all add: handleSwipe_def Let_def)

lemma univ_inv_step:
  assumes "univ_inv photos s"
  shows "univ_inv photos (universe_step (length photos) e s)"
proof (cases e)
  case (Swipe d)
  show ?thesis
  proof (cases "expandedPhoto s")
    case (Some p)
    with assms have "0 < length photos" by (auto simp: univ_inv_def)
    from handleSwipe_index [OF this, of d s] assms Some Swipe show ?thesis
      by (auto simp: univ_inv_def handleSwipe_def Let_def)
  qed (use assms Swipe in simp)
qed (use assms in \<open>auto simp: univ_inv_def handleClose_def handlePhotoTap_def handleDoubleTap_def
      Let_def pid_positionPhotos\<close>)

lemma univ_inv_trace:
  "univ_inv photos s \<Longrightarrow> univ_inv photos (universe_trace (length photos) tes s)"
  by (induction tes arbitrary: s)
     (simp_all add: universe_trace_def universe_at_def univ_inv_step univ_inv_run)

subsection \<open>The lifetime of the mini hearts\<close>

text \<open>The ids of the batch of hearts of a double tap at time \<open>t\<close>, the double
  taps whose hearts are still alive at clock \<open>c\<close>, and the state of the hearts
  and of their timeouts after double taps at \<open>ts\<close> at least 10 ms apart.\<close>

definition batch_ids :: "ms \<Rightarrow> nat list" where
  "batch_ids t = [t..<t + 10]"

definition live_taps :: "ms list \<Rightarrow> ms \<Rightarrow> ms list" where
  "live_taps ts c = filter (\<lambda>t. c < t + 1000) ts"

definition hearts_ok :: "ms list \<Rightarrow> 'a universe \<Rightarrow> bool" where
  "hearts_ok ts s \<longleftrightarrow> sorted_wrt (\<lambda>a b. a + 10 \<le> b) ts \<and> list_all (\<lambda>t. t \<le> clock (u_timers s)) ts
     \<and> map mh_id (miniHearts s) = concat (map batch_ids (live_taps ts (clock (u_timers s))))
     \<and> map (\<lambda>e. (timer_due e, timer_period e, timer_cb e)) (pending (u_timers s))
         = map (\<lambda>t. (t + 1000, None, RemoveHearts (batch_ids t))) (live_taps ts (clock (u_timers s)))"

lemma live_taps_later:
  "\<forall>t\<in>set (live_taps ts c). c' < t + 1000 \<Longrightarrow> c \<le> c' \<Longrightarrow> live_taps ts c' = live_taps ts c"
  unfolding live_taps_def by (rule filter_cong) auto

lemma live_taps_next:
  assumes "sorted_wrt (\<lambda>a b. a + 10 \<le> b) ts" and "live_taps ts c = t1 # rest"
  shows "live_taps ts (t1 + 1000) = rest" and "\<forall>t\<in>set rest. t1 + 10 \<le> t" and "c < t1 + 1000"
proof -
  have "sorted_wrt (\<lambda>a b. a + 10 \<le> b) (t1 # rest)"
    using sorted_wrt_filter [OF assms(1)] assms(2) by (metis live_taps_def)
  then show r: "\<forall>t\<in>set rest. t1 + 10 \<le> t" by simp
  have "t1 \<in> set (live_taps ts c)" using assms(2) by simp
  then show c: "c < t1 + 1000" by (simp add: live_taps_def)
  have "live_taps ts (t1 + 1000) = filter (\<lambda>t. t1 < t) (filter (\<lambda>t. c < t + 1000) ts)"
    unfolding live_taps_def filter_filter using c by (intro filter_cong) auto
  also have "\<dots> = filter (\<lambda>t. t1 < t) rest"
    using assms(2) by (simp add: live_taps_def)
  also have "\<dots> = rest" using r by (intro filter_True) auto
  finally show "live_taps ts (t1 + 1000) = rest" .
qed

lemma remove_batch:
  "\<forall>t\<in>set rest. t1 + 10 \<le> t \<Longrightarrow>
   filter (\<lambda>i. i \<notin> set (batch_ids t1)) (batch_ids t1 @ concat (map batch_ids rest))
     = concat (map batch_ids rest)"
  by (fastforce simp: batch_ids_def intro!: filter_True)

lemma hearts_run:
  "hearts_ok ts s \<Longrightarrow>
   hearts_ok ts (universe_run T s) \<and> clock (u_timers (universe_run T s)) = max (clock (u_timers s)) T"
proof (induction T s rule: universe_run.induct)
  case (1 T s)
  let ?c = "clock (u_timers s)"
  have ok: "hearts_ok ts s" by (rule "1.prems")
  have quiet: "hearts_ok ts (universe_run T s) \<and> clock (u_timers (universe_run T s)) = max ?c T"
    if "\<forall>t\<in>set (live_taps ts ?c). T < t + 1000"
  proof -
    have "\<forall>e\<in>set (pending (u_timers s)). T < timer_due e"
    proof
      fix e assume "e \<in> set (pending (u_timers s))"
      then have "(timer_due e, timer_period e, timer_cb e)
          \<in> set (map (\<lambda>t. (t + 1000, None, RemoveHearts (batch_ids t))) (live_taps ts ?c))"
        using ok unfolding hearts_ok_def by (metis (no_types, lifting) image_eqI list.set_map)
      with that show "T < timer_due e" by auto
    qed
    then have "pop_due T (u_timers s) = None" by (simp add: pop_due_None_iff)
    moreover have "live_taps ts (max ?c T) = live_taps ts ?c"
      using that by (intro live_taps_later) (auto simp: live_taps_def)
    ultimately show ?thesis
      using ok by (auto simp: universe_run_None advance_clock_def hearts_ok_def list_all_iff)
  qed
  show ?case
  proof (cases "live_taps ts ?c")
    case Nil
    then show ?thesis using quiet by simp
  next
    case (Cons t1 rest)
    have srt: "sorted_wrt (\<lambda>a b. a + 10 \<le> b) ts" using ok by (simp add: hearts_ok_def)
    note nx = live_taps_next [OF srt Cons]
    show ?thesis
    proof (cases "T < t1 + 1000")
      case True
      have "\<forall>t\<in>set (live_taps ts ?c). T < t + 1000"
        using True Cons nx(2) by fastforce
      then show ?thesis by (rule quiet)
    next
      case False
      obtain e es where p: "pending (u_timers s) = e # es"
        and e: "timer_due e = t1 + 1000" "timer_period e = None" "timer_cb e = RemoveHearts (batch_ids t1)"
        and es: "map (\<lambda>e. (timer_due e, timer_period e, timer_cb e)) es
                 = map (\<lambda>t. (t + 1000, None, RemoveHearts (batch_ids t))) rest"
        using ok Cons unfolding hearts_ok_def by (auto simp: map_eq_Cons_conv)
      have "\<forall>e'\<in>set es. timer_due e \<le> timer_due e'"
      proof
        fix e' assume "e' \<in> set es"
        then have "(timer_due e', timer_period e', timer_cb e')
            \<in> set (map (\<lambda>t. (t + 1000, None, RemoveHearts (batch_ids t))) rest)"
          using es by (metis (no_types, lifting) image_eqI list.set_map)
        with nx(2) e show "timer_due e \<le> timer_due e'" by auto
      qed
      with p e False have pop: "pop_due T (u_timers s)
          = Some (RemoveHearts (batch_ids t1), (u_timers s)\<lparr>clock := t1 + 1000, pending := es\<rparr>)"
        using nx(3) by (simp add: pop_due_head max_def)
      let ?s1 = "universe_fire (RemoveHearts (batch_ids t1))
                   (s\<lparr>u_timers := (u_timers s)\<lparr>clock := t1 + 1000, pending := es\<rparr>\<rparr>)"
      have ids: "map mh_id (miniHearts s) = batch_ids t1 @ concat (map batch_ids rest)"
        using ok Cons by (simp add: hearts_ok_def)
      have "map mh_id (filter (\<lambda>h. mh_id h \<notin> set (batch_ids t1)) (miniHearts s))
          = filter (\<lambda>i. i \<notin> set (batch_ids t1)) (map mh_id (miniHearts s))"
        by (simp add: filter_map comp_def)
      also have "\<dots> = concat (map batch_ids rest)"
        using ids remove_batch [OF nx(2)] by simp
      finally have h: "map mh_id (filter (\<lambda>h. mh_id h \<notin> set (batch_ids t1)) (miniHearts s))
          = concat (map batch_ids rest)" .
      have "hearts_ok ts ?s1"
        using ok nx es h by (auto simp: hearts_ok_def list_all_iff intro: le_trans)
      from "1.IH" [OF pop refl this] have "hearts_ok ts (universe_run T ?s1)
          \<and> clock (u_timers (universe_run T ?s1)) = max (t1 + 1000) T" by simp
      with pop False nx(3) show ?thesis by (simp add: universe_run_Some max_def)
    qed
  qed
qed

lemma new_hearts_ids: "map mh_id (new_hearts now x y rnd) = batch_ids now"
proof -
  have "map mh_id (new_hearts now x y rnd) = map (\<lambda>i. i + now) [0..<10]"
    by (simp add: new_hearts_def add.commute)
  then show ?thesis by (simp add: map_add_upt batch_ids_def add.commute)
qed

lemma hearts_double_tap:
  assumes "hearts_ok ts s" and "expandedPhoto s \<noteq> None"
    and "list_all (\<lambda>t. t + 10 \<le> clock (u_timers s)) ts"
  shows "hearts_ok (ts @ [clock (u_timers s)]) (universe_step n (DoubleTapCard x y rnd) s)
    \<and> clock (u_timers (universe_step n (DoubleTapCard x y rnd) s)) = clock (u_timers s)
    \<and> expandedPhoto (universe_step n (DoubleTapCard x y rnd) s) = expandedPhoto s"
proof -
  let ?c = "clock (u_timers s)"
  have l: "live_taps (ts @ [?c]) ?c = live_taps ts ?c @ [?c]"
    by (simp add: live_taps_def)
  show ?thesis
    using assms
    by (simp add: hearts_ok_def handleDoubleTap_def Let_def set_timeout_def l new_hearts_ids
        sorted_wrt_append list_all_iff)
qed

lemma hearts_trace:
  assumes "hearts_ok ts0 s" and "expandedPhoto s \<noteq> None"
    and "sorted_wrt (\<lambda>a b. a + 10 \<le> b) (ts0 @ ts)" and "list_all (\<lambda>t. clock (u_timers s) \<le> t) ts"
  shows "hearts_ok (ts0 @ ts) (universe_trace n (map (\<lambda>t. (t, DoubleTapCard x y rnd)) ts) s)
    \<and> clock (u_timers (universe_trace n (map (\<lambda>t. (t, DoubleTapCard x y rnd)) ts) s))
        = last (clock (u_timers s) # ts)
    \<and> expandedPhoto (universe_trace n (map (\<lambda>t. (t, DoubleTapCard x y rnd)) ts) s) \<noteq> None"
  using assms
proof (induction ts arbitrary: ts0 s)
  case Nil
  then show ?case by (simp add: universe_trace_def)
next
  case (Cons t ts)
  let ?s1 = "universe_run t s"
  have r: "hearts_ok ts0 ?s1" "clock (u_timers ?s1) = t"
    using hearts_run [OF Cons.prems(1), of t] Cons.prems(4) by (auto simp: max_def)
  have gap: "list_all (\<lambda>t'. t' + 10 \<le> t) ts0"
    using Cons.prems(3) by (simp add: sorted_wrt_append list_all_iff)
  let ?s2 = "universe_step n (DoubleTapCard x y rnd) ?s1"
  have d: "hearts_ok (ts0 @ [t]) ?s2" "clock (u_timers ?s2) = t" "expandedPhoto ?s2 \<noteq> None"
    using hearts_double_tap [OF r(1) _ , of n x y rnd] r(2) gap Cons.prems(2) by auto
  have "list_all (\<lambda>t'. clock (u_timers ?s2) \<le> t') ts"
    using Cons.prems(3) d(2) by (auto simp: sorted_wrt_append list_all_iff)
  from Cons.IH [OF d(1) d(3) _ this] Cons.prems(3) d(2) show ?case
    by (simp add: universe_trace_def universe_at_def)
qed

lemma univ_inv_mount: "univ_inv photos (universe_mount t0 photos)"
  by (simp add: univ_inv_def universe_mount_def universe_init_def position_effect_def)

lemma swipe_right_left:
  assumes "univ_inv photos s" and "expandedPhoto s = Some p"
  shows "universe_step (length photos) (Swipe SwipeLeft)
           (universe_step (length photos) (Swipe SwipeRight) s) = s"
proof -
  let ?n = "length photos" and ?i = "currentIndex s"
  have i: "?i < ?n" and p: "p = positionPhotos photos ! ?i"
    and w: "photosWithPosition s = positionPhotos photos"
    using assms by (simp_all add: univ_inv_def)
  have m: "((?i + 1) mod ?n + ?n - 1) mod ?n = ?i"
  proof (cases "?i + 1 < ?n")
    case True
    then have "(?i + 1) mod ?n + ?n - 1 = ?i + ?n" by simp
    then show ?thesis using i by simp
  next
    case False
    with i have "?i + 1 = ?n" by simp
    then show ?thesis using i by simp
  qed
  have n: "0 < ?n" using i by linarith
  show ?thesis
    using assms(2) i m p w n by (simp add: handleSwipe_def Let_def)
qed

lemma swipe_right_funpow:
  assumes "univ_inv photos s" and "expandedPhoto s = Some p"
  shows "0 < m \<Longrightarrow> (universe_step (length photos) (Swipe SwipeRight) ^^ m) s
    = s\<lparr>currentIndex := (currentIndex s + m) mod length photos,
        expandedPhoto := Some (positionPhotos photos ! ((currentIndex s + m) mod length photos))\<rparr>"
proof (induction m)
  case 0
  then show ?case by simp
next
  case (Suc m)
  have n: "0 < length photos" using assms by (auto simp: univ_inv_def)
  have w: "photosWithPosition s = positionPhotos photos" using assms by (simp add: univ_inv_def)
  show ?case
  proof (cases m)
    case 0
    with assms n w show ?thesis by (simp add: univ_inv_def handleSwipe_def Let_def)
  next
    case (Suc m')
    then have "0 < m" by simp
    with Suc.IH n w show ?thesis by (simp add: handleSwipe_def Let_def mod_Suc_eq)
  qed
qed

lemma length_orbit_view [simp]: "length (orbit_view s) = length (photosWithPosition s)"
  by (simp add: orbit_view_def Let_def)

lemma nth_orbit_view:
  "i < length (photosWithPosition s) \<Longrightarrow> orbit_view s ! i =
     \<lparr>oi_xy = orbit_xy (photosWithPosition s ! i), oi_delay = real i * 0.2,
      oi_line = (if i + 1 < length (photosWithPosition s)
                 then Some ((angle (photosWithPosition s ! (i + 1)) - angle (photosWithPosition s ! i)) * 180 / pi,
                            distance (photosWithPosition s ! i))
                 else None)\<rparr>"
  by (simp add: orbit_view_def Let_def)


subsection \<open>Properties\<close>

text \<open>Claim C31 (invariant). Whatever the timed taps, the photos keep their
  radial positions and the expanded view always shows the photo at
  \<open>currentIndex\<close>, which is a valid index: tapping, closing, swiping and the
  hearts' timeouts never let the two states disagree.\<close>

theorem universe_expanded_consistent:
  "photosWithPosition (universe_trace (length photos) tes (universe_mount t0 photos)) = positionPhotos photos
   \<and> (case expandedPhoto (universe_trace (length photos) tes (universe_mount t0 photos)) of
        None \<Rightarrow> True
      | Some p \<Rightarrow> currentIndex (universe_trace (length photos) tes (universe_mount t0 photos)) < length photos
          \<and> p = positionPhotos photos ! currentIndex (universe_trace (length photos) tes (universe_mount t0 photos)))"
  using univ_inv_trace [OF univ_inv_mount [of photos t0], of tes] by (simp add: univ_inv_def)

text \<open>Claim C32 (functional). In the expanded view, Prev undoes Next, and
  \<open>length photos\<close> taps on Next come back to the same photo: the navigation
  is a cycle over all photos.\<close>

theorem universe_swipe_cycle:
  assumes "univ_inv photos s" and "expandedPhoto s = Some p"
  shows "universe_step (length photos) (Swipe SwipeLeft) (universe_step (length photos) (Swipe SwipeRight) s) = s
    \<and> (universe_step (length photos) (Swipe SwipeRight) ^^ length photos) s = s"
proof -
  have i: "currentIndex s < length photos" and p: "p = positionPhotos photos ! currentIndex s"
    using assms by (simp_all add: univ_inv_def)
  then have n: "0 < length photos" by linarith
  have "(universe_step (length photos) (Swipe SwipeRight) ^^ length photos) s = s"
    using swipe_right_funpow [OF assms n] assms(2) i p by simp
  with swipe_right_left [OF assms] show ?thesis by simp
qed

theorem universe_swipe_cycle_witness:
  "universe_step (length [''a'', ''b'', ''c'']) (Swipe SwipeLeft)
     (universe_step (length [''a'', ''b'', ''c'']) (Swipe SwipeRight)
       (universe_step 3 (TapPhoto 2) (universe_mount 0 [''a'', ''b'', ''c''])))
   = universe_step 3 (TapPhoto 2) (universe_mount 0 [''a'', ''b'', ''c''])"
proof -
  have "univ_inv [''a'', ''b'', ''c''] (universe_step 3 (TapPhoto 2) (universe_mount 0 [''a'', ''b'', ''c'']))"
    and "expandedPhoto (universe_step 3 (TapPhoto 2) (universe_mount 0 [''a'', ''b'', ''c'']))
      = Some (positionPhotos [''a'', ''b'', ''c''] ! 2)"
    by (simp_all add: univ_inv_def universe_mount_def universe_init_def position_effect_def
        handlePhotoTap_def positionPhotos_def)
  from universe_swipe_cycle [OF this] show ?thesis by (rule conjunct1)
qed

text \<open>Opening a photo at \<open>t0\<close> starts the expanded view with no hearts and
  no timers.\<close>

lemma opened_hearts_ok:
  assumes "0 < length photos"
  shows "hearts_ok [] (universe_at (length photos) (t0, TapPhoto 0) (universe_mount t0 photos))
    \<and> expandedPhoto (universe_at (length photos) (t0, TapPhoto 0) (universe_mount t0 photos)) \<noteq> None
    \<and> clock (u_timers (universe_at (length photos) (t0, TapPhoto 0) (universe_mount t0 photos))) = t0"
  using assms
  by (simp add: universe_at_def universe_mount_def universe_init_def position_effect_def
      timers_init_def universe_run_None pop_due_def advance_clock_def handlePhotoTap_def
      hearts_ok_def live_taps_def)

text \<open>Ten consecutive ids from \<open>t1\<close> removed from the ids of two batches less
  than 10 ms apart leave the tail of the second batch.\<close>

lemma remove_overlapping_batch:
  assumes "t1 < t2" and "t2 < t1 + 10"
  shows "filter (\<lambda>i. i \<notin> set (batch_ids t1)) (batch_ids t1 @ batch_ids t2) = [t1 + 10..<t2 + 10]"
proof -
  have e: "t2 + 10 = (t1 + 10) + (t2 - t1)" using assms by simp
  have split: "[t2..<t2 + 10] = [t2..<t1 + 10] @ [t1 + 10..<t2 + 10]"
    unfolding e by (rule upt_add_eq_append) (use assms in simp)
  have "filter (\<lambda>i. i \<notin> set [t1..<t1 + 10]) [t2..<t1 + 10] = []"
    using assms by (auto simp: filter_empty_conv)
  moreover have "filter (\<lambda>i. i \<notin> set [t1..<t1 + 10]) [t1 + 10..<t2 + 10] = [t1 + 10..<t2 + 10]"
    by (auto intro: filter_True)
  ultimately show ?thesis
    by (simp add: batch_ids_def split filter_empty_conv)
qed

text \<open>A second double tap less than 10 ms after a live first one, and the event
  loop run past the first batch's timeout but before the second's.\<close>

lemma hearts_collide:
  assumes "hearts_ok [t1] s" and "clock (u_timers s) = t2"
    and "t1 < t2" and "t2 < t1 + 10" and "t1 + 1000 \<le> T" and "T < t2 + 1000"
  shows "map mh_id (miniHearts (universe_run T (handleDoubleTap x y rnd s))) = [t1 + 10..<t2 + 10]"
proof -
  have lt: "live_taps [t1] t2 = [t1]" using assms(3,4) by (simp add: live_taps_def)
  have ids: "map mh_id (miniHearts s) = batch_ids t1"
    and pm: "map (\<lambda>e. (timer_due e, timer_period e, timer_cb e)) (pending (u_timers s))
        = [(t1 + 1000, None, RemoveHearts (batch_ids t1))]"
    using assms(1,2) lt by (simp_all add: hearts_ok_def)
  obtain h where p: "pending (u_timers s) = [Timer h (t1 + 1000) None (RemoveHearts (batch_ids t1))]"
    using pm by (rule map_timer_single)
  let ?e2 = "Timer (next_handle (u_timers s)) (t2 + 1000) None (RemoveHearts (batch_ids t2))"
  let ?s4 = "handleDoubleTap x y rnd s"
  have s4: "pending (u_timers ?s4) = [Timer h (t1 + 1000) None (RemoveHearts (batch_ids t1)), ?e2]"
    "map mh_id (miniHearts ?s4) = batch_ids t1 @ batch_ids t2"
    using p ids assms(2) by (simp_all add: handleDoubleTap_def Let_def set_timeout_def new_hearts_ids)
  have pop: "pop_due T (u_timers ?s4) = Some (RemoveHearts (batch_ids t1),
      (u_timers ?s4)\<lparr>clock := max (clock (u_timers ?s4)) (t1 + 1000), pending := [?e2]\<rparr>)"
    using pop_due_head [OF s4(1)] assms(3,5) by simp
  let ?s5 = "universe_fire (RemoveHearts (batch_ids t1))
      (?s4\<lparr>u_timers := (u_timers ?s4)\<lparr>clock := max (clock (u_timers ?s4)) (t1 + 1000), pending := [?e2]\<rparr>\<rparr>)"
  have "pop_due T (u_timers ?s5) = None"
    using assms(6) by (simp add: pop_due_single)
  then have "universe_run T ?s4 = ?s5\<lparr>u_timers := advance_clock T (u_timers ?s5)\<rparr>"
    using pop by (simp add: universe_run_Some universe_run_None)
  moreover have "map mh_id (miniHearts ?s5) = [t1 + 10..<t2 + 10]"
  proof -
    have "map mh_id (miniHearts ?s5) = filter (\<lambda>i. i \<notin> set (batch_ids t1)) (map mh_id (miniHearts ?s4))"
      by (simp add: filter_map comp_def)
    then show ?thesis using s4(2) remove_overlapping_batch [OF assms(3,4)] by simp
  qed
  ultimately show ?thesis by simp
qed

text \<open>Claim C33 (functional, timed). After a photo is opened at \<open>t0\<close>, double
  taps at times \<open>ts\<close> at least 10 ms apart each add ten hearts, with ids
  \<open>t .. t + 9\<close>, and each batch is removed exactly 1000 ms after its tap: at
  any time \<open>T\<close> the hearts are those of the double taps of the last second.\<close>

theorem mini_hearts_lifetime:
  assumes "0 < length photos" and "sorted_wrt (\<lambda>a b. a + 10 \<le> b) ts"
    and "list_all (\<lambda>t. t0 \<le> t \<and> t \<le> T) ts" and "t0 \<le> T"
  shows "map mh_id (miniHearts (universe_run T (universe_trace (length photos)
            ((t0, TapPhoto 0) # map (\<lambda>t. (t, DoubleTapCard x y rnd)) ts) (universe_mount t0 photos))))
         = concat (map batch_ids (filter (\<lambda>t. T < t + 1000) ts))"
proof -
  let ?s1 = "universe_at (length photos) (t0, TapPhoto 0) (universe_mount t0 photos)"
  have s1: "hearts_ok [] ?s1" "expandedPhoto ?s1 \<noteq> None" "clock (u_timers ?s1) = t0"
    using opened_hearts_ok [OF assms(1), of t0] by simp_all
  have tr: "universe_trace (length photos) ((t0, TapPhoto 0) # map (\<lambda>t. (t, DoubleTapCard x y rnd)) ts)
      (universe_mount t0 photos) = universe_trace (length photos) (map (\<lambda>t. (t, DoubleTapCard x y rnd)) ts) ?s1"
    by (simp add: universe_trace_def)
  have "list_all (\<lambda>t. clock (u_timers ?s1) \<le> t) ts" using assms(3) s1(3) by (simp add: list_all_iff)
  from hearts_trace [OF s1(1,2) _ this, of "length photos" x y rnd] assms(2)
  have h: "hearts_ok ts (universe_trace (length photos) (map (\<lambda>t. (t, DoubleTapCard x y rnd)) ts) ?s1)"
    and c: "clock (u_timers (universe_trace (length photos) (map (\<lambda>t. (t, DoubleTapCard x y rnd)) ts) ?s1))
      = last (t0 # ts)"
    using s1(3) by auto
  have "last (t0 # ts) \<le> T"
    using assms(3,4) by (cases ts rule: rev_cases) (auto simp: list_all_iff)
  with hearts_run [OF h, of T] c show ?thesis
    by (simp add: tr hearts_ok_def live_taps_def max_def)
qed

theorem mini_hearts_lifetime_witness:
  "map mh_id (miniHearts (universe_run 1500 (universe_trace (length [''a''])
      ((0, TapPhoto 0) # map (\<lambda>t. (t, DoubleTapCard 10 20 (\<lambda>_. 0.3))) [100, 600, 1200])
      (universe_mount 0 [''a''])))) = [600..<610] @ [1200..<1210]"
  using mini_hearts_lifetime [of "[''a'']" "[100, 600, 1200]" 0 1500 10 20 "\<lambda>_. 0.3"]
  by (simp add: batch_ids_def upt_rec)

text \<open>Claim C34 (functional). The ids \<open>Date.now() + i\<close> of two double taps less
  than 10 ms apart overlap, and the first batch's timeout also removes the
  second batch's hearts with a shared id: for double taps at \<open>t1 < t2 < t1 + 10\<close>,
  between the first timeout (\<open>t1 + 1000\<close>) and the second (\<open>t2 + 1000\<close>) only
  the \<open>t2 - t1\<close> hearts with ids \<open>t1 + 10 .. t2 + 9\<close> remain, where the second
  batch should still show all ten.\<close>

theorem mini_hearts_id_collision:
  assumes "0 < length photos" and "t0 \<le> t1" and "t1 < t2" and "t2 < t1 + 10"
    and "t1 + 1000 \<le> T" and "T < t2 + 1000"
  shows "map mh_id (miniHearts (universe_run T (universe_trace (length photos)
      [(t0, TapPhoto 0), (t1, DoubleTapCard x y rnd), (t2, DoubleTapCard x' y' rnd')] (universe_mount t0 photos))))
    = [t1 + 10..<t2 + 10]"
proof -
  let ?s1 = "universe_at (length photos) (t0, TapPhoto 0) (universe_mount t0 photos)"
  have s1: "hearts_ok [] ?s1" "expandedPhoto ?s1 \<noteq> None" "clock (u_timers ?s1) = t0"
    using opened_hearts_ok [OF assms(1), of t0] by simp_all
  let ?s2 = "universe_trace (length photos) [(t1, DoubleTapCard x y rnd)] ?s1"
  have s2: "hearts_ok [t1] ?s2" "clock (u_timers ?s2) = t1" "expandedPhoto ?s2 \<noteq> None"
    using hearts_trace [OF s1(1,2), of "[t1]" "length photos" x y rnd] s1(3) assms(2) by simp_all
  let ?s3 = "universe_run t2 ?s2"
  have s3: "hearts_ok [t1] ?s3" "clock (u_timers ?s3) = t2" "expandedPhoto ?s3 \<noteq> None"
    using hearts_run [OF s2(1), of t2] s2(2,3) assms(3) by (simp_all add: max_def)
  have "universe_trace (length photos)
      [(t0, TapPhoto 0), (t1, DoubleTapCard x y rnd), (t2, DoubleTapCard x' y' rnd')] (universe_mount t0 photos)
    = handleDoubleTap x' y' rnd' ?s3"
    using s3(3) by (simp add: universe_trace_def universe_at_def)
  with hearts_collide [OF s3(1,2) assms(3-6)] show ?thesis by simp
qed


theorem mini_hearts_id_collision_witness:
  "map mh_id (miniHearts (universe_run 1100 (universe_trace (length [''a''])
      [(0, TapPhoto 0), (100, DoubleTapCard 0 0 (\<lambda>_. 0)), (105, DoubleTapCard 0 0 (\<lambda>_. 0))]
      (universe_mount 0 [''a''])))) = [110..<115]"
  using mini_hearts_id_collision [of "[''a'']" 0 100 105 1100 0 0 "\<lambda>_. 0" 0 0 "\<lambda>_. 0"] by simp


text \<open>Claim C36 (functional). The "light particles connecting photos" are not
  drawn between photos: every photo but the last gets a line from its own
  centre to the same point \<open>(360 / n %, 150 %)\<close> of its own box, whatever its
  neighbours' positions; the photos enter 0.2 s apart.\<close>

theorem orbit_lines_constant:
  "map oi_line (orbit_view (universe_mount t0 photos))
     = map (\<lambda>i. if i + 1 < length photos then Some (360 / real (length photos), 150) else None)
         [0..<length photos]
   \<and> map oi_delay (orbit_view (universe_mount t0 photos)) = map (\<lambda>i. real i * 0.2) [0..<length photos]"
proof -
  have a: "(radial_angle n (Suc i) * 180 - radial_angle n i * 180) / pi = 360 / real n" for n i
    by (cases "n = 0") (simp_all add: radial_angle_def field_simps)
  have w: "photosWithPosition (universe_mount t0 photos) = positionPhotos photos"
    by (simp add: universe_mount_def position_effect_def)
  show ?thesis
    by (intro conjI nth_equalityI) (simp_all add: w nth_orbit_view nth_positionPhotos a)
qed

end
