(* ===== verification/Intro.thy ===== *)
theory Intro
  imports Timers Complex_Main
begin

text \<open>
  The intro of \<open>src/src/app/components/Scene1Intro.tsx\<close>: the states
  \<open>showButton\<close> and \<open>gyroPermission\<close>, the motion values \<open>rotateX\<close> and
  \<open>rotateY\<close>, the mount effect (the permission request of iOS, or a grant
  where the API has no request, and the 5000 ms timeout that shows the
  button), the effect that listens to \<open>deviceorientation\<close> while permission is
  granted, the orientation handler and the button that calls
  \<open>onComplete\<close>. The title is rendered one code point at a time
  (\<open>Array.from\<close>), with a delay that grows by 0.05 s per character.
\<close>

datatype intro_cb = ShowButton

text \<open>Whether \<open>DeviceOrientationEvent.requestPermission\<close> is a function (iOS)
  or not.\<close>

datatype platform = RequiresPermission | NoPermissionApi

record intro =
  showButton :: bool
  gyroPermission :: bool
  rotateX :: real
  rotateY :: real
  intro_mounted :: bool
  intro_handle :: timer_handle
  intro_completions :: nat
  intro_timers :: "intro_cb timers"

definition button_delay :: ms where
  "button_delay = 5000"

text \<open>The first render and the mount effects: permission is granted at once
  where there is nothing to request; the timeout is started in both cases.\<close>

definition intro_mount :: "platform \<Rightarrow> ms \<Rightarrow> intro" where
  "intro_mount p t0 =
     (let (h, q) = set_timeout button_delay ShowButton (timers_init t0)
      in \<lparr>showButton = False, gyroPermission = (p = NoPermissionApi), rotateX = 0, rotateY = 0,
          intro_mounted = True, intro_handle = h, intro_completions = 0, intro_timers = q\<rparr>)"

definition intro_unmount :: "intro \<Rightarrow> intro" where
  "intro_unmount s =
     s\<lparr>intro_mounted := False, intro_timers := clear_timer (intro_handle s) (intro_timers s)\<rparr>"

primrec intro_fire :: "intro_cb \<Rightarrow> intro \<Rightarrow> intro" where
  "intro_fire ShowButton s = s\<lparr>showButton := True\<rparr>"

function intro_run :: "ms \<Rightarrow> intro \<Rightarrow> intro" where
  "intro_run t s =
     (case pop_due t (intro_timers s) of
        None \<Rightarrow> s\<lparr>intro_timers := advance_clock t (intro_timers s)\<rparr>
      | Some (cb, q) \<Rightarrow> intro_run t (intro_fire cb (s\<lparr>intro_timers := q\<rparr>)))"
  by pat_completeness auto
termination
  apply (relation "measure (\<lambda>(t, s). timer_work t (intro_timers s))")
   apply auto
  subgoal for t s cb q
    using timer_work_pop_due [of t "intro_timers s" cb q] by (cases cb) simp
  done

text \<open>The inputs of the scene: the answer of the permission prompt (\<open>None\<close>
  when the promise rejects), a \<open>deviceorientation\<close> event with its
  \<open>beta\<close> and \<open>gamma\<close> (\<open>None\<close> for \<open>null\<close>), and a tap on the button.\<close>

datatype intro_event = PermissionResponse "string option" | Orientation "real option" "real option" | TapBegin

fun intro_step :: "intro_event \<Rightarrow> intro \<Rightarrow> intro" where
  "intro_step (PermissionResponse r) s =
     (if r = Some ''granted'' then s\<lparr>gyroPermission := True\<rparr> else s)"
| "intro_step (Orientation b g) s =
     (if intro_mounted s \<and> gyroPermission s
      then (case (b, g) of
              (Some beta, Some gamma) \<Rightarrow> s\<lparr>rotateX := beta * 0.1, rotateY := gamma * 0.1\<rparr>
            | _ \<Rightarrow> s)
      else s)"
| "intro_step TapBegin s =
     (if intro_mounted s \<and> showButton s then s\<lparr>intro_completions := Suc (intro_completions s)\<rparr> else s)"

definition intro_at :: "ms \<times> intro_event \<Rightarrow> intro \<Rightarrow> intro" where
  "intro_at te s = intro_step (snd te) (intro_run (fst te) s)"

definition intro_trace :: "(ms \<times> intro_event) list \<Rightarrow> intro \<Rightarrow> intro" where
  "intro_trace tes s = fold intro_at tes s"

text \<open>The inputs on the error paths of the scene: the rejection of the permission
  promise, which \<open>.catch(console.error)\<close> only logs, and an orientation
  reading with a \<open>null\<close> angle, which the handler's guard
  \<open>event.beta !== null && event.gamma !== null\<close> skips.\<close>

fun intro_error :: "intro_event \<Rightarrow> bool" where
  "intro_error (PermissionResponse r) = (r = None)"
| "intro_error (Orientation b g) = (b = None \<or> g = None)"
| "intro_error TapBegin = False"

subsection \<open>The animated title\<close>

text \<open>\<open>Array.from("Happy 1st Wedding Anniversary \<dots>")\<close>: 30 ASCII characters and the
  two code points U+2764 U+FE0F of the red heart; a space is rendered as a
  no-break space. Each span: its code point and its entrance delay.\<close>

definition intro_title :: "nat list" where
  "intro_title = map of_char ''Happy 1st Wedding Anniversary '' @ [0x2764, 0xFE0F]"

definition title_spans :: "(nat \<times> real) list" where
  "title_spans =
     map (\<lambda>(i, c). (if c = 32 then 0xA0 else c, 1.5 + real i * 0.05)) (zip [0..<length intro_title] intro_title)"

definition span_duration :: real where
  "span_duration = 0.4"

definition subtitle_end :: real where
  "subtitle_end = 3 + 1"

subsection \<open>The button timeout\<close>

declare intro_run.simps [simp del]

lemma intro_run_None:
  "pop_due t (intro_timers s) = None \<Longrightarrow> intro_run t s = s\<lparr>intro_timers := advance_clock t (intro_timers s)\<rparr>"
  by (simp add: intro_run.simps)

lemma intro_run_Some:
  "pop_due t (intro_timers s) = Some (cb, q) \<Longrightarrow>
   intro_run t s = intro_run t (intro_fire cb (s\<lparr>intro_timers := q\<rparr>))"
  by (simp add: intro_run.simps)

text \<open>After mounting at \<open>t0\<close>: the button is shown exactly from \<open>t0 + 5000\<close>,
  and until then its timeout is the only active timer.\<close>

definition intro_ok :: "ms \<Rightarrow> intro \<Rightarrow> bool" where
  "intro_ok t0 s \<longleftrightarrow> intro_mounted s \<and>
     showButton s = (t0 + button_delay \<le> clock (intro_timers s)) \<and>
     map (\<lambda>e. (timer_due e, timer_period e, timer_cb e)) (pending (intro_timers s))
       = (if t0 + button_delay \<le> clock (intro_timers s) then [] else [(t0 + button_delay, None, ShowButton)])"

lemma intro_mount_fields [simp]:
  "showButton (intro_mount p t0) = False" "gyroPermission (intro_mount p t0) = (p = NoPermissionApi)"
  "rotateX (intro_mount p t0) = 0" "rotateY (intro_mount p t0) = 0" "intro_mounted (intro_mount p t0)"
  "intro_completions (intro_mount p t0) = 0" "clock (intro_timers (intro_mount p t0)) = t0"
  by (simp_all add: intro_mount_def set_timeout_def timers_init_def)

lemma intro_ok_mount: "intro_ok t0 (intro_mount p t0) \<and> clock (intro_timers (intro_mount p t0)) = t0"
  by (simp add: intro_ok_def intro_mount_def set_timeout_def timers_init_def button_delay_def)

lemma intro_ok_run:
  assumes "intro_ok t0 s"
  shows "intro_ok t0 (intro_run T s) \<and> clock (intro_timers (intro_run T s)) = max (clock (intro_timers s)) T
    \<and> intro_completions (intro_run T s) = intro_completions s
    \<and> gyroPermission (intro_run T s) = gyroPermission s
    \<and> rotateX (intro_run T s) = rotateX s \<and> rotateY (intro_run T s) = rotateY s"
proof -
  let ?d = "t0 + button_delay" and ?q = "intro_timers s"
  have p: "pop_due T ?q = (if clock ?q < ?d \<and> ?d \<le> T then Some (ShowButton, ?q\<lparr>clock := ?d, pending := []\<rparr>) else None)"
    using assms by (intro pop_due_one_shot) (simp add: intro_ok_def)
  show ?thesis
  proof (cases "clock ?q < ?d \<and> ?d \<le> T")
    case True
    let ?s1 = "s\<lparr>intro_timers := ?q\<lparr>clock := ?d, pending := []\<rparr>, showButton := True\<rparr>"
    have "intro_run T s = intro_run T ?s1" using p True by (simp add: intro_run_Some)
    also have "\<dots> = ?s1\<lparr>intro_timers := advance_clock T (intro_timers ?s1)\<rparr>"
      by (simp add: intro_run_None pop_due_def)
    finally show ?thesis using True assms by (simp add: intro_ok_def advance_clock_def max_def)
  next
    case False
    then have "pop_due T ?q = None" using p by simp
    then show ?thesis using False assms by (auto simp: intro_run_None intro_ok_def advance_clock_def max_def)
  qed
qed

lemma intro_run_closed:
  assumes "intro_ok t0 s"
  shows "intro_run T s =
    (if clock (intro_timers s) < t0 + button_delay \<and> t0 + button_delay \<le> T
     then s\<lparr>intro_timers := (intro_timers s)\<lparr>clock := max (t0 + button_delay) T, pending := []\<rparr>,
            showButton := True\<rparr>
     else s\<lparr>intro_timers := advance_clock T (intro_timers s)\<rparr>)"
proof -
  let ?d = "t0 + button_delay" and ?q = "intro_timers s"
  have p: "pop_due T ?q = (if clock ?q < ?d \<and> ?d \<le> T then Some (ShowButton, ?q\<lparr>clock := ?d, pending := []\<rparr>) else None)"
    using assms by (intro pop_due_one_shot) (simp add: intro_ok_def)
  show ?thesis
  proof (cases "clock ?q < ?d \<and> ?d \<le> T")
    case True
    then have "intro_run T s = intro_run T (s\<lparr>intro_timers := ?q\<lparr>clock := ?d, pending := []\<rparr>, showButton := True\<rparr>)"
      using p by (simp add: intro_run_Some)
    with True show ?thesis by (simp add: intro_run_None pop_due_def advance_clock_def)
  next
    case False
    with p have "pop_due T ?q = None" by simp
    then show ?thesis by (subst if_not_P [OF False]) (simp add: intro_run_None)
  qed
qed

text \<open>Running the timers to \<open>t\<close> and then to a later \<open>T\<close> is running them to \<open>T\<close>.\<close>

lemma intro_run_run:
  assumes "intro_ok t0 s" and "t \<le> T"
  shows "intro_run T (intro_run t s) = intro_run T s"
proof -
  have ok: "intro_ok t0 (intro_run t s)" and c: "clock (intro_timers (intro_run t s)) = max (clock (intro_timers s)) t"
    using intro_ok_run [OF assms(1)] by blast+
  show ?thesis
    unfolding intro_run_closed [OF ok, of T] intro_run_closed [OF assms(1), of T] c
    using assms(2) by (simp add: intro_run_closed [OF assms(1), of t] advance_clock_def max_def)
qed

lemma intro_step_error: "intro_error e \<Longrightarrow> intro_step e s = s"
  by (cases e) (auto split: option.split)

text \<open>Events after time \<open>t\<close> see the same state whether or not the timers have
  been run to \<open>t\<close> first.\<close>

lemma intro_trace_run_absorb:
  assumes "intro_ok t0 s" and "list_all (\<lambda>te. t \<le> fst te) tes" and "t \<le> T"
  shows "intro_run T (intro_trace tes (intro_run t s)) = intro_run T (intro_trace tes s)"
proof (cases tes)
  case Nil
  with assms show ?thesis by (simp add: intro_trace_def intro_run_run)
next
  case (Cons te tes')
  with assms(2) have "intro_at te (intro_run t s) = intro_at te s"
    by (simp add: intro_at_def intro_run_run [OF assms(1)])
  with Cons show ?thesis by (simp add: intro_trace_def)
qed

lemma intro_step_fields [simp]:
  "intro_timers (intro_step e s) = intro_timers s"
  "intro_mounted (intro_step e s) = intro_mounted s"
  "showButton (intro_step e s) = showButton s"
  by (cases e; simp split: option.split)+

lemma intro_step_completions:
  "intro_completions (intro_step e s)
     = intro_completions s + (if e = TapBegin \<and> intro_mounted s \<and> showButton s then 1 else 0)"
  by (cases e) (auto split: option.split)

lemma intro_ok_step: "intro_ok t0 s \<Longrightarrow> intro_ok t0 (intro_step e s)"
  by (simp add: intro_ok_def)

lemma intro_ok_at:
  assumes "intro_ok t0 s"
  shows "intro_ok t0 (intro_at te s) \<and> clock (intro_timers (intro_at te s)) = max (clock (intro_timers s)) (fst te)
    \<and> (gyroPermission s \<longrightarrow> gyroPermission (intro_at te s))"
proof -
  obtain t e where te: "te = (t, e)" by (cases te)
  have "gyroPermission s \<Longrightarrow> gyroPermission (intro_step e (intro_run t s))"
    using intro_ok_run [OF assms, of t] by (cases e) (auto split: option.split)
  with intro_ok_run [OF assms, of t] show ?thesis
    by (simp add: intro_at_def te intro_ok_step)
qed

lemma intro_ok_trace:
  "intro_ok t0 s \<Longrightarrow> intro_ok t0 (intro_trace tes s) \<and> (gyroPermission s \<longrightarrow> gyroPermission (intro_trace tes s))"
proof (induction tes arbitrary: s)
  case (Cons te tes)
  from intro_ok_at [OF Cons.prems, of te] Cons.IH [of "intro_at te s"] show ?case
    by (simp add: intro_trace_def)
qed (simp add: intro_trace_def)

lemma intro_trace_errors:
  assumes "intro_ok t0 s" and "sorted (map fst tes)" and "list_all (\<lambda>te. fst te \<le> T) tes"
  shows "intro_run T (intro_trace tes s) = intro_run T (intro_trace (filter (\<lambda>te. \<not> intro_error (snd te)) tes) s)"
  using assms
proof (induction tes arbitrary: s)
  case (Cons te tes)
  obtain t e where te: "te = (t, e)" by (cases te)
  have later: "list_all (\<lambda>x. t \<le> fst x) tes" "t \<le> T"
    using Cons.prems(2,3) by (simp_all add: te list_all_iff)
  have ok: "intro_ok t0 (intro_run t s)" "intro_ok t0 (intro_at te s)"
    using intro_ok_run [OF Cons.prems(1)] intro_ok_at [OF Cons.prems(1)] by blast+
  have IH: "intro_run T (intro_trace tes s') = intro_run T (intro_trace (filter (\<lambda>te. \<not> intro_error (snd te)) tes) s')"
    if "intro_ok t0 s'" for s'
    using Cons.IH [OF that] Cons.prems(2,3) by simp
  show ?case
  proof (cases "intro_error e")
    case True
    have "intro_run T (intro_trace (te # tes) s) = intro_run T (intro_trace tes (intro_run t s))"
      by (simp add: intro_trace_def intro_at_def te intro_step_error [OF True])
    also have "\<dots> = intro_run T (intro_trace (filter (\<lambda>te. \<not> intro_error (snd te)) tes) (intro_run t s))"
      by (rule IH [OF ok(1)])
    also have "\<dots> = intro_run T (intro_trace (filter (\<lambda>te. \<not> intro_error (snd te)) tes) s)"
      using later by (intro intro_trace_run_absorb [OF Cons.prems(1)]) (simp_all add: list_all_iff)
    finally show ?thesis using True by (simp add: te)
  next
    case False
    with IH [OF ok(2)] show ?thesis by (simp add: te intro_trace_def)
  qed
qed (simp add: intro_trace_def)

lemma intro_taps_trace:
  assumes "intro_ok t0 s" and "sorted (map fst tes)" and "list_all (\<lambda>te. clock (intro_timers s) \<le> fst te) tes"
  shows "clock (intro_timers (intro_trace tes s)) = last (clock (intro_timers s) # map fst tes)
    \<and> intro_completions (intro_trace tes s)
        = intro_completions s + length (filter (\<lambda>te. snd te = TapBegin \<and> t0 + button_delay \<le> fst te) tes)"
  using assms
proof (induction tes arbitrary: s)
  case (Cons te tes)
  obtain t e where te: "te = (t, e)" by (cases te)
  let ?s1 = "intro_run t s"
  have r: "intro_ok t0 ?s1" "clock (intro_timers ?s1) = t" "intro_completions ?s1 = intro_completions s"
    using intro_ok_run [OF Cons.prems(1), of t] Cons.prems(3) te by (auto simp: max_def)
  have sb: "showButton ?s1 = (t0 + button_delay \<le> t)" "intro_mounted ?s1"
    using r by (simp_all add: intro_ok_def)
  let ?s2 = "intro_step e ?s1"
  have ok2: "intro_ok t0 ?s2" using r(1) by (rule intro_ok_step)
  have "list_all (\<lambda>te. clock (intro_timers ?s2) \<le> fst te) tes"
    using Cons.prems(2) r(2) te by (simp add: list_all_iff)
  with Cons.IH [OF ok2] Cons.prems(2) r sb te show ?case
    by (simp add: intro_trace_def intro_at_def intro_step_completions)
qed (simp add: intro_trace_def)

lemma intro_no_grant_trace:
  assumes "intro_ok t0 s" and "\<not> gyroPermission s" and "rotateX s = 0" and "rotateY s = 0"
    and "list_all (\<lambda>te. snd te \<noteq> PermissionResponse (Some ''granted'')) tes"
  shows "\<not> gyroPermission (intro_trace tes s) \<and> rotateX (intro_trace tes s) = 0 \<and> rotateY (intro_trace tes s) = 0"
  using assms
proof (induction tes arbitrary: s)
  case (Cons te tes)
  obtain t e where te: "te = (t, e)" by (cases te)
  have r: "intro_ok t0 (intro_run t s)" "\<not> gyroPermission (intro_run t s)"
    "rotateX (intro_run t s) = 0" "rotateY (intro_run t s) = 0"
    using intro_ok_run [OF Cons.prems(1), of t] Cons.prems(2-4) by auto
  have "e \<noteq> PermissionResponse (Some ''granted'')" using Cons.prems(5) te by simp
  with r have s2: "\<not> gyroPermission (intro_at te s)" "rotateX (intro_at te s) = 0" "rotateY (intro_at te s) = 0"
    by (cases e; simp add: intro_at_def te)+
  have "intro_ok t0 (intro_at te s)" using intro_ok_at [OF Cons.prems(1)] by blast
  from Cons.IH [OF this s2] Cons.prems(5) show ?case by (simp add: intro_trace_def)
qed (simp add: intro_trace_def)

lemma title_before_button:
  "length title_spans = 32
   \<and> list_all (\<lambda>(c, d). d + span_duration \<le> subtitle_end) title_spans
   \<and> subtitle_end * 1000 < real button_delay"
proof -
  have l: "length intro_title = 32" by (simp add: intro_title_def)
  have "d + span_duration \<le> subtitle_end" if "(c, d) \<in> set title_spans" for c d
  proof -
    from that obtain i where "i < 32" and "d = 1.5 + real i * 0.05"
      by (auto simp: title_spans_def l set_zip)
    then show ?thesis by (simp add: span_duration_def subtitle_end_def)
  qed
  then have "list_all (\<lambda>(c, d). d + span_duration \<le> subtitle_end) title_spans"
    by (auto simp: list_all_iff)
  moreover have "length title_spans = 32" by (simp add: title_spans_def l)
  moreover have "subtitle_end * 1000 < real button_delay" by (simp add: subtitle_end_def button_delay_def)
  ultimately show ?thesis by simp
qed

subsection \<open>Properties\<close>

text \<open>Claim C37 (functional, timed). Mounted at \<open>t0\<close>, on either platform and
  whatever permission answers, orientation events and taps arrive (in time
  order), the button is shown at \<open>T\<close> exactly when 5000 ms have passed, and
  \<open>onComplete\<close> is called once for every tap on the button from
  \<open>t0 + 5000\<close> on and never before.\<close>

theorem intro_button_at_5s:
  assumes "sorted (map fst tes)" and "list_all (\<lambda>te. t0 \<le> fst te \<and> fst te \<le> T) tes" and "t0 \<le> T"
  shows "showButton (intro_run T (intro_trace tes (intro_mount p t0))) = (t0 + 5000 \<le> T)
    \<and> intro_completions (intro_trace tes (intro_mount p t0))
        = length (filter (\<lambda>te. snd te = TapBegin \<and> t0 + 5000 \<le> fst te) tes)"
proof -
  have m: "intro_ok t0 (intro_mount p t0)" "clock (intro_timers (intro_mount p t0)) = t0"
    "intro_completions (intro_mount p t0) = 0"
    using intro_ok_mount by simp_all
  have l: "list_all (\<lambda>te. clock (intro_timers (intro_mount p t0)) \<le> fst te) tes"
    using assms(2) m(2) by (simp add: list_all_iff)
  note tr = intro_taps_trace [OF m(1) assms(1) l]
  have ok: "intro_ok t0 (intro_trace tes (intro_mount p t0))" using intro_ok_trace [OF m(1)] by blast
  have "last (t0 # map fst tes) \<le> T"
    using assms(2,3) by (cases tes rule: rev_cases) (auto simp: list_all_iff)
  with intro_ok_run [OF ok, of T] tr m show ?thesis
    by (simp add: intro_ok_def button_delay_def max_def)
qed

text \<open>Claim C19 (error behaviour). The error paths of the intro are harmless:
  whatever the platform and the timed inputs (in time order, none after
  \<open>T\<close>), a rejected permission request and orientation readings with a
  \<open>null\<close> angle leave no trace; at \<open>T\<close> the scene is in the state it would
  be in had they never arrived.\<close>

theorem intro_errors_ignored:
  assumes "sorted (map fst tes)" and "list_all (\<lambda>te. fst te \<le> T) tes"
  shows "intro_run T (intro_trace tes (intro_mount p t0))
    = intro_run T (intro_trace (filter (\<lambda>te. \<not> intro_error (snd te)) tes) (intro_mount p t0))"
  using intro_trace_errors [OF conjunct1 [OF intro_ok_mount] assms] .

theorem intro_errors_ignored_witness:
  "intro_run 9000 (intro_trace [(100, PermissionResponse None), (2000, Orientation None (Some 3)), (6000, TapBegin)]
      (intro_mount RequiresPermission 0))
   = intro_run 9000 (intro_trace [(6000, TapBegin)] (intro_mount RequiresPermission 0))"
  using intro_errors_ignored [of "[(100, PermissionResponse None), (2000, Orientation None (Some 3)), (6000, TapBegin)]" 9000
      RequiresPermission 0]
  by simp

theorem intro_button_at_5s_witness:
  "showButton (intro_run 6000 (intro_trace [(1000, TapBegin), (5500, TapBegin)] (intro_mount RequiresPermission 0)))
   \<and> intro_completions (intro_trace [(1000, TapBegin), (5500, TapBegin)] (intro_mount RequiresPermission 0)) = 1"
  using intro_button_at_5s [of "[(1000, TapBegin), (5500, TapBegin)]" 0 6000 RequiresPermission] by simp

text \<open>Claim C38 (functional, degradation). Where permission must be requested
  and is never granted (denied, or the prompt fails), the photo never tilts,
  whatever orientation events arrive; where no request is needed, the tilt is
  a tenth of the last complete reading (\<open>beta\<close>, \<open>gamma\<close>).\<close>

theorem intro_tilt_degrades:
  assumes "list_all (\<lambda>te. snd te \<noteq> PermissionResponse (Some ''granted'')) tes"
  shows "rotateX (intro_trace tes (intro_mount RequiresPermission t0)) = 0
    \<and> rotateY (intro_trace tes (intro_mount RequiresPermission t0)) = 0
    \<and> rotateX (intro_trace (tes' @ [(t, Orientation (Some b) (Some g))]) (intro_mount NoPermissionApi t0)) = b * 0.1
    \<and> rotateY (intro_trace (tes' @ [(t, Orientation (Some b) (Some g))]) (intro_mount NoPermissionApi t0)) = g * 0.1"
proof -
  have m: "intro_ok t0 (intro_mount p t0)" for p using intro_ok_mount by blast
  have "\<not> gyroPermission (intro_trace tes (intro_mount RequiresPermission t0))
      \<and> rotateX (intro_trace tes (intro_mount RequiresPermission t0)) = 0
      \<and> rotateY (intro_trace tes (intro_mount RequiresPermission t0)) = 0"
    by (rule intro_no_grant_trace [OF m]) (simp_all add: assms)
  moreover have "intro_ok t0 (intro_trace tes' (intro_mount NoPermissionApi t0))
      \<and> gyroPermission (intro_trace tes' (intro_mount NoPermissionApi t0))"
    using intro_ok_trace [OF m [of NoPermissionApi], of tes'] by simp
  moreover have "intro_mounted (intro_run t (intro_trace tes' (intro_mount NoPermissionApi t0)))
      \<and> gyroPermission (intro_run t (intro_trace tes' (intro_mount NoPermissionApi t0)))"
    using calculation(2) intro_ok_run [of t0 "intro_trace tes' (intro_mount NoPermissionApi t0)" t]
    by (auto simp: intro_ok_def)
  ultimately show ?thesis by (simp add: intro_trace_def intro_at_def)
qed

theorem intro_tilt_degrades_witness:
  "rotateX (intro_trace [(10, Orientation (Some 20) (Some 30)), (20, PermissionResponse (Some ''denied''))]
      (intro_mount RequiresPermission 0)) = 0
   \<and> rotateY (intro_trace [(10, Orientation (Some 20) (Some 30)), (20, PermissionResponse (Some ''denied''))]
      (intro_mount RequiresPermission 0)) = 0
   \<and> rotateX (intro_trace ([] @ [(10, Orientation (Some 20) (Some 30))]) (intro_mount NoPermissionApi 0)) = 20 * 0.1
   \<and> rotateY (intro_trace ([] @ [(10, Orientation (Some 20) (Some 30))]) (intro_mount NoPermissionApi 0)) = 30 * 0.1"
  by (rule intro_tilt_degrades) simp

end
