(* ===== verification/EasterEgg.thy ===== *)
theory EasterEgg
  imports Timers Complex_Main
begin

text \<open>
  The easter egg of \<open>src/src/app/components/HiddenEasterEgg.tsx\<close>: the state
  \<open>confetti\<close> and the effect with dependencies \<open>[isActive, onDismiss]\<close> that,
  while active, draws 50 confetti pieces and starts a 5000 ms timeout calling
  \<open>onDismiss\<close>, and whose cleanup clears that timeout. App passes
  \<open>onDismiss={() => setShowEasterEgg(false)}\<close>, a new function at every render
  of App, so the effect is cleaned up and run again at every commit of App:
  a commit is the event of this component, with the value of \<open>isActive\<close> and
  the random values of that run.
\<close>

datatype egg_cb = CallDismiss

record egg =
  confetti :: "(nat \<times> real \<times> string) list"
  egg_cleanup :: "timer_handle option"
  dismiss_calls :: nat
  egg_timers :: "egg_cb timers"

definition egg_init :: "ms \<Rightarrow> egg" where
  "egg_init t0 = \<lparr>confetti = [], egg_cleanup = None, dismiss_calls = 0, egg_timers = timers_init t0\<rparr>"

definition confetti_colors :: "string list" where
  "confetti_colors = [''#FFD700'', ''#FF69B4'', ''#87CEEB'', ''#FFB6C1'', ''#FFA500'']"

definition new_confetti :: "(nat \<Rightarrow> real) \<Rightarrow> (nat \<times> real \<times> string) list" where
  "new_confetti rnd = map (\<lambda>i. (i, rnd i * 100, confetti_colors ! (i mod 5))) [0..<50]"

definition dismiss_delay :: ms where
  "dismiss_delay = 5000"

text \<open>A commit: the previous run's cleanup (\<open>clearTimeout(timer)\<close>), then the
  effect body.\<close>

definition egg_commit :: "bool \<Rightarrow> (nat \<Rightarrow> real) \<Rightarrow> egg \<Rightarrow> egg" where
  "egg_commit isActive rnd s =
     (let q = (case egg_cleanup s of None \<Rightarrow> egg_timers s | Some h \<Rightarrow> clear_timer h (egg_timers s))
      in if isActive
         then (let (h, q') = set_timeout dismiss_delay CallDismiss q
               in s\<lparr>confetti := new_confetti rnd, egg_cleanup := Some h, egg_timers := q'\<rparr>)
         else s\<lparr>egg_cleanup := None, egg_timers := q\<rparr>)"

primrec egg_fire :: "egg_cb \<Rightarrow> egg \<Rightarrow> egg" where
  "egg_fire CallDismiss s = s\<lparr>dismiss_calls := Suc (dismiss_calls s)\<rparr>"

function egg_run :: "ms \<Rightarrow> egg \<Rightarrow> egg" where
  "egg_run t s =
     (case pop_due t (egg_timers s) of
        None \<Rightarrow> s\<lparr>egg_timers := advance_clock t (egg_timers s)\<rparr>
      | Some (cb, q) \<Rightarrow> egg_run t (egg_fire cb (s\<lparr>egg_timers := q\<rparr>)))"
  by pat_completeness auto
termination
  apply (relation "measure (\<lambda>(t, s). timer_work t (egg_timers s))")
   apply auto
  subgoal for t s cb q
    using timer_work_pop_due [of t "egg_timers s" cb q] by (cases cb) simp
  done

definition egg_at :: "ms \<times> bool \<times> (nat \<Rightarrow> real) \<Rightarrow> egg \<Rightarrow> egg" where
  "egg_at e s = egg_commit (fst (snd e)) (snd (snd e)) (egg_run (fst e) s)"

definition egg_trace :: "(ms \<times> bool \<times> (nat \<Rightarrow> real)) list \<Rightarrow> egg \<Rightarrow> egg" where
  "egg_trace es s = fold egg_at es s"

subsection \<open>The dismiss timeout is restarted by every commit\<close>

declare egg_run.simps [simp del]

lemma egg_run_None:
  "pop_due t (egg_timers s) = None \<Longrightarrow> egg_run t s = s\<lparr>egg_timers := advance_clock t (egg_timers s)\<rparr>"
  by (simp add: egg_run.simps)

lemma egg_run_Some:
  "pop_due t (egg_timers s) = Some (cb, q) \<Longrightarrow> egg_run t s = egg_run t (egg_fire cb (s\<lparr>egg_timers := q\<rparr>))"
  by (simp add: egg_run.simps)

text \<open>After a commit with \<open>isActive\<close> at time \<open>c\<close>: the timeout of that run is
  the only active timer until it fires at \<open>c + 5000\<close>.\<close>

definition egg_ok :: "ms \<Rightarrow> egg \<Rightarrow> bool" where
  "egg_ok c s \<longleftrightarrow> c \<le> clock (egg_timers s) \<and> egg_cleanup s \<noteq> None \<and>
     pending (egg_timers s)
       = (if c + dismiss_delay \<le> clock (egg_timers s) then []
          else [Timer (the (egg_cleanup s)) (c + dismiss_delay) None CallDismiss])"

lemma egg_ok_run:
  assumes "egg_ok c s"
  shows "egg_ok c (egg_run T s) \<and> clock (egg_timers (egg_run T s)) = max (clock (egg_timers s)) T
    \<and> confetti (egg_run T s) = confetti s
    \<and> dismiss_calls (egg_run T s)
        = dismiss_calls s + (if clock (egg_timers s) < c + dismiss_delay \<and> c + dismiss_delay \<le> T then 1 else 0)"
proof (cases "c + dismiss_delay \<le> clock (egg_timers s)")
  case True
  with assms show ?thesis
    by (simp add: egg_ok_def egg_run_None pop_due_def advance_clock_def)
next
  case False
  then have p: "pending (egg_timers s) = [Timer (the (egg_cleanup s)) (c + dismiss_delay) None CallDismiss]"
    using assms by (simp add: egg_ok_def)
  show ?thesis
  proof (cases "c + dismiss_delay \<le> T")
    case False
    then have "pop_due T (egg_timers s) = None" by (simp add: pop_due_single [OF p])
    with assms False \<open>\<not> c + dismiss_delay \<le> clock (egg_timers s)\<close> show ?thesis
      by (simp add: egg_run_None advance_clock_def egg_ok_def max_def)
  next
    case True
    let ?s1 = "s\<lparr>egg_timers := (egg_timers s)\<lparr>clock := c + dismiss_delay, pending := []\<rparr>,
                 dismiss_calls := Suc (dismiss_calls s)\<rparr>"
    have "pop_due T (egg_timers s) = Some (CallDismiss, (egg_timers s)\<lparr>clock := c + dismiss_delay, pending := []\<rparr>)"
      using True False by (simp add: pop_due_single [OF p] rearm_def max_def)
    then have r: "egg_run T s = egg_run T ?s1" by (simp add: egg_run_Some)
    have "pop_due T (egg_timers ?s1) = None" by (simp add: pop_due_def)
    then show ?thesis
      using assms True False by (simp add: r egg_run_None advance_clock_def egg_ok_def max_def)
  qed
qed

lemma egg_ok_commit:
  assumes "egg_ok c s"
  shows "egg_ok (clock (egg_timers s)) (egg_commit True rnd s)
    \<and> clock (egg_timers (egg_commit True rnd s)) = clock (egg_timers s)
    \<and> confetti (egg_commit True rnd s) = new_confetti rnd
    \<and> dismiss_calls (egg_commit True rnd s) = dismiss_calls s"
proof -
  obtain h where h: "egg_cleanup s = Some h" using assms by (auto simp: egg_ok_def)
  have "pending (clear_timer h (egg_timers s)) = []"
    using assms h by (simp add: egg_ok_def clear_timer_def)
  then show ?thesis
    using h by (simp add: egg_commit_def egg_ok_def set_timeout_def clear_timer_def dismiss_delay_def)
qed

lemma egg_first_commit:
  assumes "t0 \<le> c"
  shows "egg_ok c (egg_commit True rnd (egg_run c (egg_init t0)))
    \<and> clock (egg_timers (egg_commit True rnd (egg_run c (egg_init t0)))) = c
    \<and> dismiss_calls (egg_commit True rnd (egg_run c (egg_init t0))) = 0
    \<and> confetti (egg_commit True rnd (egg_run c (egg_init t0))) = new_confetti rnd"
  using assms
  by (simp add: egg_init_def timers_init_def egg_run_None pop_due_def advance_clock_def egg_commit_def
      set_timeout_def egg_ok_def dismiss_delay_def max_def)

lemma egg_commits:
  assumes "egg_ok c s" and "clock (egg_timers s) = c" and "sorted (c # map fst es)"
    and "list_all (\<lambda>e. fst (snd e)) es" and "list_all (\<lambda>e. fst e \<le> T) es" and "c \<le> T"
  shows "dismiss_calls (egg_run T (egg_trace es s))
      = dismiss_calls s + length (filter (\<lambda>(a, b). a + dismiss_delay \<le> b) (zip (c # map fst es) (map fst es @ [T])))
    \<and> confetti (egg_run T (egg_trace es s)) = (if es = [] then confetti s else new_confetti (snd (snd (last es))))"
  using assms
proof (induction es arbitrary: c s)
  case Nil
  then show ?case using egg_ok_run [OF Nil.prems(1), of T] by (simp add: egg_trace_def dismiss_delay_def)
next
  case (Cons e es)
  obtain c' a rnd where e: "e = (c', a, rnd)" by (cases e) auto
  have a: "a" and c': "c \<le> c'" using Cons.prems(3,4) e by auto
  let ?s1 = "egg_run c' s"
  have r: "egg_ok c ?s1" "clock (egg_timers ?s1) = c'"
    "dismiss_calls ?s1 = dismiss_calls s + (if c + dismiss_delay \<le> c' then 1 else 0)"
    using egg_ok_run [OF Cons.prems(1), of c'] Cons.prems(2) c' by (auto simp: max_def dismiss_delay_def)
  let ?s2 = "egg_commit True rnd ?s1"
  have m: "egg_ok c' ?s2" "clock (egg_timers ?s2) = c'" "confetti ?s2 = new_confetti rnd"
    "dismiss_calls ?s2 = dismiss_calls ?s1"
    using egg_ok_commit [OF r(1), of rnd] r(2) by auto
  have "sorted (c' # map fst es)" using Cons.prems(3) e by simp
  from Cons.IH [OF m(1) m(2) this] Cons.prems(4-6) e a m r show ?case
    by (auto simp: egg_trace_def egg_at_def)
qed

lemma zip_tl_butlast: "zip xs (tl xs) = zip (butlast xs) (tl xs)"
  by (induction xs rule: induct_list012) simp_all

subsection \<open>Properties\<close>

text \<open>Claim C39 (functional, timed). While the egg is shown, every commit of App
  (a press on the screen, a scene change) restarts the dismiss timeout and
  draws new confetti: for commits less than 5 s apart, \<open>onDismiss\<close> is called
  once, 5000 ms after the last commit, not 5000 ms after the egg appeared.\<close>

theorem egg_dismiss_postponed:
  assumes "sorted (map fst es)" and "es \<noteq> []" and "list_all (\<lambda>e. t0 \<le> fst e \<and> fst e \<le> T \<and> fst (snd e)) es"
    and "list_all (\<lambda>(a, b). b < a + 5000) (zip (map fst es) (tl (map fst es)))"
  shows "dismiss_calls (egg_run T (egg_trace es (egg_init t0))) = (if fst (last es) + 5000 \<le> T then 1 else 0)
    \<and> confetti (egg_run T (egg_trace es (egg_init t0))) = new_confetti (snd (snd (last es)))"
proof -
  obtain c a rnd rest where es: "es = (c, a, rnd) # rest" using assms(2) by (cases es) auto
  have a: "a" and c: "t0 \<le> c" "c \<le> T" using assms(3) es by auto
  note f = egg_first_commit [OF c(1), of rnd]
  have s: "egg_trace es (egg_init t0) = egg_trace rest (egg_commit True rnd (egg_run c (egg_init t0)))"
    using a by (simp add: es egg_trace_def egg_at_def)
  have "sorted (c # map fst rest)" using assms(1) es by simp
  moreover have "list_all (\<lambda>e. fst (snd e)) rest" "list_all (\<lambda>e. fst e \<le> T) rest"
    using assms(3) es by (simp_all add: list_all_iff)
  ultimately have g: "dismiss_calls (egg_run T (egg_trace rest (egg_commit True rnd (egg_run c (egg_init t0)))))
      = length (filter (\<lambda>(a, b). a + dismiss_delay \<le> b) (zip (c # map fst rest) (map fst rest @ [T])))
    \<and> confetti (egg_run T (egg_trace rest (egg_commit True rnd (egg_run c (egg_init t0)))))
      = (if rest = [] then new_confetti rnd else new_confetti (snd (snd (last rest))))"
    using egg_commits [of c _ rest T] f c(2) by simp
  have ts: "map fst es = c # map fst rest" by (simp add: es)
  have "filter (\<lambda>(a, b). a + dismiss_delay \<le> b) (zip (c # map fst rest) (map fst rest @ [T]))
      = (if last (c # map fst rest) + dismiss_delay \<le> T then [(last (c # map fst rest), T)] else [])"
  proof -
    let ?xs = "c # map fst rest"
    have "zip ?xs (map fst rest @ [T]) = zip (butlast ?xs) (tl ?xs) @ [(last ?xs, T)]"
      by (subst append_butlast_last_id [symmetric, of ?xs]) (simp_all add: zip_append del: append_butlast_last_id)
    moreover have "filter (\<lambda>(a, b). a + dismiss_delay \<le> b) (zip (butlast ?xs) (tl ?xs))
        = filter (\<lambda>(a, b). a + dismiss_delay \<le> b) (zip ?xs (tl ?xs))"
      by (simp only: zip_tl_butlast)
    moreover have "filter (\<lambda>(a, b). a + dismiss_delay \<le> b) (zip ?xs (tl ?xs)) = []"
      using assms(4) by (fastforce simp: ts filter_empty_conv list_all_iff dismiss_delay_def split_beta)
    ultimately show ?thesis by simp
  qed
  moreover have "fst (last es) = last (c # map fst rest)"
    by (cases rest rule: rev_cases) (simp_all add: es)
  moreover have "(if rest = [] then new_confetti rnd else new_confetti (snd (snd (last rest))))
      = new_confetti (snd (snd (last es)))" by (simp add: es)
  ultimately show ?thesis unfolding s using g by (simp add: dismiss_delay_def)
qed

theorem egg_dismiss_postponed_witness:
  "dismiss_calls (egg_run 7000 (egg_trace [(1000, True, \<lambda>_. 0.5), (3000, True, \<lambda>_. 0.25)] (egg_init 0))) = 0
   \<and> confetti (egg_run 7000 (egg_trace [(1000, True, \<lambda>_. 0.5), (3000, True, \<lambda>_. 0.25)] (egg_init 0)))
     = new_confetti (\<lambda>_. 0.25)"
  using egg_dismiss_postponed [of "[(1000, True, \<lambda>_. 0.5), (3000, True, \<lambda>_. 0.25)]" 0 7000] by simp

end
