(* ===== verification/Finale.thy ===== *)
theory Finale
  imports Timers Layout
begin

text \<open>
  The finale of \<open>src/src/app/components/Scene6Finale.tsx\<close>: the state
  \<open>showLanterns\<close>, set by a 2000 ms timeout started on mount and cleared on
  unmount; the Replay button, which calls \<open>onReplay\<close> on every click; and
  what the scene renders from the state (15 lanterns once shown, the photos of
  the heart entering 0.1 s apart, the texts). Texts are code point lists: the
  source has characters outside Latin-1.
\<close>

datatype finale_cb = ShowLanterns

record finale =
  showLanterns :: bool
  replays :: nat
  finale_handle :: timer_handle
  finale_timers :: "finale_cb timers"

definition lantern_delay :: ms where
  "lantern_delay = 2000"

definition finale_mount :: "ms \<Rightarrow> finale" where
  "finale_mount t0 =
     (let (h, q) = set_timeout lantern_delay ShowLanterns (timers_init t0)
      in \<lparr>showLanterns = False, replays = 0, finale_handle = h, finale_timers = q\<rparr>)"

definition finale_unmount :: "finale \<Rightarrow> finale" where
  "finale_unmount s = s\<lparr>finale_timers := clear_timer (finale_handle s) (finale_timers s)\<rparr>"

primrec finale_fire :: "finale_cb \<Rightarrow> finale \<Rightarrow> finale" where
  "finale_fire ShowLanterns s = s\<lparr>showLanterns := True\<rparr>"

function finale_run :: "ms \<Rightarrow> finale \<Rightarrow> finale" where
  "finale_run t s =
     (case pop_due t (finale_timers s) of
        None \<Rightarrow> s\<lparr>finale_timers := advance_clock t (finale_timers s)\<rparr>
      | Some (cb, q) \<Rightarrow> finale_run t (finale_fire cb (s\<lparr>finale_timers := q\<rparr>)))"
  by pat_completeness auto
termination
  apply (relation "measure (\<lambda>(t, s). timer_work t (finale_timers s))")
   apply auto
  subgoal for t s cb q
    using timer_work_pop_due [of t "finale_timers s" cb q] by (cases cb) simp
  done

text \<open>A click on Replay, at a given time. The button's container fades in
  after 3 s, but it takes clicks from the start.\<close>

definition handleReplayClick :: "finale \<Rightarrow> finale" where
  "handleReplayClick s = s\<lparr>replays := Suc (replays s)\<rparr>"

definition finale_taps :: "ms list \<Rightarrow> finale \<Rightarrow> finale" where
  "finale_taps ts s = fold (\<lambda>t s. handleReplayClick (finale_run t s)) ts s"

subsection \<open>What the finale renders\<close>

definition finale_heading :: "nat list" where
  "finale_heading = map of_char ''May your love grow stronger''"

text \<open>The subtitle and the footer, code point by code point as the source file
  has them.\<close>

definition finale_subtitle :: "nat list" where
  "finale_subtitle = map of_char ''with every passing year '' @ [0xF8FF, 0xFC, 0xED, 0xEF]"

definition finale_footer :: "nat list" where
  "finale_footer =
     map of_char ''Made with '' @ [0x201A, 0xF9, 0xA7, 0xD4, 0x220F, 0xE8] @ map of_char '' for an amazing couple''"

record finale_view =
  lantern_delays :: "real list"      \<comment> \<open>\<open>{showLanterns && [...Array(15)]}\<close>, delay \<open>i * 0.5\<close>\<close>
  photo_delays :: "real list"        \<comment> \<open>heart photos, delay \<open>1 + i * 0.1\<close>\<close>
  texts :: "nat list list"

definition finale_view_of :: "nat \<Rightarrow> finale \<Rightarrow> finale_view" where
  "finale_view_of n s =
     \<lparr>lantern_delays = (if showLanterns s then map (\<lambda>i. real i * 0.5) [0..<15] else []),
      photo_delays = map (\<lambda>i. 1 + real i * 0.1) [0..<n],
      texts = [finale_heading, finale_subtitle, map of_char ''Replay Surprise'', finale_footer]\<rparr>"

subsection \<open>Text encodings\<close>

text \<open>UTF-8, and the Mac OS Roman decoding of a byte (its upper half as the
  standard table), to read what the source's texts are.\<close>

definition utf8_encode :: "nat \<Rightarrow> nat list" where
  "utf8_encode c =
     (if c < 0x80 then [c]
      else if c < 0x800 then [0xC0 + c div 64, 0x80 + c mod 64]
      else if c < 0x10000 then [0xE0 + c div 4096, 0x80 + c div 64 mod 64, 0x80 + c mod 64]
      else [0xF0 + c div 262144, 0x80 + c div 4096 mod 64, 0x80 + c div 64 mod 64, 0x80 + c mod 64])"

definition mac_roman_high :: "nat list" where
  "mac_roman_high =
    [0xC4, 0xC5, 0xC7, 0xC9, 0xD1, 0xD6, 0xDC, 0xE1, 0xE0, 0xE2, 0xE4, 0xE3, 0xE5, 0xE7, 0xE9, 0xE8,
     0xEA, 0xEB, 0xED, 0xEC, 0xEE, 0xEF, 0xF1, 0xF3, 0xF2, 0xF4, 0xF6, 0xF5, 0xFA, 0xF9, 0xFB, 0xFC,
     0x2020, 0xB0, 0xA2, 0xA3, 0xA7, 0x2022, 0xB6, 0xDF, 0xAE, 0xA9, 0x2122, 0xB4, 0xA8, 0x2260, 0xC6, 0xD8,
     0x221E, 0xB1, 0x2264, 0x2265, 0xA5, 0xB5, 0x2202, 0x2211, 0x220F, 0x3C0, 0x222B, 0xAA, 0xBA, 0x3A9, 0xE6, 0xF8,
     0xBF, 0xA1, 0xAC, 0x221A, 0x192, 0x2248, 0x2206, 0xAB, 0xBB, 0x2026, 0xA0, 0xC0, 0xC3, 0xD5, 0x152, 0x153,
     0x2013, 0x2014, 0x201C, 0x201D, 0x2018, 0x2019, 0xF7, 0x25CA, 0xFF, 0x178, 0x2044, 0x20AC, 0x2039, 0x203A, 0xFB01, 0xFB02,
     0x2021, 0xB7, 0x201A, 0x201E, 0x2030, 0xC2, 0xCA, 0xC1, 0xCB, 0xC8, 0xCD, 0xCE, 0xCF, 0xCC, 0xD3, 0xD4,
     0xF8FF, 0xD2, 0xDA, 0xDB, 0xD9, 0x131, 0x2C6, 0x2DC, 0xAF, 0x2D8, 0x2D9, 0x2DA, 0xB8, 0x2DD, 0x2DB, 0x2C7]"

definition mac_roman :: "nat \<Rightarrow> nat" where
  "mac_roman b = (if b < 0x80 then b else mac_roman_high ! (b - 0x80))"

subsection \<open>The lantern timeout\<close>

declare finale_run.simps [simp del]

definition finale_ok :: "ms \<Rightarrow> finale \<Rightarrow> bool" where
  "finale_ok t0 s \<longleftrightarrow>
     showLanterns s = (t0 + lantern_delay \<le> clock (finale_timers s)) \<and>
     map (\<lambda>e. (timer_due e, timer_period e, timer_cb e)) (pending (finale_timers s))
       = (if t0 + lantern_delay \<le> clock (finale_timers s) then [] else [(t0 + lantern_delay, None, ShowLanterns)])"

lemma finale_mount_ok:
  "finale_ok t0 (finale_mount t0) \<and> clock (finale_timers (finale_mount t0)) = t0 \<and> replays (finale_mount t0) = 0"
  by (simp add: finale_ok_def finale_mount_def set_timeout_def timers_init_def lantern_delay_def)

lemma finale_ok_run:
  assumes "finale_ok t0 s"
  shows "finale_ok t0 (finale_run T s) \<and> clock (finale_timers (finale_run T s)) = max (clock (finale_timers s)) T
    \<and> replays (finale_run T s) = replays s"
proof -
  let ?d = "t0 + lantern_delay" and ?q = "finale_timers s"
  have p: "pop_due T' ?q = (if clock ?q < ?d \<and> ?d \<le> T' then Some (ShowLanterns, ?q\<lparr>clock := ?d, pending := []\<rparr>) else None)"
    for T' using assms by (intro pop_due_one_shot) (simp add: finale_ok_def)
  show ?thesis
  proof (cases "clock ?q < ?d \<and> ?d \<le> T")
    case True
    let ?s1 = "s\<lparr>finale_timers := ?q\<lparr>clock := ?d, pending := []\<rparr>, showLanterns := True\<rparr>"
    have "finale_run T s = finale_run T ?s1"
      using p [of T] True by (simp add: finale_run.simps [of T s])
    also have "\<dots> = ?s1\<lparr>finale_timers := advance_clock T (finale_timers ?s1)\<rparr>"
      by (simp add: finale_run.simps pop_due_def)
    finally show ?thesis using True by (simp add: finale_ok_def advance_clock_def max_def)
  next
    case False
    then have "pop_due T ?q = None" using p [of T] by simp
    then have "finale_run T s = s\<lparr>finale_timers := advance_clock T ?q\<rparr>"
      by (simp add: finale_run.simps [of T s])
    then show ?thesis using False assms by (auto simp: finale_ok_def advance_clock_def max_def)
  qed
qed

lemma finale_ok_taps:
  assumes "finale_ok t0 s"
  shows "finale_ok t0 (finale_taps ts s) \<and> clock (finale_timers (finale_taps ts s)) = fold max ts (clock (finale_timers s))
    \<and> replays (finale_taps ts s) = replays s + length ts"
  using assms
proof (induction ts arbitrary: s)
  case (Cons t ts)
  have "finale_ok t0 (handleReplayClick (finale_run t s))"
    "clock (finale_timers (handleReplayClick (finale_run t s))) = max (clock (finale_timers s)) t"
    "replays (handleReplayClick (finale_run t s)) = Suc (replays s)"
    using finale_ok_run [OF Cons.prems, of t] by (simp_all add: handleReplayClick_def finale_ok_def)
  from Cons.IH [OF this(1)] this(2,3) show ?case by (simp add: finale_taps_def max.commute)
qed (simp add: finale_taps_def)

subsection \<open>Properties\<close>

text \<open>Claim C40 (functional, timed and rendering). Mounted at \<open>t0\<close>, the finale
  shows its 15 lanterns (0.5 s apart) exactly from \<open>t0 + 2000\<close>, whatever Replay
  clicks come (each calls \<open>onReplay\<close>); and its subtitle and footer do not show
  the emoji the code means: their last characters are the UTF-8 bytes of
  U+1F495 (two hearts) and of U+2764 U+FE0F (red heart) read as Mac OS Roman,
  so the page shows mojibake.\<close>

theorem finale_display:
  assumes "list_all (\<lambda>t. t \<le> T) ts" and "t0 \<le> T"
  shows "lantern_delays (finale_view_of n (finale_run T (finale_taps ts (finale_mount t0))))
           = (if t0 + 2000 \<le> T then map (\<lambda>i. real i * 0.5) [0..<15] else [])
    \<and> replays (finale_run T (finale_taps ts (finale_mount t0))) = length ts
    \<and> finale_subtitle = map of_char ''with every passing year '' @ map mac_roman (utf8_encode 0x1F495)
    \<and> finale_footer = map of_char ''Made with '' @ map mac_roman (utf8_encode 0x2764 @ utf8_encode 0xFE0F)
        @ map of_char '' for an amazing couple''"
proof -
  note m = finale_mount_ok [of t0]
  note tp = finale_ok_taps [OF conjunct1 [OF m], of ts]
  have "fold max ts t0 \<le> T" using fold_max_le assms by (simp add: list_all_iff)
  with finale_ok_run [OF conjunct1 [OF tp], of T] tp m
  have "showLanterns (finale_run T (finale_taps ts (finale_mount t0))) = (t0 + 2000 \<le> T)"
    "replays (finale_run T (finale_taps ts (finale_mount t0))) = length ts"
    by (simp_all add: finale_ok_def lantern_delay_def max_def)
  then show ?thesis
    by (simp add: finale_view_of_def finale_subtitle_def finale_footer_def utf8_encode_def mac_roman_def
        mac_roman_high_def)
qed

theorem finale_display_witness:
  "lantern_delays (finale_view_of 13 (finale_run 2500 (finale_taps [100] (finale_mount 0))))
     = map (\<lambda>i. real i * 0.5) [0..<15]
   \<and> replays (finale_run 2500 (finale_taps [100] (finale_mount 0))) = 1"
  using finale_display [of 2500 "[100]" 0 13] by simp

end
