(* ===== verification/AppShell.thy ===== *)
theory AppShell
  imports LongPress EasterEgg
begin

text \<open>
  The composition of App's long press (theory \<open>LongPress\<close>) with the easter
  egg (theory \<open>EasterEgg\<close>), as \<open>src/src/app/App.tsx\<close> wires them: the timeout
  of a long press sets \<open>showEasterEgg\<close>, which App passes to
  \<open>HiddenEasterEgg\<close> as \<open>isActive\<close>; the egg's \<open>onDismiss\<close> resets it. App
  re-renders, and so commits the egg's effect anew (its \<open>onDismiss\<close> is a new
  function at every render), whenever one of its states changes: a press
  start or end changes \<open>longPressTimer\<close>, a firing or a dismissal changes
  \<open>showEasterEgg\<close>; setting a state to its current value does not re-render.
  Both components' timers run in one event loop on one clock: the earliest
  due timer of the two queues fires first (on a tie, the long press's).
\<close>

text \<open>\<open>ap_draws\<close> counts the calls of \<open>Math.random()\<close> so far: \<open>rnd\<close> is the one
  stream of its values, and each call takes the next one.\<close>

record app =
  ap_press :: press
  ap_egg :: egg
  ap_draws :: nat

definition app_init :: app where
  "app_init = \<lparr>ap_press = press_init, ap_egg = egg_init 0, ap_draws = 0\<rparr>"

text \<open>A render of App commits the egg's effect with the current
  \<open>showEasterEgg\<close>, at the time of the render; an active run draws the next
  50 random values for its confetti.\<close>

definition app_commit :: "(nat \<Rightarrow> real) \<Rightarrow> app \<Rightarrow> app" where
  "app_commit rnd s =
     s\<lparr>ap_egg := egg_commit (showEasterEgg (ap_press s)) (\<lambda>i. rnd (ap_draws s + i))
        ((ap_egg s)\<lparr>egg_timers := advance_clock (clock (press_timers (ap_press s))) (egg_timers (ap_egg s))\<rparr>),
       ap_draws := ap_draws s + (if showEasterEgg (ap_press s) then 50 else 0)\<rparr>"

definition app_rerenders :: "press \<Rightarrow> press \<Rightarrow> bool" where
  "app_rerenders old new \<longleftrightarrow>
     showEasterEgg old \<noteq> showEasterEgg new \<or> longPressTimer old \<noteq> longPressTimer new"

definition app_settle :: "(nat \<Rightarrow> real) \<Rightarrow> press \<Rightarrow> app \<Rightarrow> app" where
  "app_settle rnd old s = (if app_rerenders old (ap_press s) then app_commit rnd s else s)"

text \<open>\<open>onDismiss={() => setShowEasterEgg(false)}\<close>.\<close>

definition app_dismiss :: "(nat \<Rightarrow> real) \<Rightarrow> app \<Rightarrow> app" where
  "app_dismiss rnd s =
     app_settle rnd (ap_press s) (s\<lparr>ap_press := (ap_press s)\<lparr>showEasterEgg := False\<rparr>\<rparr>)"

definition next_due :: "'cb timers \<Rightarrow> ms option" where
  "next_due q = map_option timer_due (earliest (pending q))"

datatype app_src = FromPress | FromEgg

fun pick :: "ms option \<Rightarrow> ms option \<Rightarrow> ms \<Rightarrow> app_src option" where
  "pick None None t = None"
| "pick (Some a) None t = (if a \<le> t then Some FromPress else None)"
| "pick None (Some b) t = (if b \<le> t then Some FromEgg else None)"
| "pick (Some a) (Some b) t =
     (if a \<le> b then (if a \<le> t then Some FromPress else None)
      else (if b \<le> t then Some FromEgg else None))"

definition app_advance :: "ms \<Rightarrow> app \<Rightarrow> app" where
  "app_advance t s =
     s\<lparr>ap_press := (ap_press s)\<lparr>press_timers := advance_clock t (press_timers (ap_press s))\<rparr>,
       ap_egg := (ap_egg s)\<lparr>egg_timers := advance_clock t (egg_timers (ap_egg s))\<rparr>\<rparr>"

function app_run :: "(nat \<Rightarrow> real) \<Rightarrow> ms \<Rightarrow> app \<Rightarrow> app" where
  "app_run rnd t s =
     (case pick (next_due (press_timers (ap_press s))) (next_due (egg_timers (ap_egg s))) t of
        None \<Rightarrow> app_advance t s
      | Some FromPress \<Rightarrow>
          (case pop_due t (press_timers (ap_press s)) of
             None \<Rightarrow> app_advance t s
           | Some (cb, q) \<Rightarrow>
               app_run rnd t (app_settle rnd (ap_press s)
                 (s\<lparr>ap_press := press_fire cb ((ap_press s)\<lparr>press_timers := q\<rparr>)\<rparr>)))
      | Some FromEgg \<Rightarrow>
          (case pop_due t (egg_timers (ap_egg s)) of
             None \<Rightarrow> app_advance t s
           | Some (cb, q) \<Rightarrow>
               app_run rnd t (app_dismiss rnd (s\<lparr>ap_egg := egg_fire cb ((ap_egg s)\<lparr>egg_timers := q\<rparr>)\<rparr>))))"
  by pat_completeness auto
termination
proof (relation "measures [\<lambda>(rnd, t, s). timer_work t (press_timers (ap_press s)),
                            \<lambda>(rnd, t, s). timer_work t (egg_timers (ap_egg s))]")
  show "wf (measures [\<lambda>(rnd, t, s). timer_work t (press_timers (ap_press s)),
                      \<lambda>(rnd, t, s). timer_work t (egg_timers (ap_egg s))])"
    by simp
next
  fix rnd t and s :: app and x cb q
  assume "pop_due t (press_timers (ap_press s)) = Some x" and "(cb, q) = x"
  then have "timer_work t q < timer_work t (press_timers (ap_press s))"
    using timer_work_pop_due [of t "press_timers (ap_press s)" cb q] by simp
  then show "((rnd, t, app_settle rnd (ap_press s) (s\<lparr>ap_press := press_fire cb ((ap_press s)\<lparr>press_timers := q\<rparr>)\<rparr>)),
          rnd, t, s) \<in> measures [\<lambda>(rnd, t, s). timer_work t (press_timers (ap_press s)),
                                  \<lambda>(rnd, t, s). timer_work t (egg_timers (ap_egg s))]"
    by (cases cb) (simp add: app_settle_def app_commit_def)
next
  fix rnd t and s :: app and x cb q
  assume "pop_due t (egg_timers (ap_egg s)) = Some x" and "(cb, q) = x"
  then have lt: "timer_work t q < timer_work t (egg_timers (ap_egg s))"
    using timer_work_pop_due [of t "egg_timers (ap_egg s)" cb q] by simp
  have "timer_work t (egg_timers (ap_egg (app_dismiss rnd (s\<lparr>ap_egg := egg_fire cb ((ap_egg s)\<lparr>egg_timers := q\<rparr>)\<rparr>))))
      \<le> timer_work t q"
    by (cases cb) (auto simp: app_dismiss_def app_settle_def app_commit_def egg_commit_def app_rerenders_def
        intro: order_trans [OF timer_work_clear] split: option.split)
  with lt show "((rnd, t, app_dismiss rnd (s\<lparr>ap_egg := egg_fire cb ((ap_egg s)\<lparr>egg_timers := q\<rparr>)\<rparr>)),
          rnd, t, s) \<in> measures [\<lambda>(rnd, t, s). timer_work t (press_timers (ap_press s)),
                                  \<lambda>(rnd, t, s). timer_work t (egg_timers (ap_egg s))]"
    by (cases cb) (simp add: app_dismiss_def app_settle_def app_commit_def)
qed

text \<open>A pointer event on App's container, after the timers due by its time.\<close>

definition app_input :: "(nat \<Rightarrow> real) \<Rightarrow> pointer_event \<Rightarrow> app \<Rightarrow> app" where
  "app_input rnd ev s = app_settle rnd (ap_press s) (s\<lparr>ap_press := press_input ev (ap_press s)\<rparr>)"

definition app_timed :: "(nat \<Rightarrow> real) \<Rightarrow> ms \<times> pointer_event \<Rightarrow> app \<Rightarrow> app" where
  "app_timed rnd te s = app_input rnd (snd te) (app_run rnd (fst te) s)"

definition app_trace :: "(nat \<Rightarrow> real) \<Rightarrow> (ms \<times> pointer_event) list \<Rightarrow> app \<Rightarrow> app" where
  "app_trace rnd tes s = fold (app_timed rnd) tes s"

subsection \<open>The invariant of the composition\<close>

text \<open>Every pending dismiss timeout is the one of the last commit, and is one-shot.\<close>

definition egg_pre :: "egg \<Rightarrow> bool" where
  "egg_pre e \<longleftrightarrow>
     (case egg_cleanup e of
        None \<Rightarrow> pending (egg_timers e) = []
      | Some h \<Rightarrow> list_all (\<lambda>x. timer_id x = h \<and> timer_period x = None) (pending (egg_timers e)))"

text \<open>The egg's dismiss timeout is pending exactly while \<open>showEasterEgg\<close> is set.\<close>

definition app_inv :: "app \<Rightarrow> bool" where
  "app_inv s \<longleftrightarrow> press_inv (ap_press s) \<and> timers_wf (egg_timers (ap_egg s)) \<and> egg_pre (ap_egg s) \<and>
     (showEasterEgg (ap_press s) \<longleftrightarrow> pending (egg_timers (ap_egg s)) \<noteq> []) \<and>
     (showEasterEgg (ap_press s) \<longleftrightarrow> egg_cleanup (ap_egg s) \<noteq> None)"

text \<open>Every pending timeout ends, with the dismissal it may lead to, by \<open>B\<close>;
  while the long press is pending, a dismiss timeout started at the clock of
  either component also ends by \<open>B\<close>.\<close>

definition app_horizon :: "ms \<Rightarrow> app \<Rightarrow> bool" where
  "app_horizon B s \<longleftrightarrow>
     list_all (\<lambda>p. timer_due p + dismiss_delay \<le> B) (pending (press_timers (ap_press s))) \<and>
     list_all (\<lambda>e. timer_due e \<le> B) (pending (egg_timers (ap_egg s))) \<and>
     (pending (press_timers (ap_press s)) \<noteq> [] \<longrightarrow>
        clock (press_timers (ap_press s)) + dismiss_delay \<le> B \<and> clock (egg_timers (ap_egg s)) + dismiss_delay \<le> B)"

text \<open>Moreover both clocks are early enough that a long press started now ends,
  with its dismissal, by \<open>B\<close>.\<close>

definition app_calm :: "ms \<Rightarrow> app \<Rightarrow> bool" where
  "app_calm B s \<longleftrightarrow> app_horizon B s \<and>
     clock (press_timers (ap_press s)) + long_press_delay + dismiss_delay \<le> B \<and>
     clock (egg_timers (ap_egg s)) + long_press_delay + dismiss_delay \<le> B"

declare app_run.simps [simp del]

lemma app_run_idle:
  "pick (next_due (press_timers (ap_press s))) (next_due (egg_timers (ap_egg s))) t = None \<Longrightarrow>
   app_run rnd t s = app_advance t s"
  by (simp add: app_run.simps)

lemma app_run_press:
  "pick (next_due (press_timers (ap_press s))) (next_due (egg_timers (ap_egg s))) t = Some FromPress \<Longrightarrow>
   pop_due t (press_timers (ap_press s)) = Some (cb, q) \<Longrightarrow>
   app_run rnd t s = app_run rnd t (app_settle rnd (ap_press s)
                 (s\<lparr>ap_press := press_fire cb ((ap_press s)\<lparr>press_timers := q\<rparr>)\<rparr>))"
  by (simp add: app_run.simps)

lemma app_run_egg:
  "pick (next_due (press_timers (ap_press s))) (next_due (egg_timers (ap_egg s))) t = Some FromEgg \<Longrightarrow>
   pop_due t (egg_timers (ap_egg s)) = Some (cb, q) \<Longrightarrow>
   app_run rnd t s = app_run rnd t (app_dismiss rnd (s\<lparr>ap_egg := egg_fire cb ((ap_egg s)\<lparr>egg_timers := q\<rparr>)\<rparr>))"
  by (simp add: app_run.simps)

lemma next_due_le: "next_due q = Some a \<Longrightarrow> e \<in> set (pending q) \<Longrightarrow> a \<le> timer_due e"
  by (auto simp: next_due_def dest: earliest_min)

lemma next_due_None: "next_due q = None \<longleftrightarrow> pending q = []"
  by (simp add: next_due_def)

lemma next_due_single: "pending q = [e] \<Longrightarrow> next_due q = Some (timer_due e)"
  by (simp add: next_due_def)

lemma next_due_pop: "next_due q = Some a \<Longrightarrow> a \<le> t \<Longrightarrow> pop_due t q \<noteq> None"
  by (auto simp: next_due_def pop_due_def)

lemma pick_NoneD:
  "pick a b t = None \<Longrightarrow> (\<forall>d. a = Some d \<longrightarrow> t < d) \<and> (\<forall>d. b = Some d \<longrightarrow> t < d)"
  by (cases a; cases b) (auto split: if_splits)

lemma pick_PressD: "pick a b t = Some FromPress \<Longrightarrow> \<exists>d. a = Some d \<and> d \<le> t"
  by (cases a; cases b) (auto split: if_splits)

lemma pick_EggD:
  "pick a b t = Some FromEgg \<Longrightarrow> \<exists>e. b = Some e \<and> e \<le> t \<and> (\<forall>d. a = Some d \<longrightarrow> e < d)"
  by (cases a; cases b) (auto split: if_splits)

lemma quiet_next_due:
  "(\<forall>d. next_due q = Some d \<longrightarrow> t < d) \<Longrightarrow> list_all (\<lambda>e. t < timer_due e) (pending q)"
  by (cases "next_due q") (auto simp: list_all_iff next_due_None dest: next_due_le)

lemma app_advance_fields [simp]:
  "pending (press_timers (ap_press (app_advance t s))) = pending (press_timers (ap_press s))"
  "pending (egg_timers (ap_egg (app_advance t s))) = pending (egg_timers (ap_egg s))"
  "clock (press_timers (ap_press (app_advance t s))) = max (clock (press_timers (ap_press s))) t"
  "clock (egg_timers (ap_egg (app_advance t s))) = max (clock (egg_timers (ap_egg s))) t"
  "showEasterEgg (ap_press (app_advance t s)) = showEasterEgg (ap_press s)"
  by (simp_all add: app_advance_def advance_clock_def)

text \<open>When the loop returns, no timer of either component is due and both clocks
  have reached \<open>t\<close>.\<close>

lemma app_run_quiet:
  "list_all (\<lambda>e. t < timer_due e) (pending (press_timers (ap_press (app_run rnd t s)))) \<and>
   list_all (\<lambda>e. t < timer_due e) (pending (egg_timers (ap_egg (app_run rnd t s)))) \<and>
   t \<le> clock (press_timers (ap_press (app_run rnd t s))) \<and>
   t \<le> clock (egg_timers (ap_egg (app_run rnd t s)))"
proof (induction rnd t s rule: app_run.induct)
  case (1 rnd t s)
  let ?a = "next_due (press_timers (ap_press s))" and ?b = "next_due (egg_timers (ap_egg s))"
  show ?case
  proof (cases "pick ?a ?b t")
    case None
    then show ?thesis
      using pick_NoneD [OF None] by (simp add: app_run_idle quiet_next_due)
  next
    case (Some src)
    show ?thesis
    proof (cases src)
      case FromPress
      then obtain cb q where p: "pop_due t (press_timers (ap_press s)) = Some (cb, q)"
        using pick_PressD [of ?a ?b t] Some next_due_pop by fastforce
      show ?thesis
        using "1.IH"(1) [OF Some FromPress p refl] app_run_press [OF _ p] Some FromPress by simp
    next
      case FromEgg
      then obtain cb q where p: "pop_due t (egg_timers (ap_egg s)) = Some (cb, q)"
        using pick_EggD [of ?a ?b t] Some next_due_pop by fastforce
      show ?thesis
        using "1.IH"(2) [OF Some FromEgg p refl] app_run_egg [OF _ p] Some FromEgg by simp
    qed
  qed
qed

subsection \<open>One commit of the egg's effect, and one step of the loop\<close>

lemma egg_pre_cleared:
  assumes "egg_pre e"
  shows "pending (case egg_cleanup e of None \<Rightarrow> egg_timers e | Some h \<Rightarrow> clear_timer h (egg_timers e)) = []"
  using assms by (cases "egg_cleanup e") (auto simp: egg_pre_def clear_timer_def list_all_iff filter_empty_conv)

lemma egg_commit_eq:
  assumes "egg_pre e"
  shows "egg_commit on rnd e =
    (if on then e\<lparr>confetti := new_confetti rnd, egg_cleanup := Some (next_handle (egg_timers e)),
        egg_timers := (egg_timers e)\<lparr>next_handle := Suc (next_handle (egg_timers e)),
          pending := [Timer (next_handle (egg_timers e)) (clock (egg_timers e) + dismiss_delay) None CallDismiss]\<rparr>\<rparr>
     else e\<lparr>egg_cleanup := None, egg_timers := (egg_timers e)\<lparr>pending := []\<rparr>\<rparr>)"
proof -
  let ?q = "case egg_cleanup e of None \<Rightarrow> egg_timers e | Some h \<Rightarrow> clear_timer h (egg_timers e)"
  have q: "?q = (egg_timers e)\<lparr>pending := []\<rparr>"
    using egg_pre_cleared [OF assms]
    by (cases "egg_cleanup e") (simp_all add: clear_timer_def)
  show ?thesis
    unfolding egg_commit_def Let_def q by (simp add: set_timeout_def)
qed

lemma egg_pre_advance: "egg_pre e \<Longrightarrow> egg_pre (e\<lparr>egg_timers := advance_clock c (egg_timers e)\<rparr>)"
  by (cases "egg_cleanup e") (simp_all add: egg_pre_def advance_clock_def)

lemma app_inv_commit:
  assumes "press_inv (ap_press s)" and "timers_wf (egg_timers (ap_egg s))" and "egg_pre (ap_egg s)"
  shows "app_inv (app_commit rnd s)"
proof -
  let ?e = "(ap_egg s)\<lparr>egg_timers := advance_clock (clock (press_timers (ap_press s))) (egg_timers (ap_egg s))\<rparr>"
  have pre: "egg_pre ?e"
    using assms(3) by (rule egg_pre_advance)
  have wf: "timers_wf (egg_timers ?e)"
    using assms(2) by (simp add: timers_wf_advance)
  show ?thesis
    using assms(1) wf unfolding app_commit_def egg_commit_eq [OF pre]
    by (cases "showEasterEgg (ap_press s)") (simp_all add: app_inv_def egg_pre_def timers_wf_def)
qed

lemma app_inv_settle:
  assumes "press_inv (ap_press s)" and "timers_wf (egg_timers (ap_egg s))" and "egg_pre (ap_egg s)"
    and "\<not> app_rerenders old (ap_press s) \<Longrightarrow> app_inv (s\<lparr>ap_press := old\<rparr>)"
  shows "app_inv (app_settle rnd old s)"
proof (cases "app_rerenders old (ap_press s)")
  case True
  with app_inv_commit [OF assms(1-3)] show ?thesis by (simp add: app_settle_def)
next
  case False
  then have inv: "app_inv (s\<lparr>ap_press := old\<rparr>)" by (rule assms(4))
  have eq: "showEasterEgg old = showEasterEgg (ap_press s)"
    using False by (simp add: app_rerenders_def)
  from inv have "app_inv s"
    using assms(1) eq unfolding app_inv_def by auto
  with False show ?thesis by (simp add: app_settle_def)
qed

lemma app_inv_egg_cases:
  assumes "app_inv s"
  obtains "\<not> showEasterEgg (ap_press s)" "egg_cleanup (ap_egg s) = None" "pending (egg_timers (ap_egg s)) = []"
  | h d where "showEasterEgg (ap_press s)" "egg_cleanup (ap_egg s) = Some h"
      "pending (egg_timers (ap_egg s)) = [Timer h d None CallDismiss]"
proof (cases "egg_cleanup (ap_egg s)")
  case None
  with assms that(1) show ?thesis by (auto simp: app_inv_def)
next
  case (Some h)
  let ?xs = "pending (egg_timers (ap_egg s))"
  have on: "showEasterEgg (ap_press s)" and ne: "?xs \<noteq> []"
    using assms Some by (auto simp: app_inv_def)
  have all: "\<forall>x\<in>set ?xs. timer_id x = h \<and> timer_period x = None"
    using assms Some by (simp add: app_inv_def egg_pre_def list_all_iff)
  have "distinct (map timer_id ?xs)"
    using assms by (simp add: app_inv_def timers_wf_def)
  then have "length ?xs \<le> 1"
    using all by (intro distinct_map_const_length [where c = h]) auto
  with ne obtain x where x: "?xs = [x]"
    using length_le_1_cases by blast
  with all have "x = Timer h (timer_due x) None (timer_cb x)"
    by (cases x) auto
  moreover have "timer_cb x = CallDismiss" by (cases "timer_cb x") simp
  ultimately show ?thesis using on Some x that(2) by metis
qed

lemma press_inv_quiet:
  "press_inv p \<Longrightarrow>
   press_inv (p\<lparr>press_timers := (press_timers p)\<lparr>clock := c, pending := []\<rparr>, showEasterEgg := b\<rparr>)"
  by (simp add: press_inv_def timers_wf_def)

text \<open>The long press's timeout fires at \<open>d\<close>: \<open>showEasterEgg\<close> is set, and
  if it was not set before App re-renders and the egg starts its dismiss
  timeout at the clock of that render.\<close>

lemma app_press_step:
  assumes "app_inv s" and p: "pending (press_timers (ap_press s)) = [Timer h d None ShowEasterEgg]"
    and pop: "pop_due t (press_timers (ap_press s)) = Some (cb, q)"
  shows "app_inv (app_settle rnd (ap_press s) (s\<lparr>ap_press := press_fire cb ((ap_press s)\<lparr>press_timers := q\<rparr>)\<rparr>))
    \<and> showEasterEgg (ap_press (app_settle rnd (ap_press s) (s\<lparr>ap_press := press_fire cb ((ap_press s)\<lparr>press_timers := q\<rparr>)\<rparr>)))
    \<and> press_timers (ap_press (app_settle rnd (ap_press s) (s\<lparr>ap_press := press_fire cb ((ap_press s)\<lparr>press_timers := q\<rparr>)\<rparr>)))
        = (press_timers (ap_press s))\<lparr>clock := max (clock (press_timers (ap_press s))) d, pending := []\<rparr>
    \<and> (if showEasterEgg (ap_press s)
       then ap_egg (app_settle rnd (ap_press s) (s\<lparr>ap_press := press_fire cb ((ap_press s)\<lparr>press_timers := q\<rparr>)\<rparr>)) = ap_egg s
       else clock (egg_timers (ap_egg (app_settle rnd (ap_press s) (s\<lparr>ap_press := press_fire cb ((ap_press s)\<lparr>press_timers := q\<rparr>)\<rparr>))))
              = max (clock (egg_timers (ap_egg s))) (max (clock (press_timers (ap_press s))) d)
          \<and> map timer_due (pending (egg_timers (ap_egg (app_settle rnd (ap_press s) (s\<lparr>ap_press := press_fire cb ((ap_press s)\<lparr>press_timers := q\<rparr>)\<rparr>)))))
              = [max (clock (egg_timers (ap_egg s))) (max (clock (press_timers (ap_press s))) d) + dismiss_delay])"
proof -
  have dt: "d \<le> t" and cq: "cb = ShowEasterEgg"
    "q = (press_timers (ap_press s))\<lparr>clock := max (clock (press_timers (ap_press s))) d, pending := []\<rparr>"
    using pop by (simp_all add: pop_due_single [OF p] rearm_def split: if_splits)
  let ?p' = "(ap_press s)\<lparr>press_timers := q, showEasterEgg := True\<rparr>"
  have fire: "press_fire cb ((ap_press s)\<lparr>press_timers := q\<rparr>) = ?p'"
    using cq(1) by simp
  have pi: "press_inv ?p'"
    using press_inv_quiet [where p = "ap_press s" and b = True] assms(1) cq(2) by (simp add: app_inv_def)
  have inv: "timers_wf (egg_timers (ap_egg s))" "egg_pre (ap_egg s)"
    using assms(1) by (simp_all add: app_inv_def)
  show ?thesis
  proof (cases "showEasterEgg (ap_press s)")
    case True
    then have "\<not> app_rerenders (ap_press s) ?p'" by (simp add: app_rerenders_def)
    moreover have "app_inv (s\<lparr>ap_press := ?p'\<rparr>)"
      using assms(1) pi True by (simp add: app_inv_def)
    ultimately show ?thesis
      using True by (simp add: cq app_settle_def)
  next
    case False
    then have rr: "app_rerenders (ap_press s) ?p'" by (simp add: app_rerenders_def)
    have "app_inv (app_settle rnd (ap_press s) (s\<lparr>ap_press := ?p'\<rparr>))"
      using pi inv rr by (intro app_inv_settle) simp_all
    moreover have "egg_pre ((ap_egg s)\<lparr>egg_timers := advance_clock (clock q) (egg_timers (ap_egg s))\<rparr>)"
      using inv(2) by (cases "egg_cleanup (ap_egg s)") (simp_all add: egg_pre_def advance_clock_def)
    ultimately show ?thesis
      using False rr by (simp add: cq app_settle_def app_commit_def egg_commit_eq advance_clock_def
          max.commute)
  qed
qed

text \<open>The egg's timeout fires at \<open>e\<close>: \<open>onDismiss\<close> resets \<open>showEasterEgg\<close>, App
  re-renders and the egg's effect runs again, inactive.\<close>

lemma app_egg_step:
  assumes "app_inv s" and p: "pending (egg_timers (ap_egg s)) = [Timer h e None CallDismiss]"
    and pop: "pop_due t (egg_timers (ap_egg s)) = Some (cb, q)"
  shows "app_inv (app_dismiss rnd (s\<lparr>ap_egg := egg_fire cb ((ap_egg s)\<lparr>egg_timers := q\<rparr>)\<rparr>))
    \<and> \<not> showEasterEgg (ap_press (app_dismiss rnd (s\<lparr>ap_egg := egg_fire cb ((ap_egg s)\<lparr>egg_timers := q\<rparr>)\<rparr>)))
    \<and> press_timers (ap_press (app_dismiss rnd (s\<lparr>ap_egg := egg_fire cb ((ap_egg s)\<lparr>egg_timers := q\<rparr>)\<rparr>)))
        = press_timers (ap_press s)
    \<and> pending (egg_timers (ap_egg (app_dismiss rnd (s\<lparr>ap_egg := egg_fire cb ((ap_egg s)\<lparr>egg_timers := q\<rparr>)\<rparr>)))) = []
    \<and> clock (egg_timers (ap_egg (app_dismiss rnd (s\<lparr>ap_egg := egg_fire cb ((ap_egg s)\<lparr>egg_timers := q\<rparr>)\<rparr>))))
        = max (max (clock (egg_timers (ap_egg s))) e) (clock (press_timers (ap_press s)))"
proof -
  have q: "q = (egg_timers (ap_egg s))\<lparr>clock := max (clock (egg_timers (ap_egg s))) e, pending := []\<rparr>"
    using pop by (simp add: pop_due_single [OF p] rearm_def split: if_splits)
  have on: "showEasterEgg (ap_press s)" and cl: "egg_cleanup (ap_egg s) = Some h"
    using assms(1) p by (auto elim: app_inv_egg_cases)
  let ?s1 = "s\<lparr>ap_egg := egg_fire cb ((ap_egg s)\<lparr>egg_timers := q\<rparr>)\<rparr>"
  let ?s2 = "?s1\<lparr>ap_press := (ap_press ?s1)\<lparr>showEasterEgg := False\<rparr>\<rparr>"
  have rr: "app_rerenders (ap_press ?s1) (ap_press ?s2)"
    using on by (simp add: app_rerenders_def)
  have pi: "press_inv (ap_press ?s2)" and wf: "timers_wf (egg_timers (ap_egg ?s2))"
    and pre: "egg_pre (ap_egg ?s2)"
    using assms(1) q cl by (cases cb; simp add: app_inv_def press_inv_def timers_wf_def egg_pre_def)+
  have "app_inv (app_dismiss rnd ?s1)"
    unfolding app_dismiss_def using pi wf pre rr by (intro app_inv_settle) simp_all
  moreover have "egg_pre ((ap_egg ?s2)\<lparr>egg_timers := advance_clock (clock (press_timers (ap_press ?s2))) (egg_timers (ap_egg ?s2))\<rparr>)"
    using q cl by (cases cb) (simp add: egg_pre_def advance_clock_def)
  ultimately show ?thesis
    using rr on q by (cases cb) (simp add: app_dismiss_def app_settle_def app_commit_def egg_commit_eq advance_clock_def)
qed

lemma app_press_pop:
  assumes "app_inv s" and "pop_due t (press_timers (ap_press s)) = Some (cb, q)"
  obtains h d where "pending (press_timers (ap_press s)) = [Timer h d None ShowEasterEgg]" "d \<le> t"
proof -
  have "pending (press_timers (ap_press s)) \<noteq> []"
    using assms(2) by (auto simp: pop_due_def)
  then obtain h d where p: "pending (press_timers (ap_press s)) = [Timer h d None ShowEasterEgg]"
    using press_inv_pending [of "ap_press s"] assms(1) by (auto simp: app_inv_def)
  with assms(2) have "d \<le> t" by (simp add: pop_due_single split: if_splits)
  with p that show ?thesis by blast
qed

lemma app_egg_pop:
  assumes "app_inv s" and "pop_due t (egg_timers (ap_egg s)) = Some (cb, q)"
  obtains h e where "pending (egg_timers (ap_egg s)) = [Timer h e None CallDismiss]" "e \<le> t"
proof -
  have ne: "pending (egg_timers (ap_egg s)) \<noteq> []"
    using assms(2) by (auto simp: pop_due_def)
  from assms(1) obtain h e where p: "pending (egg_timers (ap_egg s)) = [Timer h e None CallDismiss]"
    by (rule app_inv_egg_cases) (use ne in auto)
  with assms(2) have "e \<le> t" by (simp add: pop_due_single split: if_splits)
  with p that show ?thesis by blast
qed

lemma app_inv_advance: "app_inv s \<Longrightarrow> app_inv (app_advance t s)"
  by (cases "egg_cleanup (ap_egg s)")
     (auto simp: app_inv_def app_advance_def advance_clock_def press_inv_def timers_wf_def egg_pre_def)

lemma app_egg_first:
  assumes "app_inv s"
    and "pick (next_due (press_timers (ap_press s))) (next_due (egg_timers (ap_egg s))) t = Some FromEgg"
    and "pending (egg_timers (ap_egg s)) = [Timer h e None CallDismiss]"
  shows "list_all (\<lambda>p. e < timer_due p) (pending (press_timers (ap_press s)))"
proof (cases "pending (press_timers (ap_press s)) = []")
  case False
  then obtain h' d where p: "pending (press_timers (ap_press s)) = [Timer h' d None ShowEasterEgg]"
    using press_inv_pending [of "ap_press s"] assms(1) by (auto simp: app_inv_def)
  show ?thesis
    using pick_EggD [OF assms(2)] next_due_single [OF p] next_due_single [OF assms(3)] p by auto
qed simp

text \<open>The induction rule of the loop: a property of the states between two
  firings that the idle return, the long press's firing and the egg's firing
  preserve (each with what the loop knows at that point) holds when the loop
  returns; the invariant comes along.\<close>

lemma app_run_rule:
  assumes "app_inv s" and "P rnd t s"
    and idle: "\<And>rnd t s. app_inv s \<Longrightarrow> P rnd t s \<Longrightarrow>
        pick (next_due (press_timers (ap_press s))) (next_due (egg_timers (ap_egg s))) t = None \<Longrightarrow>
        P rnd t (app_advance t s)"
    and press: "\<And>rnd t s h d cb q. app_inv s \<Longrightarrow> P rnd t s \<Longrightarrow>
        pending (press_timers (ap_press s)) = [Timer h d None ShowEasterEgg] \<Longrightarrow> d \<le> t \<Longrightarrow>
        pop_due t (press_timers (ap_press s)) = Some (cb, q) \<Longrightarrow>
        P rnd t (app_settle rnd (ap_press s) (s\<lparr>ap_press := press_fire cb ((ap_press s)\<lparr>press_timers := q\<rparr>)\<rparr>))"
    and egg: "\<And>rnd t s h e cb q. app_inv s \<Longrightarrow> P rnd t s \<Longrightarrow>
        list_all (\<lambda>p. e < timer_due p) (pending (press_timers (ap_press s))) \<Longrightarrow>
        pending (egg_timers (ap_egg s)) = [Timer h e None CallDismiss] \<Longrightarrow> e \<le> t \<Longrightarrow>
        pop_due t (egg_timers (ap_egg s)) = Some (cb, q) \<Longrightarrow>
        P rnd t (app_dismiss rnd (s\<lparr>ap_egg := egg_fire cb ((ap_egg s)\<lparr>egg_timers := q\<rparr>)\<rparr>))"
  shows "app_inv (app_run rnd t s) \<and> P rnd t (app_run rnd t s)"
  using assms(1,2)
proof (induction rnd t s rule: app_run.induct)
  case (1 rnd t s)
  let ?a = "next_due (press_timers (ap_press s))" and ?b = "next_due (egg_timers (ap_egg s))"
  show ?case
  proof (cases "pick ?a ?b t")
    case None
    then show ?thesis using "1.prems" idle [OF "1.prems" None] by (simp add: app_run_idle app_inv_advance)
  next
    case (Some src)
    show ?thesis
    proof (cases src)
      case FromPress
      then obtain cb q where p: "pop_due t (press_timers (ap_press s)) = Some (cb, q)"
        using pick_PressD [of ?a ?b t] Some next_due_pop by fastforce
      obtain h d where pd: "pending (press_timers (ap_press s)) = [Timer h d None ShowEasterEgg]" "d \<le> t"
        using "1.prems"(1) p by (rule app_press_pop)
      have "app_inv (app_settle rnd (ap_press s) (s\<lparr>ap_press := press_fire cb ((ap_press s)\<lparr>press_timers := q\<rparr>)\<rparr>))"
        using app_press_step [OF "1.prems"(1) pd(1) p] by blast
      with "1.IH"(1) [OF Some FromPress p refl] press [OF "1.prems" pd p] show ?thesis
        using app_run_press [OF _ p] Some FromPress by simp
    next
      case FromEgg
      then obtain cb q where p: "pop_due t (egg_timers (ap_egg s)) = Some (cb, q)"
        using pick_EggD [of ?a ?b t] Some next_due_pop by fastforce
      obtain h e where pe: "pending (egg_timers (ap_egg s)) = [Timer h e None CallDismiss]" "e \<le> t"
        using "1.prems"(1) p by (rule app_egg_pop)
      have first: "list_all (\<lambda>p. e < timer_due p) (pending (press_timers (ap_press s)))"
        using "1.prems"(1) Some FromEgg pe(1) by (intro app_egg_first) simp_all
      have "app_inv (app_dismiss rnd (s\<lparr>ap_egg := egg_fire cb ((ap_egg s)\<lparr>egg_timers := q\<rparr>)\<rparr>))"
        using app_egg_step [OF "1.prems"(1) pe(1) p] by blast
      with "1.IH"(2) [OF Some FromEgg p refl] egg [OF "1.prems" first pe p] show ?thesis
        using app_run_egg [OF _ p] Some FromEgg by simp
    qed
  qed
qed

lemma app_inv_run: "app_inv s \<Longrightarrow> app_inv (app_run rnd t s)"
  using app_run_rule [where P = "\<lambda>_ _ _. True"] by blast

lemma press_input_show [simp]: "showEasterEgg (press_input ev p) = showEasterEgg p"
  by (cases ev) (simp_all add: handleTouchStart_def handleTouchEnd_def commit_long_press_def
      long_press_cleanup_def split_def Let_def)

lemma app_inv_input: "app_inv s \<Longrightarrow> app_inv (app_input rnd ev s)"
  unfolding app_input_def
  by (rule app_inv_settle) (auto simp: app_inv_def press_inv_input)

lemma app_inv_event: "app_inv s \<Longrightarrow> app_inv (app_timed rnd te s)"
  by (simp add: app_timed_def app_inv_input app_inv_run)

lemma app_inv_trace: "app_inv s \<Longrightarrow> app_inv (app_trace rnd tes s)"
  by (induction tes arbitrary: s) (simp_all add: app_trace_def app_inv_event)

lemma app_inv_init: "app_inv app_init"
  using press_inv_init
  by (simp add: app_inv_def app_init_def egg_init_def timers_init_def egg_pre_def timers_wf_def press_init_def)

subsection \<open>Every easter egg is dismissed in time\<close>

lemma app_calm_run:
  assumes "app_inv s" and "app_calm B s" and "t + long_press_delay + dismiss_delay \<le> B"
  shows "app_calm B (app_run rnd t s)"
proof -
  have "app_inv (app_run rnd t s) \<and>
    (t + long_press_delay + dismiss_delay \<le> B \<longrightarrow> app_calm B (app_run rnd t s))"
  proof (rule app_run_rule [where P = "\<lambda>_ t s. t + long_press_delay + dismiss_delay \<le> B \<longrightarrow> app_calm B s"])
    fix rnd t s h d cb q
    assume "app_inv s" and "t + long_press_delay + dismiss_delay \<le> B \<longrightarrow> app_calm B s"
      and "pending (press_timers (ap_press s)) = [Timer h d None ShowEasterEgg]" and "d \<le> t"
      and "pop_due t (press_timers (ap_press s)) = Some (cb, q)"
    with app_press_step [of s h d t cb q rnd]
    show "t + long_press_delay + dismiss_delay \<le> B \<longrightarrow>
      app_calm B (app_settle rnd (ap_press s) (s\<lparr>ap_press := press_fire cb ((ap_press s)\<lparr>press_timers := q\<rparr>)\<rparr>))"
      by (cases "showEasterEgg (ap_press s)") (auto simp: app_calm_def app_horizon_def)
  next
    fix rnd t s h e cb q
    assume "app_inv s" and "t + long_press_delay + dismiss_delay \<le> B \<longrightarrow> app_calm B s"
      and "pending (egg_timers (ap_egg s)) = [Timer h e None CallDismiss]" and "e \<le> t"
      and "pop_due t (egg_timers (ap_egg s)) = Some (cb, q)"
    with app_egg_step [of s h e t cb q rnd]
    show "t + long_press_delay + dismiss_delay \<le> B \<longrightarrow>
      app_calm B (app_dismiss rnd (s\<lparr>ap_egg := egg_fire cb ((ap_egg s)\<lparr>egg_timers := q\<rparr>)\<rparr>))"
      by (auto simp: app_calm_def app_horizon_def)
  qed (use assms in \<open>auto simp: app_calm_def app_horizon_def max_def\<close>)
  with assms(3) show ?thesis by blast
qed

lemma app_commit_press [simp]: "ap_press (app_commit rnd s) = ap_press s"
  by (simp add: app_commit_def)

lemma app_settle_press [simp]: "ap_press (app_settle rnd old s) = ap_press s"
  by (simp add: app_settle_def)

text \<open>A commit synchronises the egg's clock with App's and leaves at most the
  new dismiss timeout, due 5000 ms later.\<close>

lemma app_commit_egg:
  assumes "egg_pre (ap_egg s)"
  shows "clock (egg_timers (ap_egg (app_commit rnd s)))
       = max (clock (egg_timers (ap_egg s))) (clock (press_timers (ap_press s))) \<and>
     list_all (\<lambda>e. timer_due e = max (clock (egg_timers (ap_egg s))) (clock (press_timers (ap_press s))) + dismiss_delay)
       (pending (egg_timers (ap_egg (app_commit rnd s))))"
  using egg_pre_advance [OF assms] by (simp add: app_commit_def egg_commit_eq advance_clock_def)

lemma app_settle_egg:
  assumes "egg_pre (ap_egg s)"
  shows "ap_egg (app_settle rnd old s) = ap_egg s \<or>
    (clock (egg_timers (ap_egg (app_settle rnd old s)))
       = max (clock (egg_timers (ap_egg s))) (clock (press_timers (ap_press s))) \<and>
     list_all (\<lambda>e. timer_due e = max (clock (egg_timers (ap_egg s))) (clock (press_timers (ap_press s))) + dismiss_delay)
       (pending (egg_timers (ap_egg (app_settle rnd old s)))))"
  using app_commit_egg [OF assms, of rnd] by (simp add: app_settle_def)

lemma app_inv_commit_inv: "app_inv s \<Longrightarrow> app_inv (app_commit rnd s)"
  by (rule app_inv_commit) (simp_all add: app_inv_def)

lemma app_calm_commit:
  assumes "app_inv s" and "app_calm B s"
  shows "app_calm B (app_commit rnd s)"
proof -
  have "egg_pre (ap_egg s)" using assms(1) by (simp add: app_inv_def)
  from app_commit_egg [OF this, of rnd] assms(2) show ?thesis
    by (auto simp: app_calm_def app_horizon_def list_all_iff)
qed

lemma press_input_timers:
  assumes "press_inv p"
  shows "clock (press_timers (press_input ev p)) = clock (press_timers p) \<and>
    list_all (\<lambda>e. timer_due e = clock (press_timers p) + long_press_delay) (pending (press_timers (press_input ev p)))"
  by (cases ev) (simp_all add: handleTouchStart_closed [OF assms] handleTouchEnd_closed [OF assms])

lemma app_calm_input:
  assumes "app_inv s" and "app_calm B s"
  shows "app_calm B (app_input rnd ev s)"
proof -
  let ?s1 = "s\<lparr>ap_press := press_input ev (ap_press s)\<rparr>"
  have pre: "egg_pre (ap_egg ?s1)" and pi: "press_inv (ap_press s)"
    using assms(1) by (simp_all add: app_inv_def)
  note pt = press_input_timers [OF pi, of ev]
  from app_settle_egg [OF pre, of rnd "ap_press s"] pt assms(2) show ?thesis
    by (auto simp: app_input_def app_calm_def app_horizon_def list_all_iff)
qed

text \<open>The egg's timeout fires before a pending long press's only if it is due
  strictly earlier.\<close>

lemma app_horizon_run:
  assumes "app_inv s" and "app_horizon B s"
  shows "app_horizon B (app_run rnd t s)"
proof -
  have "app_inv (app_run rnd t s) \<and> app_horizon B (app_run rnd t s)"
  proof (rule app_run_rule [where P = "\<lambda>_ _. app_horizon B"])
    fix rnd t s
    assume "app_horizon B s"
      and "pick (next_due (press_timers (ap_press s))) (next_due (egg_timers (ap_egg s))) t = None"
    then have "list_all (\<lambda>e. t < timer_due e) (pending (press_timers (ap_press s)))"
      using pick_NoneD quiet_next_due by blast
    with \<open>app_horizon B s\<close> show "app_horizon B (app_advance t s)"
      by (cases "pending (press_timers (ap_press s))") (auto simp: app_horizon_def)
  next
    fix rnd t s h d cb q
    assume "app_inv s" and "app_horizon B s"
      and "pending (press_timers (ap_press s)) = [Timer h d None ShowEasterEgg]" and "d \<le> t"
      and "pop_due t (press_timers (ap_press s)) = Some (cb, q)"
    with app_press_step [of s h d t cb q rnd]
    show "app_horizon B (app_settle rnd (ap_press s) (s\<lparr>ap_press := press_fire cb ((ap_press s)\<lparr>press_timers := q\<rparr>)\<rparr>))"
      by (cases "showEasterEgg (ap_press s)") (auto simp: app_horizon_def)
  next
    fix rnd t s h e cb q
    assume "app_inv s" and "app_horizon B s"
      and "list_all (\<lambda>p. e < timer_due p) (pending (press_timers (ap_press s)))"
      and "pending (egg_timers (ap_egg s)) = [Timer h e None CallDismiss]" and "e \<le> t"
      and "pop_due t (egg_timers (ap_egg s)) = Some (cb, q)"
    with app_egg_step [of s h e t cb q rnd]
    show "app_horizon B (app_dismiss rnd (s\<lparr>ap_egg := egg_fire cb ((ap_egg s)\<lparr>egg_timers := q\<rparr>)\<rparr>))"
      by (cases "pending (press_timers (ap_press s))") (auto simp: app_horizon_def)
  qed (use assms in auto)
  then show ?thesis by blast
qed

lemma app_calm_trace:
  "app_inv s \<Longrightarrow> app_calm B s \<Longrightarrow> list_all (\<lambda>te. fst te + long_press_delay + dismiss_delay \<le> B) tes \<Longrightarrow>
   app_calm B (app_trace rnd tes s)"
proof (induction tes arbitrary: s)
  case (Cons te tes)
  have "app_calm B (app_timed rnd te s)"
    using app_calm_input [OF app_inv_run [OF Cons.prems(1)] app_calm_run [OF Cons.prems(1,2)]] Cons.prems(3)
    by (simp add: app_timed_def)
  with Cons.IH [OF app_inv_event [OF Cons.prems(1)]] Cons.prems(3) show ?case
    by (simp add: app_trace_def)
qed (simp add: app_trace_def)

lemma list_all_contra_Nil:
  "list_all P xs \<Longrightarrow> list_all Q xs \<Longrightarrow> (\<And>x. P x \<Longrightarrow> Q x \<Longrightarrow> False) \<Longrightarrow> xs = []"
  by (cases xs) auto

lemma pick_quiet:
  assumes "list_all (\<lambda>e. t < timer_due e) (pending p)" and "list_all (\<lambda>e. t < timer_due e) (pending q)"
  shows "pick (next_due p) (next_due q) t = None"
proof -
  have "\<forall>d. next_due p = Some d \<longrightarrow> t < d" "\<forall>d. next_due q = Some d \<longrightarrow> t < d"
    using assms by (auto simp: next_due_def list_all_iff dest!: earliest_in)
  then show ?thesis
    by (cases "next_due p"; cases "next_due q") auto
qed

text \<open>From a calm state the loop, run to the horizon, leaves the egg dismissed and
  no timer of either component.\<close>

lemma app_calm_dismissed:
  assumes "app_inv s" and "app_calm B s" and "B \<le> T"
  shows "\<not> showEasterEgg (ap_press (app_run rnd T s)) \<and>
    pending (press_timers (ap_press (app_run rnd T s))) = [] \<and>
    pending (egg_timers (ap_egg (app_run rnd T s))) = []"
proof -
  let ?r = "app_run rnd T s"
  have "app_horizon B s" using assms(2) by (simp add: app_calm_def)
  note h = app_horizon_run [OF assms(1) this, of rnd T, unfolded app_horizon_def, THEN conjunct1]
    app_horizon_run [OF assms(1) this, of rnd T, unfolded app_horizon_def, THEN conjunct2, THEN conjunct1]
  have q: "list_all (\<lambda>e. T < timer_due e) (pending (press_timers (ap_press ?r)))"
    "list_all (\<lambda>e. T < timer_due e) (pending (egg_timers (ap_egg ?r)))"
    using app_run_quiet by blast+
  have "pending (press_timers (ap_press ?r)) = []"
    using list_all_contra_Nil [OF h(1) q(1)] assms(3) by simp
  moreover have "pending (egg_timers (ap_egg ?r)) = []"
    using list_all_contra_Nil [OF h(2) q(2)] assms(3) by simp
  moreover have "app_inv ?r" by (rule app_inv_run [OF assms(1)])
  ultimately show ?thesis by (simp add: app_inv_def)
qed

lemma app_calm_init: "app_calm (c + long_press_delay + dismiss_delay) app_init"
  by (simp add: app_calm_def app_horizon_def app_init_def press_init_def egg_init_def timers_init_def)

subsection \<open>Properties of the composition\<close>

text \<open>Liveness of the easter egg in the shell alone: however the user touched the page
  before time \<open>c\<close>, by \<open>c + 8000\<close> ms the easter egg has been dismissed and
  no timer of the long press or of the egg is left: a long press started by
  \<open>c\<close> fires by \<open>c + 3000\<close>, and the dismiss timeout of the last render that
  sees the egg active fires 5000 ms after that render.\<close>

theorem egg_eventually_dismissed:
  assumes "list_all (\<lambda>te. fst te \<le> c) tes" and "c + long_press_delay + dismiss_delay \<le> T"
  shows "\<not> showEasterEgg (ap_press (app_run rnd T (app_trace rnd tes app_init))) \<and>
    pending (press_timers (ap_press (app_run rnd T (app_trace rnd tes app_init)))) = [] \<and>
    pending (egg_timers (ap_egg (app_run rnd T (app_trace rnd tes app_init)))) = []"
proof -
  have "app_calm (c + long_press_delay + dismiss_delay) (app_trace rnd tes app_init)"
    using assms(1) by (intro app_calm_trace [OF app_inv_init app_calm_init]) (auto simp: list_all_iff)
  from app_calm_dismissed [OF app_inv_trace [OF app_inv_init] this assms(2)] show ?thesis .
qed

text \<open>Claim C25. The well-formedness of the composed App in every reachable
  state: the long press's invariant (theory \<open>LongPress\<close>) holds, the egg's
  timer queue is well formed, every pending dismiss timeout is the one-shot
  timeout of the last commit, and one is pending exactly while
  \<open>showEasterEgg\<close> is set.\<close>

theorem app_shell_wf: "app_inv (app_trace rnd tes app_init)"
  by (rule app_inv_trace [OF app_inv_init])

text \<open>A long press of 3 s at time 0, released at 4 s: the egg shows from 3 s
  on; App re-renders at the release and the egg's timeout restarts then, so
  it is dismissed at 9 s, not 8 s.\<close>

theorem egg_eventually_dismissed_witness:
  "list_all (\<lambda>te. fst te \<le> (4000::nat)) [(0, TouchStart), (4000, TouchEnd)] \<and>
   (4000::nat) + long_press_delay + dismiss_delay \<le> 12000 \<and>
   \<not> showEasterEgg (ap_press (app_run (\<lambda>_. 0) 12000 (app_trace (\<lambda>_. 0) [(0, TouchStart), (4000, TouchEnd)] app_init)))"
  using egg_eventually_dismissed [of 4000 "[(0, TouchStart), (4000, TouchEnd)]" 12000 "\<lambda>_. 0"]
  by (simp add: long_press_delay_def dismiss_delay_def)

theorem app_shell_wf_witness:
  "app_inv (app_trace (\<lambda>_. 0) [(0, TouchStart), (3000, TouchEnd)] app_init)"
  by (rule app_shell_wf)

end
