(* ===== verification/AppScenes.thy ===== *)
theory AppScenes
  imports AppShell Sequencer
begin

text \<open>
  The whole of \<open>src/src/app/App.tsx\<close>: the scene sequencer (theory
  \<open>Sequencer\<close>) and the long press with its easter egg (theory \<open>AppShell\<close>)
  in one state. The scenes reach App only through their \<open>onComplete\<close> and
  \<open>onReplay\<close> calls, which are inputs here, timed like the pointer events;
  their own timers and renders are in their theories. A call that changes
  \<open>currentScene\<close> re-renders App, and every render of App commits the easter
  egg's effect again (its \<open>onDismiss\<close> is a new inline function); the end of
  an exit animation re-renders only \<open>AnimatePresence\<close>, not App.
\<close>

record full_app =
  fa_shell :: app
  fa_scenes :: presence

definition full_init :: full_app where
  "full_init = \<lparr>fa_shell = app_init, fa_scenes = presence_init\<rparr>"

text \<open>The inputs of App: a pointer event on the root \<open>div\<close>, or a call of a
  scene's callback (a call that no mounted scene can make does not occur, and
  changes nothing).\<close>

datatype full_in = Pointer pointer_event | SceneCall app_event

definition full_scene :: "(nat \<Rightarrow> real) \<Rightarrow> app_event \<Rightarrow> full_app \<Rightarrow> full_app" where
  "full_scene rnd e s =
     (case present_step e (fa_scenes s) of
        None \<Rightarrow> s
      | Some p \<Rightarrow>
          s\<lparr>fa_scenes := p,
            fa_shell := (if currentScene p \<noteq> currentScene (fa_scenes s)
                         then app_commit rnd (fa_shell s) else fa_shell s)\<rparr>)"

definition full_input :: "(nat \<Rightarrow> real) \<Rightarrow> full_in \<Rightarrow> full_app \<Rightarrow> full_app" where
  "full_input rnd i s =
     (case i of
        Pointer ev \<Rightarrow> s\<lparr>fa_shell := app_input rnd ev (fa_shell s)\<rparr>
      | SceneCall e \<Rightarrow> full_scene rnd e s)"

text \<open>An input at time \<open>t\<close>: the event loop first runs the timers due by \<open>t\<close>.\<close>

definition full_event :: "(nat \<Rightarrow> real) \<Rightarrow> ms \<times> full_in \<Rightarrow> full_app \<Rightarrow> full_app" where
  "full_event rnd te s = full_input rnd (snd te) (s\<lparr>fa_shell := app_run rnd (fst te) (fa_shell s)\<rparr>)"

definition full_trace :: "(nat \<Rightarrow> real) \<Rightarrow> (ms \<times> full_in) list \<Rightarrow> full_app \<Rightarrow> full_app" where
  "full_trace rnd tes s = fold (full_event rnd) tes s"

text \<open>The scene calls of a timed input sequence, in order.\<close>

fun scene_calls :: "(ms \<times> full_in) list \<Rightarrow> app_event list" where
  "scene_calls [] = []"
| "scene_calls ((t, SceneCall e) # tes) = e # scene_calls tes"
| "scene_calls ((t, Pointer ev) # tes) = scene_calls tes"

subsection \<open>Each input acts on one part\<close>

lemma full_event_shell:
  obtains ev where "fa_shell (full_event rnd te s) = app_input rnd ev (app_run rnd (fst te) (fa_shell s))"
  | "fa_shell (full_event rnd te s) = app_commit rnd (app_run rnd (fst te) (fa_shell s))"
  | "fa_shell (full_event rnd te s) = app_run rnd (fst te) (fa_shell s)"
proof (cases "snd te")
  case (Pointer ev)
  then show ?thesis by (intro that(1) [of ev]) (simp add: full_event_def full_input_def)
next
  case (SceneCall e)
  note d = full_event_def full_input_def full_scene_def SceneCall
  show ?thesis
  proof (cases "present_step e (fa_scenes s)")
    case None
    then show ?thesis by (intro that(3)) (simp add: d)
  next
    case (Some p)
    then show ?thesis
      by (cases "currentScene p = currentScene (fa_scenes s)") (simp_all add: d that(2,3))
  qed
qed

lemma full_event_scenes:
  "fa_scenes (full_event rnd te s) =
     (case snd te of
        Pointer ev \<Rightarrow> fa_scenes s
      | SceneCall e \<Rightarrow> (case present_step e (fa_scenes s) of None \<Rightarrow> fa_scenes s | Some p \<Rightarrow> p))"
  by (simp add: full_event_def full_input_def full_scene_def split: full_in.split option.split)

lemma full_inv_trace: "app_inv (fa_shell s) \<Longrightarrow> app_inv (fa_shell (full_trace rnd tes s))"
proof (induction tes arbitrary: s)
  case (Cons te tes)
  have r: "app_inv (app_run rnd (fst te) (fa_shell s))" by (rule app_inv_run [OF Cons.prems])
  have "app_inv (fa_shell (full_event rnd te s))"
    by (rule full_event_shell [of rnd te s]) (simp_all add: r app_inv_input app_inv_commit_inv)
  with Cons.IH show ?case by (simp add: full_trace_def)
qed (simp add: full_trace_def)

lemma full_calm_trace:
  "app_inv (fa_shell s) \<Longrightarrow> app_calm B (fa_shell s) \<Longrightarrow>
   list_all (\<lambda>te. fst te + long_press_delay + dismiss_delay \<le> B) tes \<Longrightarrow>
   app_calm B (fa_shell (full_trace rnd tes s))"
proof (induction tes arbitrary: s)
  case (Cons te tes)
  have i: "app_inv (app_run rnd (fst te) (fa_shell s))" by (rule app_inv_run [OF Cons.prems(1)])
  have c: "app_calm B (app_run rnd (fst te) (fa_shell s))"
    using app_calm_run [OF Cons.prems(1,2)] Cons.prems(3) by simp
  have "app_calm B (fa_shell (full_event rnd te s))"
    by (rule full_event_shell [of rnd te s]) (simp_all add: c app_calm_input [OF i] app_calm_commit [OF i])
  moreover have "app_inv (fa_shell (full_event rnd te s))"
    by (rule full_event_shell [of rnd te s]) (simp_all add: i app_inv_input app_inv_commit_inv)
  ultimately show ?case
    using Cons.IH Cons.prems(3) by (simp add: full_trace_def)
qed (simp add: full_trace_def)

lemma full_scenes_trace:
  "present_run (scene_calls tes) (fa_scenes s) = Some p \<Longrightarrow> fa_scenes (full_trace rnd tes s) = p"
proof (induction tes arbitrary: s)
  case (Cons te tes)
  obtain t i where te: "te = (t, i)" by (cases te)
  show ?case
  proof (cases i)
    case (Pointer ev)
    with Cons.prems have "present_run (scene_calls tes) (fa_scenes (full_event rnd te s)) = Some p"
      by (simp add: te full_event_scenes)
    then show ?thesis using Cons.IH by (simp add: full_trace_def)
  next
    case (SceneCall e)
    have "present_run (e # scene_calls tes) (fa_scenes s) = Some p"
      using Cons.prems unfolding te SceneCall scene_calls.simps .
    from present_run_Cons_Some [OF this] obtain p1 where "present_step e (fa_scenes s) = Some p1"
      and "present_run (scene_calls tes) p1 = Some p" by blast
    then have "present_run (scene_calls tes) (fa_scenes (full_event rnd te s)) = Some p"
      by (simp add: te SceneCall full_event_scenes)
    then show ?thesis using Cons.IH by (simp add: full_trace_def)
  qed
qed (simp add: full_trace_def)

text \<open>A scene change while the easter egg is shown re-commits its effect: the
  dismiss timeout is restarted, 5000 ms from the change.\<close>

lemma scene_change_restarts_dismiss:
  assumes "app_inv (fa_shell s)" and "showEasterEgg (ap_press (fa_shell s))"
    and "present_step e (fa_scenes s) = Some p" and "currentScene p \<noteq> currentScene (fa_scenes s)"
  shows "map timer_due (pending (egg_timers (ap_egg (fa_shell (full_scene rnd e s)))))
    = [max (clock (egg_timers (ap_egg (fa_shell s)))) (clock (press_timers (ap_press (fa_shell s)))) + dismiss_delay]"
proof -
  have "egg_pre (ap_egg (fa_shell s))" using assms(1) by (simp add: app_inv_def)
  note pre = egg_pre_advance [OF this, of "clock (press_timers (ap_press (fa_shell s)))", unfolded advance_clock_def]
  from assms(2-4) show ?thesis
    by (simp add: full_scene_def app_commit_def advance_clock_def egg_commit_eq [OF pre])
qed

subsection \<open>Properties of the whole App\<close>

text \<open>Claim C24 (liveness). Liveness of the easter egg in the whole App: however
  the user touched the page and the scenes called back before time \<open>c\<close>,
  by \<open>c + 8000\<close> ms the easter egg has been dismissed and no timer of the long
  press or of the egg is left. A long press started by \<open>c\<close> fires by
  \<open>c + 3000\<close>; each render of App that sees the egg active, including the
  re-render of a scene change, restarts the 5000 ms dismiss timeout, and the
  last of them is no later than the long press's or \<open>c\<close>.\<close>

theorem full_egg_dismissed:
  assumes "list_all (\<lambda>te. fst te \<le> c) tes" and "c + long_press_delay + dismiss_delay \<le> T"
  shows "\<not> showEasterEgg (ap_press (app_run rnd T (fa_shell (full_trace rnd tes full_init)))) \<and>
    pending (press_timers (ap_press (app_run rnd T (fa_shell (full_trace rnd tes full_init))))) = [] \<and>
    pending (egg_timers (ap_egg (app_run rnd T (fa_shell (full_trace rnd tes full_init))))) = []"
proof -
  have i: "app_inv (fa_shell full_init)" "app_calm (c + long_press_delay + dismiss_delay) (fa_shell full_init)"
    by (simp_all add: full_init_def app_inv_init app_calm_init)
  have "app_calm (c + long_press_delay + dismiss_delay) (fa_shell (full_trace rnd tes full_init))"
    using assms(1) by (intro full_calm_trace [OF i]) (auto simp: list_all_iff)
  from app_calm_dismissed [OF full_inv_trace [OF i(1)] this assms(2)] show ?thesis .
qed

theorem full_egg_dismissed_witness:
  "list_all (\<lambda>te. fst te \<le> (4000::nat)) [(0, Pointer TouchStart), (3500, SceneCall CompleteLive), (4000, Pointer TouchEnd)] \<and>
   (4000::nat) + long_press_delay + dismiss_delay \<le> 12000 \<and>
   \<not> showEasterEgg (ap_press (app_run (\<lambda>_. 0) 12000
       (fa_shell (full_trace (\<lambda>_. 0) [(0, Pointer TouchStart), (3500, SceneCall CompleteLive), (4000, Pointer TouchEnd)] full_init))))"
  using full_egg_dismissed [of 4000 "[(0, Pointer TouchStart), (3500, SceneCall CompleteLive), (4000, Pointer TouchEnd)]" 12000 "\<lambda>_. 0"]
  by (simp add: long_press_delay_def dismiss_delay_def)

end
