(* ===== verification/SceneRoots.thy ===== *)
theory SceneRoots
  imports Sequencer Complex_Main
begin

text \<open>
  The root element of each scene and its animated background, as the six
  scene files write them: whether the root is a \<open>motion.div\<close>, whether it
  fades in (\<open>initial={{ opacity: 0 }}\<close>, \<open>animate={{ opacity: 1 }}\<close>), its
  \<open>exit\<close> prop (target opacity and scale) and its transition's duration; and
  the background layer's gradient keyframes, the length of one cycle
  (\<open>repeat: Infinity\<close>) and its easing. \<open>AnimatePresence\<close> keeps a leaving
  child rendered only when its root has an \<open>exit\<close> prop, which is what the
  sequencer's table \<open>has_exit_animation\<close> records; the lemma below checks
  the exiting scenes of the sequencer's reachable states against the roots.
\<close>

record scene_root =
  root_motion :: bool
  root_fade_in :: bool
  root_exit :: "(real \<times> real option) option"
  root_duration :: "real option"

datatype ease = EaseDefault | EaseLinear

record backdrop =
  bd_gradients :: "string list"
  bd_cycle :: "real option"   \<comment> \<open>seconds per cycle; \<open>None\<close> for a static layer\<close>
  bd_ease :: ease

subsection \<open>The roots\<close>

text \<open>Scene1Intro.tsx: \<open><div className="fixed inset-0 overflow-hidden">\<close>.\<close>

definition intro_root :: scene_root where
  "intro_root = \<lparr>root_motion = False, root_fade_in = False, root_exit = None, root_duration = None\<rparr>"

definition journey_root :: scene_root where
  "journey_root = \<lparr>root_motion = True, root_fade_in = True, root_exit = Some (0, None), root_duration = Some 0.8\<rparr>"

definition gift_root :: scene_root where
  "gift_root = \<lparr>root_motion = True, root_fade_in = True, root_exit = Some (0, Some 1.5), root_duration = Some 0.8\<rparr>"

definition universe_root :: scene_root where
  "universe_root = \<lparr>root_motion = True, root_fade_in = True, root_exit = Some (0, None), root_duration = None\<rparr>"

definition timeline_root :: scene_root where
  "timeline_root = \<lparr>root_motion = True, root_fade_in = True, root_exit = Some (0, None), root_duration = None\<rparr>"

text \<open>Scene6Finale.tsx: fades in over 1 s and has no \<open>exit\<close> prop.\<close>

definition finale_root :: scene_root where
  "finale_root = \<lparr>root_motion = True, root_fade_in = True, root_exit = None, root_duration = Some 1\<rparr>"

fun scene_root_of :: "scene \<Rightarrow> scene_root" where
  "scene_root_of Intro = intro_root"
| "scene_root_of PhotoJourney = journey_root"
| "scene_root_of GiftBox = gift_root"
| "scene_root_of MemoryUniverse = universe_root"
| "scene_root_of Timeline = timeline_root"
| "scene_root_of Finale = finale_root"

subsection \<open>The backgrounds\<close>

definition intro_backdrop :: backdrop where
  "intro_backdrop =
     \<lparr>bd_gradients =
        [''linear-gradient(135deg, #E8B4B8 0%, #F5E6D3 50%, #FFD4E5 100%)'',
         ''linear-gradient(135deg, #FFD4E5 0%, #E8B4B8 50%, #F5E6D3 100%)'',
         ''linear-gradient(135deg, #F5E6D3 0%, #FFD4E5 50%, #E8B4B8 100%)'',
         ''linear-gradient(135deg, #E8B4B8 0%, #F5E6D3 50%, #FFD4E5 100%)''],
      bd_cycle = Some 10, bd_ease = EaseLinear\<rparr>"

definition journey_backdrop :: backdrop where
  "journey_backdrop =
     \<lparr>bd_gradients =
        [''linear-gradient(135deg, #E8B4B8 0%, #F5E6D3 50%, #FFD4E5 100%)'',
         ''linear-gradient(135deg, #F5E6D3 0%, #FFD4E5 50%, #FFC1D9 100%)'',
         ''linear-gradient(135deg, #FFD4E5 0%, #FFC1D9 50%, #E8B4B8 100%)'',
         ''linear-gradient(135deg, #E8B4B8 0%, #F5E6D3 50%, #FFD4E5 100%)''],
      bd_cycle = Some 12, bd_ease = EaseLinear\<rparr>"

definition gift_backdrop :: backdrop where
  "gift_backdrop =
     \<lparr>bd_gradients =
        [''linear-gradient(135deg, #667eea 0%, #764ba2 100%)'',
         ''linear-gradient(135deg, #764ba2 0%, #f093fb 100%)'',
         ''linear-gradient(135deg, #f093fb 0%, #667eea 100%)'',
         ''linear-gradient(135deg, #667eea 0%, #764ba2 100%)''],
      bd_cycle = Some 8, bd_ease = EaseDefault\<rparr>"

text \<open>Scene4MemoryUniverse.tsx: a static Tailwind gradient, no animation.\<close>

definition universe_backdrop :: backdrop where
  "universe_backdrop =
     \<lparr>bd_gradients = [''bg-gradient-to-b from-indigo-950 via-purple-950 to-indigo-950''],
      bd_cycle = None, bd_ease = EaseDefault\<rparr>"

definition timeline_backdrop :: backdrop where
  "timeline_backdrop =
     \<lparr>bd_gradients =
        [''linear-gradient(180deg, #ffeef8 0%, #ffe5f3 100%)'',
         ''linear-gradient(180deg, #ffe5f3 0%, #ffd4ec 100%)'',
         ''linear-gradient(180deg, #ffd4ec 0%, #ffeef8 100%)''],
      bd_cycle = Some 10, bd_ease = EaseDefault\<rparr>"

definition finale_backdrop :: backdrop where
  "finale_backdrop =
     \<lparr>bd_gradients =
        [''linear-gradient(135deg, #667eea 0%, #764ba2 50%, #f093fb 100%)'',
         ''linear-gradient(135deg, #f093fb 0%, #f5576c 50%, #667eea 100%)'',
         ''linear-gradient(135deg, #667eea 0%, #764ba2 50%, #f093fb 100%)''],
      bd_cycle = Some 15, bd_ease = EaseDefault\<rparr>"

fun scene_backdrop :: "scene \<Rightarrow> backdrop" where
  "scene_backdrop Intro = intro_backdrop"
| "scene_backdrop PhotoJourney = journey_backdrop"
| "scene_backdrop GiftBox = gift_backdrop"
| "scene_backdrop MemoryUniverse = universe_backdrop"
| "scene_backdrop Timeline = timeline_backdrop"
| "scene_backdrop Finale = finale_backdrop"

text \<open>A repeating keyframe animation restarts from its first keyframe; it
  loops without a jump when the last keyframe is the first.\<close>

definition seamless :: "backdrop \<Rightarrow> bool" where
  "seamless b \<longleftrightarrow> bd_cycle b = None \<or> (bd_gradients b \<noteq> [] \<and> last (bd_gradients b) = hd (bd_gradients b))"

text \<open>The finale's message block (Scene6Finale.tsx): it rises 30 px and fades
  in over 1 s, after 2.5 s.\<close>

record entrance =
  en_offset_y :: real
  en_delay :: real
  en_duration :: real

definition finale_message_entrance :: entrance where
  "finale_message_entrance = \<lparr>en_offset_y = -30, en_delay = 2.5, en_duration = 1\<rparr>"

lemmas scene_root_defs = intro_root_def journey_root_def gift_root_def universe_root_def
  timeline_root_def finale_root_def

lemmas scene_backdrop_defs = intro_backdrop_def journey_backdrop_def gift_backdrop_def
  universe_backdrop_def timeline_backdrop_def finale_backdrop_def

subsection \<open>Properties of the roots\<close>

text \<open>Every scene but the intro fades in; only the gift box grows as it leaves.\<close>

lemma scene_roots_fade:
  "root_fade_in (scene_root_of sc) \<longleftrightarrow> sc \<noteq> Intro"
  "(\<exists>x. root_exit (scene_root_of sc) = Some (x, Some 1.5)) \<longleftrightarrow> sc = GiftBox"
  by (cases sc; simp add: scene_root_defs)+

text \<open>Every background loops without a jump except the timeline's, whose last
  keyframe is not its first: it jumps back every 10 s.\<close>

lemma backdrop_seamless: "seamless (scene_backdrop sc) \<longleftrightarrow> sc \<noteq> Timeline"
  by (cases sc) (simp_all add: seamless_def scene_backdrop_defs)

text \<open>In every reachable state of the sequencer, the scene kept as exiting has
  an \<open>exit\<close> prop on its root.\<close>

lemma exiting_root_has_exit:
  assumes "present_reach s" and "exiting s = Some sc"
  shows "root_exit (scene_root_of sc) \<noteq> None"
  using assms
proof (induction arbitrary: sc rule: present_reach.induct)
  case init
  then show ?case by (simp add: presence_init_def)
next
  case (step s e s')
  then show ?case
    by (cases e; cases sc)
       (auto simp: leave_def scene_root_defs split: option.splits prod.splits if_splits scene.splits)
qed

end
