(* ===== verification/Decor.thy ===== *)
theory Decor
  imports Prelude Complex_Main
begin

text \<open>
  The decorative particle components \<open>src/src/app/components/RosePetals.tsx\<close>
  and \<open>src/src/app/components/SparkleEffect.tsx\<close>. Each keeps a list of
  particles in its state, empty at the first render; an effect with
  dependencies \<open>[count]\<close> draws \<open>count\<close> particles with \<open>Math.random()\<close> (an
  injected function \<open>rnd\<close>, indexed by the order of the calls) on mount and
  whenever \<open>count\<close> changes; the render maps each particle to an endlessly
  repeating animation. A commit is the component's event: it carries the
  \<open>count\<close> of that render and the random values the effect would draw.
\<close>

subsection \<open>Rose petals\<close>

record petal =
  petal_id :: nat
  petal_x :: real
  petal_delay :: real
  petal_duration :: real
  petal_rotation :: real
  petal_size :: real

text \<open>The component's state, and the \<open>count\<close> its effect last ran with (\<open>None\<close>
  before the first commit).\<close>

record petals_state =
  petals :: "petal list"
  petals_deps :: "nat option"

definition petals_init :: petals_state where
  "petals_init = \<lparr>petals = [], petals_deps = None\<rparr>"

definition new_petals :: "nat \<Rightarrow> (nat \<Rightarrow> real) \<Rightarrow> petal list" where
  "new_petals count rnd =
     map (\<lambda>i. \<lparr>petal_id = i, petal_x = rnd (5 * i) * 100, petal_delay = rnd (5 * i + 1) * 3,
               petal_duration = 5 + rnd (5 * i + 2) * 3, petal_rotation = rnd (5 * i + 3) * 360,
               petal_size = 20 + rnd (5 * i + 4) * 20\<rparr>) [0..<count]"

definition petals_commit :: "nat \<Rightarrow> (nat \<Rightarrow> real) \<Rightarrow> petals_state \<Rightarrow> petals_state" where
  "petals_commit count rnd s =
     (if petals_deps s = Some count then s
      else \<lparr>petals = new_petals count rnd, petals_deps = Some count\<rparr>)"

text \<open>What a petal renders: its position (\<open>left\<close> in %, \<open>top\<close> \<open>-10%\<close>), the
  keyframes of \<open>y\<close> (in vh), \<open>x\<close> (in px), \<open>rotate\<close> and \<open>opacity\<close>, the
  transition's duration and delay, and the size of the inner disc.\<close>

record petal_frame =
  pf_left :: real
  pf_top :: real
  pf_y :: "real list"
  pf_x :: "real list"
  pf_rotate :: "real list"
  pf_opacity :: "real list"
  pf_duration :: real
  pf_delay :: real
  pf_size :: real

definition petal_view :: "petal \<Rightarrow> petal_frame" where
  "petal_view p =
     \<lparr>pf_left = petal_x p, pf_top = -10, pf_y = [0, 110], pf_x = [0, sin (real (petal_id p)) * 50, 0],
      pf_rotate = [petal_rotation p, petal_rotation p + 720], pf_opacity = [0, 0.8, 0.8, 0],
      pf_duration = petal_duration p, pf_delay = petal_delay p, pf_size = petal_size p\<rparr>"

definition petals_view :: "petals_state \<Rightarrow> petal_frame list" where
  "petals_view s = map petal_view (petals s)"

subsection \<open>Sparkles\<close>

record sparkle =
  sparkle_id :: nat
  sparkle_x :: real
  sparkle_y :: real
  sparkle_delay :: real
  sparkle_scale :: real

record sparkles_state =
  sparkles :: "sparkle list"
  sparkles_deps :: "nat option"

definition sparkles_init :: sparkles_state where
  "sparkles_init = \<lparr>sparkles = [], sparkles_deps = None\<rparr>"

definition new_sparkles :: "nat \<Rightarrow> (nat \<Rightarrow> real) \<Rightarrow> sparkle list" where
  "new_sparkles count rnd =
     map (\<lambda>i. \<lparr>sparkle_id = i, sparkle_x = rnd (4 * i) * 100, sparkle_y = rnd (4 * i + 1) * 100,
               sparkle_delay = rnd (4 * i + 2) * 2, sparkle_scale = 0.3 + rnd (4 * i + 3) * 0.7\<rparr>) [0..<count]"

definition sparkles_commit :: "nat \<Rightarrow> (nat \<Rightarrow> real) \<Rightarrow> sparkles_state \<Rightarrow> sparkles_state" where
  "sparkles_commit count rnd s =
     (if sparkles_deps s = Some count then s
      else \<lparr>sparkles = new_sparkles count rnd, sparkles_deps = Some count\<rparr>)"

text \<open>What a sparkle renders: \<open>left\<close> and \<open>top\<close> in %, the keyframes of
  \<open>opacity\<close>, \<open>scale\<close> and \<open>rotate\<close>, and the transition (duration 2 s, its
  delay, a pause of 1 s between repetitions).\<close>

record sparkle_frame =
  sf_left :: real
  sf_top :: real
  sf_opacity :: "real list"
  sf_scale :: "real list"
  sf_rotate :: "real list"
  sf_duration :: real
  sf_delay :: real
  sf_repeat_delay :: real

definition sparkle_view :: "sparkle \<Rightarrow> sparkle_frame" where
  "sparkle_view p =
     \<lparr>sf_left = sparkle_x p, sf_top = sparkle_y p, sf_opacity = [0, 1, 0],
      sf_scale = [0, sparkle_scale p, 0], sf_rotate = [0, 180], sf_duration = 2,
      sf_delay = sparkle_delay p, sf_repeat_delay = 1\<rparr>"

definition sparkles_view :: "sparkles_state \<Rightarrow> sparkle_frame list" where
  "sparkles_view s = map sparkle_view (sparkles s)"

subsection \<open>The intro's decoration\<close>

text \<open>Scene 1 renders \<open><RosePetals count={15} />\<close> and
  \<open><SparkleEffect count={25} />\<close>; a render of the scene commits both, with
  the random values of that commit.\<close>

definition intro_decor_commit ::
  "(nat \<Rightarrow> real) \<Rightarrow> (nat \<Rightarrow> real) \<Rightarrow> petals_state \<times> sparkles_state \<Rightarrow> petals_state \<times> sparkles_state" where
  "intro_decor_commit rp rs d = (petals_commit 15 rp (fst d), sparkles_commit 25 rs (snd d))"

definition intro_decor :: "((nat \<Rightarrow> real) \<times> (nat \<Rightarrow> real)) list \<Rightarrow> petals_state \<times> sparkles_state" where
  "intro_decor rs = fold (\<lambda>r. intro_decor_commit (fst r) (snd r)) rs (petals_init, sparkles_init)"

text \<open>The random source of \<open>Math.random()\<close>: values in \<open>[0, 1)\<close>.\<close>

definition unit_rnd :: "(nat \<Rightarrow> real) \<Rightarrow> bool" where
  "unit_rnd rnd \<longleftrightarrow> (\<forall>i. 0 \<le> rnd i \<and> rnd i < 1)"

subsection \<open>Particles are drawn once per mount\<close>

lemma petals_commit_same: "petals_deps s = Some c \<Longrightarrow> petals_commit c r s = s"
  by (simp add: petals_commit_def)

lemma sparkles_commit_same: "sparkles_deps s = Some c \<Longrightarrow> sparkles_commit c r s = s"
  by (simp add: sparkles_commit_def)

lemma petals_commits_fold:
  "petals_deps s = Some c \<Longrightarrow> fold (\<lambda>r. petals_commit c r) rs s = s"
  by (induction rs) (simp_all add: petals_commit_same)

lemma sparkles_commits_fold:
  "sparkles_deps s = Some c \<Longrightarrow> fold (\<lambda>r. sparkles_commit c r) rs s = s"
  by (induction rs) (simp_all add: sparkles_commit_same)

lemma intro_decor_first:
  "intro_decor (r # rs) = (\<lparr>petals = new_petals 15 (fst r), petals_deps = Some 15\<rparr>,
                            \<lparr>sparkles = new_sparkles 25 (snd r), sparkles_deps = Some 25\<rparr>)"
proof -
  let ?d = "(\<lparr>petals = new_petals 15 (fst r), petals_deps = Some 15\<rparr>,
             \<lparr>sparkles = new_sparkles 25 (snd r), sparkles_deps = Some 25\<rparr>)"
  have "intro_decor_commit (fst r') (snd r') ?d = ?d" for r'
    by (simp add: intro_decor_commit_def petals_commit_def sparkles_commit_def)
  then have "fold (\<lambda>r. intro_decor_commit (fst r) (snd r)) rs ?d = ?d"
    by (induction rs) simp_all
  then show ?thesis
    by (simp add: intro_decor_def intro_decor_commit_def petals_commit_def sparkles_commit_def
        petals_init_def sparkles_init_def)
qed

subsection \<open>Bounds of the particles\<close>

lemma unit_rndD: "unit_rnd rnd \<Longrightarrow> 0 \<le> rnd i \<and> rnd i < 1"
  by (simp add: unit_rnd_def)

lemma scaled_unit_bounds:
  "unit_rnd rnd \<Longrightarrow> 0 < (k::real) \<Longrightarrow> a \<le> a + rnd i * k \<and> a + rnd i * k < a + k"
  using unit_rndD [of rnd i] by (simp add: mult_less_cancel_right1)

lemma petals_bounds:
  assumes "unit_rnd rnd" and "p \<in> set (petals_view (petals_commit count rnd petals_init))"
  shows "0 \<le> pf_left p \<and> pf_left p < 100 \<and> 0 \<le> pf_delay p \<and> pf_delay p < 3 \<and>
    5 \<le> pf_duration p \<and> pf_duration p < 8 \<and> 20 \<le> pf_size p \<and> pf_size p < 40 \<and>
    list_all (\<lambda>x. \<bar>x\<bar> \<le> 50) (pf_x p)"
proof -
  obtain i where p: "p = petal_view (\<lparr>petal_id = i, petal_x = rnd (5 * i) * 100, petal_delay = rnd (5 * i + 1) * 3,
               petal_duration = 5 + rnd (5 * i + 2) * 3, petal_rotation = rnd (5 * i + 3) * 360,
               petal_size = 20 + rnd (5 * i + 4) * 20\<rparr>)"
    using assms(2) by (auto simp: petals_view_def petals_commit_def petals_init_def new_petals_def)
  have "\<bar>sin (real i) * 50\<bar> \<le> 50"
    using abs_sin_le_one [of "real i"] by (simp add: abs_mult)
  with scaled_unit_bounds [OF assms(1), of 100 0 "5 * i"] scaled_unit_bounds [OF assms(1), of 3 0 "5 * i + 1"]
    scaled_unit_bounds [OF assms(1), of 3 5 "5 * i + 2"] scaled_unit_bounds [OF assms(1), of 20 20 "5 * i + 4"]
  show ?thesis by (simp add: p petal_view_def)
qed

lemma sparkles_bounds:
  assumes "unit_rnd rnd" and "p \<in> set (sparkles_view (sparkles_commit count rnd sparkles_init))"
  shows "0 \<le> sf_left p \<and> sf_left p < 100 \<and> 0 \<le> sf_top p \<and> sf_top p < 100 \<and>
    0 \<le> sf_delay p \<and> sf_delay p < 2 \<and> list_all (\<lambda>x. 0 \<le> x \<and> x < 1) (sf_scale p)"
proof -
  obtain i where p: "p = sparkle_view (\<lparr>sparkle_id = i, sparkle_x = rnd (4 * i) * 100, sparkle_y = rnd (4 * i + 1) * 100,
               sparkle_delay = rnd (4 * i + 2) * 2, sparkle_scale = 0.3 + rnd (4 * i + 3) * 0.7\<rparr>)"
    using assms(2) by (auto simp: sparkles_view_def sparkles_commit_def sparkles_init_def new_sparkles_def)
  from scaled_unit_bounds [OF assms(1), of 100 0 "4 * i"] scaled_unit_bounds [OF assms(1), of 100 0 "4 * i + 1"]
    scaled_unit_bounds [OF assms(1), of 2 0 "4 * i + 2"] scaled_unit_bounds [OF assms(1), of "0.7" "0.3" "4 * i + 3"]
  show ?thesis by (simp add: p sparkle_view_def)
qed

subsection \<open>Properties of the decoration\<close>

text \<open>Claim C18 (functional). The effect with dependencies \<open>[count]\<close> draws
  the particles once: after the first commit with a count, any number of
  re-renders with the same count keep that first draw (whatever random
  values they would have drawn), and a render with another count draws anew
  with that count; for the rose petals and for the sparkles alike.\<close>

theorem particles_drawn_once:
  "petals_commit c' r' (fold (\<lambda>r. petals_commit c r) rs (petals_commit c r0 petals_init))
     = (if c' = c then \<lparr>petals = new_petals c r0, petals_deps = Some c\<rparr>
        else \<lparr>petals = new_petals c' r', petals_deps = Some c'\<rparr>)
   \<and> sparkles_commit c' r' (fold (\<lambda>r. sparkles_commit c r) rs (sparkles_commit c r0 sparkles_init))
     = (if c' = c then \<lparr>sparkles = new_sparkles c r0, sparkles_deps = Some c\<rparr>
        else \<lparr>sparkles = new_sparkles c' r', sparkles_deps = Some c'\<rparr>)"
proof -
  have p: "petals_commit c r0 petals_init = \<lparr>petals = new_petals c r0, petals_deps = Some c\<rparr>"
    and q: "sparkles_commit c r0 sparkles_init = \<lparr>sparkles = new_sparkles c r0, sparkles_deps = Some c\<rparr>"
    by (simp_all add: petals_commit_def petals_init_def sparkles_commit_def sparkles_init_def)
  show ?thesis
    unfolding p q petals_commits_fold [of _ c, OF petals_state.select_convs(2)]
      sparkles_commits_fold [of _ c, OF sparkles_state.select_convs(2)]
    by (simp add: petals_commit_def sparkles_commit_def)
qed

end
