(* ===== verification/EggView.thy ===== *)
theory EggView
  imports AppShell Decor
begin

text \<open>
  What \<open>src/src/app/components/HiddenEasterEgg.tsx\<close> renders (lines 29 to 195):
  inside \<open>AnimatePresence\<close>, while \<open>isActive\<close>, a full-screen overlay that lets
  pointer events through, with 20 twinkling sparkles, a heart icon, a
  two-line message, the falling confetti of the state and 10 rising hearts.
  The sparkles' and hearts' positions and the confetti's spin, drift and
  duration are drawn with \<open>Math.random()\<close> during the render itself (not in
  the effect), so every render draws them anew: the view takes the random
  values of its render, \<open>r\<close>, indexed in the order of the calls (two per
  sparkle, then three per confetti piece, then three per heart).
  \<open>innerHeight\<close> is \<open>window.innerHeight\<close>. Texts are code points; this file,
  unlike the finale's, is correctly encoded.
\<close>

record confetti_frame =
  cf_left :: real            \<comment> \<open>\<open>left: piece.x%\<close>\<close>
  cf_color :: string
  cf_top :: "real list"      \<comment> \<open>from \<open>-5%\<close> to \<open>105%\<close>\<close>
  cf_rotate :: "real list"   \<comment> \<open>from 0 to \<open>360 * (Math.random() > 0.5 ? 1 : -1)\<close>\<close>
  cf_drift :: real           \<comment> \<open>\<open>x: (Math.random() - 0.5) * 100\<close>\<close>
  cf_duration :: real        \<comment> \<open>\<open>2 + Math.random() * 2\<close>\<close>

record rising_heart =
  rh_left :: real            \<comment> \<open>\<open>20 + Math.random() * 60\<close> (%)\<close>
  rh_y :: "real list"        \<comment> \<open>\<open>[0, -window.innerHeight - 100]\<close>\<close>
  rh_drift :: real
  rh_duration :: real        \<comment> \<open>\<open>3 + Math.random() * 2\<close>\<close>
  rh_delay :: real           \<comment> \<open>\<open>i * 0.2\<close>\<close>

record egg_overlay =
  eo_sparkles :: "(real \<times> real \<times> real) list"  \<comment> \<open>left %, top %, delay\<close>
  eo_icon :: "nat list"
  eo_message :: "nat list list"
  eo_confetti :: "confetti_frame list"
  eo_hearts :: "rising_heart list"
  eo_heart_glyph :: "nat list"

definition egg_sparkle :: "(nat \<Rightarrow> real) \<Rightarrow> nat \<Rightarrow> real \<times> real \<times> real" where
  "egg_sparkle r i = (r (2 * i) * 100, r (2 * i + 1) * 100, real i * 0.1)"

definition confetti_view :: "(nat \<Rightarrow> real) \<Rightarrow> nat \<Rightarrow> nat \<times> real \<times> string \<Rightarrow> confetti_frame" where
  "confetti_view r j piece =
     (let b = 40 + 3 * j
      in \<lparr>cf_left = fst (snd piece), cf_color = snd (snd piece), cf_top = [-5, 105],
          cf_rotate = [0, 360 * (if 0.5 < r b then 1 else -1)],
          cf_drift = (r (b + 1) - 0.5) * 100, cf_duration = 2 + r (b + 2) * 2\<rparr>)"

definition rising_view :: "(nat \<Rightarrow> real) \<Rightarrow> nat \<Rightarrow> real \<Rightarrow> nat \<Rightarrow> rising_heart" where
  "rising_view r m innerHeight k =
     (let b = 40 + 3 * m + 3 * k
      in \<lparr>rh_left = 20 + r b * 60, rh_y = [0, - innerHeight - 100], rh_drift = (r (b + 1) - 0.5) * 100,
          rh_duration = 3 + r (b + 2) * 2, rh_delay = real k * 0.2\<rparr>)"

definition egg_message :: "nat list list" where
  "egg_message = [map of_char ''You both are made'', map of_char ''for each other '' @ [0x2764, 0xFE0F]]"

definition egg_view :: "bool \<Rightarrow> real \<Rightarrow> (nat \<Rightarrow> real) \<Rightarrow> egg \<Rightarrow> egg_overlay option" where
  "egg_view isActive innerHeight r s =
     (if isActive
      then Some \<lparr>eo_sparkles = map (egg_sparkle r) [0..<20], eo_icon = [0x2764, 0xFE0F],
                 eo_message = egg_message,
                 eo_confetti = map (\<lambda>(j, p). confetti_view r j p) (zip [0..<length (confetti s)] (confetti s)),
                 eo_hearts = map (rising_view r (length (confetti s)) innerHeight) [0..<10],
                 eo_heart_glyph = [0x1F495]\<rparr>
      else None)"

text \<open>In App: \<open><HiddenEasterEgg isActive={showEasterEgg} ... />\<close>.\<close>

definition app_overlay :: "real \<Rightarrow> (nat \<Rightarrow> real) \<Rightarrow> app \<Rightarrow> egg_overlay option" where
  "app_overlay innerHeight r s = egg_view (showEasterEgg (ap_press s)) innerHeight r (ap_egg s)"

text \<open>The confetti of the state are the 50 pieces of the last active commit,
  drawn from the last 50 random values.\<close>

definition last_confetti :: "(nat \<Rightarrow> real) \<Rightarrow> app \<Rightarrow> bool" where
  "last_confetti rnd s \<longleftrightarrow>
     50 \<le> ap_draws s \<and> confetti (ap_egg s) = new_confetti (\<lambda>i. rnd (ap_draws s - 50 + i))"

definition confetti_ok :: "(nat \<Rightarrow> real) \<Rightarrow> app \<Rightarrow> bool" where
  "confetti_ok rnd s \<longleftrightarrow>
     (confetti (ap_egg s) = [] \<or> last_confetti rnd s) \<and>
     (showEasterEgg (ap_press s) \<longrightarrow> last_confetti rnd s)"

subsection \<open>The confetti through the composed App\<close>

lemma confetti_commit [simp]:
  "confetti (ap_egg (app_commit rnd s)) =
     (if showEasterEgg (ap_press s) then new_confetti (\<lambda>i. rnd (ap_draws s + i)) else confetti (ap_egg s))"
  "ap_draws (app_commit rnd s) = ap_draws s + (if showEasterEgg (ap_press s) then 50 else 0)"
  by (simp_all add: app_commit_def egg_commit_def Let_def split_def)

lemma confetti_ok_settle:
  assumes "confetti (ap_egg s) = [] \<or> last_confetti rnd s"
    and "showEasterEgg (ap_press s) \<Longrightarrow> \<not> app_rerenders old (ap_press s) \<Longrightarrow> last_confetti rnd s"
  shows "confetti_ok rnd (app_settle rnd old s)"
  using assms by (auto simp: app_settle_def confetti_ok_def last_confetti_def)

lemma confetti_ok_run: "app_inv s \<Longrightarrow> confetti_ok rnd s \<Longrightarrow> confetti_ok rnd (app_run rnd t s)"
proof -
  assume "app_inv s" and "confetti_ok rnd s"
  have "app_inv (app_run rnd t s) \<and> confetti_ok rnd (app_run rnd t s)"
  proof (rule app_run_rule [where P = "\<lambda>rnd _. confetti_ok rnd"])
    fix rnd t s h d cb q
    assume "confetti_ok rnd s"
    then show "confetti_ok rnd (app_settle rnd (ap_press s) (s\<lparr>ap_press := press_fire cb ((ap_press s)\<lparr>press_timers := q\<rparr>)\<rparr>))"
      by (cases cb) (rule confetti_ok_settle; auto simp: confetti_ok_def app_rerenders_def last_confetti_def)
  next
    fix rnd t s h e cb q
    assume "confetti_ok rnd s"
    then show "confetti_ok rnd (app_dismiss rnd (s\<lparr>ap_egg := egg_fire cb ((ap_egg s)\<lparr>egg_timers := q\<rparr>)\<rparr>))"
      unfolding app_dismiss_def
      by (cases cb) (rule confetti_ok_settle; auto simp: confetti_ok_def last_confetti_def)
  qed (fact \<open>app_inv s\<close>, fact \<open>confetti_ok rnd s\<close>,
       simp add: confetti_ok_def last_confetti_def app_advance_def)
  then show ?thesis by blast
qed

lemma confetti_ok_input: "confetti_ok rnd s \<Longrightarrow> confetti_ok rnd (app_input rnd ev s)"
  unfolding app_input_def
  by (rule confetti_ok_settle) (auto simp: confetti_ok_def app_rerenders_def last_confetti_def)

lemma confetti_ok_trace:
  "app_inv s \<Longrightarrow> confetti_ok rnd s \<Longrightarrow> confetti_ok rnd (app_trace rnd tes s)"
proof (induction tes arbitrary: s)
  case (Cons te tes)
  have "confetti_ok rnd (app_timed rnd te s)"
    using confetti_ok_input [OF confetti_ok_run [OF Cons.prems]] by (simp add: app_timed_def)
  with Cons.IH [OF app_inv_event [OF Cons.prems(1)]] show ?case
    by (simp add: app_trace_def)
qed (simp add: app_trace_def)

lemma confetti_ok_init: "confetti_ok rnd app_init"
  by (simp add: confetti_ok_def app_init_def egg_init_def press_init_def)

lemma length_new_confetti [simp]: "length (new_confetti rnd) = 50"
  by (simp add: new_confetti_def)

text \<open>Claim C35. What the easter egg shows in every reachable state of the
  composed App: nothing while no dismiss timeout is pending; otherwise the
  overlay with the 50 confetti pieces of the last active commit (their
  positions the last 50 values drawn from \<open>Math.random()\<close>, their colours cycling through the
  five of the source), the message, ten rising hearts and 20 sparkles.\<close>

theorem app_overlay_reachable:
  "case app_overlay innerHeight r (app_trace rnd tes app_init) of
     None \<Rightarrow> pending (egg_timers (ap_egg (app_trace rnd tes app_init))) = []
   | Some v \<Rightarrow> pending (egg_timers (ap_egg (app_trace rnd tes app_init))) \<noteq> [] \<and>
       map cf_left (eo_confetti v) =
         map (\<lambda>i. rnd (ap_draws (app_trace rnd tes app_init) - 50 + i) * 100) [0..<50] \<and>
       map cf_color (eo_confetti v) = map (\<lambda>i. confetti_colors ! (i mod 5)) [0..<50] \<and>
       eo_message v = egg_message \<and> length (eo_hearts v) = 10 \<and> length (eo_sparkles v) = 20"
proof -
  let ?s = "app_trace rnd tes app_init"
  have inv: "app_inv ?s" by (rule app_inv_trace [OF app_inv_init])
  have ok: "confetti_ok rnd ?s" by (rule confetti_ok_trace [OF app_inv_init confetti_ok_init])
  show ?thesis
  proof (cases "showEasterEgg (ap_press ?s)")
    case True
    then have "confetti (ap_egg ?s) = new_confetti (\<lambda>i. rnd (ap_draws ?s - 50 + i))" "pending (egg_timers (ap_egg ?s)) \<noteq> []"
      using ok inv by (auto simp: confetti_ok_def last_confetti_def app_inv_def)
    with True show ?thesis
      by (simp add: app_overlay_def egg_view_def new_confetti_def confetti_view_def Let_def
          zip_map2 map_zip_map2 comp_def case_prod_beta)
  next
    case False
    with inv show ?thesis by (auto simp: app_overlay_def egg_view_def app_inv_def)
  qed
qed



theorem app_overlay_reachable_witness:
  "case app_overlay 800 (\<lambda>_. 0) (app_trace (\<lambda>i. real i / 100) [(0, TouchStart), (3500, TouchEnd)] app_init) of
     None \<Rightarrow> pending (egg_timers (ap_egg (app_trace (\<lambda>i. real i / 100) [(0, TouchStart), (3500, TouchEnd)] app_init))) = []
   | Some v \<Rightarrow> pending (egg_timers (ap_egg (app_trace (\<lambda>i. real i / 100) [(0, TouchStart), (3500, TouchEnd)] app_init))) \<noteq> [] \<and>
       map cf_left (eo_confetti v) =
         map (\<lambda>i. real (ap_draws (app_trace (\<lambda>i. real i / 100) [(0, TouchStart), (3500, TouchEnd)] app_init) - 50 + i) / 100 * 100) [0..<50] \<and>
       map cf_color (eo_confetti v) = map (\<lambda>i. confetti_colors ! (i mod 5)) [0..<50] \<and>
       eo_message v = egg_message \<and> length (eo_hearts v) = 10 \<and> length (eo_sparkles v) = 20"
  by (rule app_overlay_reachable)


end
