(* ===== verification/JourneyView.thy ===== *)
theory JourneyView
  imports Carousel Decor
begin

text \<open>
  What \<open>src/src/app/components/Scene2PhotoJourney.tsx\<close> renders from its state
  (\<open>currentIndex\<close>, \<open>showContinue\<close> of theory \<open>Carousel\<close>) and its \<open>photos\<close>
  prop: the glowing orbs, the rising sparkles, the title, the polaroid stack
  (each rendered photo with its frame, image, caption, date, and the sway and
  aura of the current one), the progress dots, the Continue button and the
  floating hearts. The sparkles' positions and durations are drawn with
  \<open>Math.random()\<close> in the render itself: the view takes the random values of
  its render, \<open>r\<close>, two per sparkle in the order of the calls.
\<close>

text \<open>App's photo record (\<open>interface Photo\<close> of the scene).\<close>

record photo =
  url :: string
  caption :: string
  date :: string

record polaroid =
  pol_index :: nat
  pol_frame :: frame
  pol_src :: string
  pol_alt :: string
  pol_caption :: string
  pol_date :: string
  pol_sway :: "real list"      \<comment> \<open>\<open>rotate: [-2, 2, -2]\<close> for the current photo, \<open>{}\<close> otherwise\<close>
  pol_aura :: bool             \<comment> \<open>\<open>{isActive && <motion.div ... />}\<close>\<close>

definition polaroid_view :: "nat \<Rightarrow> nat \<Rightarrow> photo \<Rightarrow> polaroid" where
  "polaroid_view current index p =
     (let isActive = (index = current)
      in \<lparr>pol_index = index, pol_frame = carousel_frame current index, pol_src = url p,
          pol_alt = caption p, pol_caption = caption p, pol_date = date p,
          pol_sway = (if isActive then [-2, 2, -2] else []), pol_aura = isActive\<rparr>)"

text \<open>\<open>photos.map((photo, index) => ...)\<close> with \<open>return null\<close> outside the window.\<close>

definition polaroid_stack :: "nat \<Rightarrow> photo list \<Rightarrow> polaroid list" where
  "polaroid_stack current photos =
     map (\<lambda>(i, p). polaroid_view current i p)
       (filter (\<lambda>(i, p). carousel_visible current i) (zip [0..<length photos] photos))"

record progress_dot =
  pd_width :: nat
  pd_gold :: bool
  pd_glow :: bool

definition progress_dots :: "nat \<Rightarrow> photo list \<Rightarrow> progress_dot list" where
  "progress_dots current photos =
     map (\<lambda>i. \<lparr>pd_width = dot_width current i, pd_gold = dot_lit current i, pd_glow = (i = current)\<rparr>)
       [0..<length photos]"

record orb =
  orb_size :: nat
  orb_left :: nat
  orb_top :: nat
  orb_pink :: bool
  orb_duration :: nat

definition journey_orb :: "nat \<Rightarrow> orb" where
  "journey_orb i = \<lparr>orb_size = 200 + i * 50, orb_left = 20 + i * 15, orb_top = 10 + i * 12,
                    orb_pink = (i mod 2 \<noteq> 0), orb_duration = 8 + i\<rparr>"

text \<open>A rising sparkle: \<open>left\<close> in %, duration, delay.\<close>

definition journey_sparkle :: "(nat \<Rightarrow> real) \<Rightarrow> nat \<Rightarrow> real \<times> real \<times> real" where
  "journey_sparkle r i = (r (2 * i) * 100, 4 + r (2 * i + 1) * 3, real i * 0.2)"

text \<open>A floating heart: \<open>left\<close> in %, duration, delay.\<close>

definition journey_heart :: "nat \<Rightarrow> nat \<times> nat \<times> real" where
  "journey_heart i = (10 + i * 12, 8 + i, real i * 1.5)"

definition journey_title :: "string list" where
  "journey_title = [''Your Beautiful Journey'', ''365 days of unforgettable moments'']"

text \<open>\<open>{showContinue && (... <motion.button onClick={onComplete}> ...)}\<close>.\<close>

definition journey_continue :: "carousel \<Rightarrow> string option" where
  "journey_continue c = (if showContinue c then Some ''Continue Your Journey'' else None)"

record journey_view =
  jv_orbs :: "orb list"
  jv_sparkles :: "(real \<times> real \<times> real) list"
  jv_title :: "string list"
  jv_stack :: "polaroid list"
  jv_dots :: "progress_dot list"
  jv_continue :: "string option"
  jv_hearts :: "(nat \<times> nat \<times> real) list"

definition journey_render :: "(nat \<Rightarrow> real) \<Rightarrow> photo list \<Rightarrow> carousel \<Rightarrow> journey_view" where
  "journey_render r photos c =
     \<lparr>jv_orbs = map journey_orb [0..<6], jv_sparkles = map (journey_sparkle r) [0..<30],
      jv_title = journey_title, jv_stack = polaroid_stack (currentIndex c) photos,
      jv_dots = progress_dots (currentIndex c) photos,
      jv_continue = journey_continue c,
      jv_hearts = map journey_heart [0..<8]\<rparr>"

subsection \<open>The stack is the render window\<close>

lemma zip_upt_conv_map: "zip [0..<length xs] xs = map (\<lambda>i. (i, xs ! i)) [0..<length xs]"
  by (rule nth_equalityI) simp_all

lemma polaroid_stack_window:
  "polaroid_stack cur photos =
     map (\<lambda>i. polaroid_view cur i (photos ! i)) [cur..<min (length photos) (cur + 3)]"
proof -
  have "filter (\<lambda>(i, p). carousel_visible cur i) (map (\<lambda>i. (i, photos ! i)) [0..<length photos])
      = map (\<lambda>i. (i, photos ! i)) (rendered_photos (length photos) cur)"
    by (simp add: filter_map comp_def rendered_photos_def)
  then show ?thesis
    by (simp add: polaroid_stack_def zip_upt_conv_map rendered_photos_upt comp_def)
qed

text \<open>The first polaroid of the stack is the current photo, with its caption
  and date, the sway and the aura; no other one sways or glows.\<close>

lemma polaroid_stack_front:
  assumes "cur < length photos"
  shows "polaroid_stack cur photos = polaroid_view cur cur (photos ! cur) #
           map (\<lambda>i. polaroid_view cur i (photos ! i)) [Suc cur..<min (length photos) (cur + 3)]
    \<and> pol_caption (polaroid_view cur cur (photos ! cur)) = caption (photos ! cur)
    \<and> pol_aura (polaroid_view cur cur (photos ! cur))
    \<and> list_all (\<lambda>p. \<not> pol_aura p \<and> pol_sway p = [])
        (map (\<lambda>i. polaroid_view cur i (photos ! i)) [Suc cur..<min (length photos) (cur + 3)])"
proof -
  have "[cur..<min (length photos) (cur + 3)] = cur # [Suc cur..<min (length photos) (cur + 3)]"
    using assms by (simp add: upt_conv_Cons)
  then show ?thesis
    by (simp add: polaroid_stack_window polaroid_view_def list_all_iff)
qed

end
