(* ===== verification/IntroView.thy ===== *)
theory IntroView
  imports Intro Decor
begin

text \<open>
  What \<open>src/src/app/components/Scene1Intro.tsx\<close> renders (lines 56 to 302):
  five light rays fanned around the vertical, the rose petals and sparkles of
  theory \<open>Decor\<close>, the couple's photo tilted by the motion values \<open>rotateX\<close>
  and \<open>rotateY\<close> through \<open>useTransform\<close>, the title spans and the subtitle,
  and, once \<open>showButton\<close> holds, the button. Texts are code points. The
  \<open>FloatingParticles\<close> element is not modelled: its module is not among the
  sources.
\<close>

text \<open>A light ray: its rotation in degrees (\<open>-30 + i * 15\<close>) and the delay
  of its pulsing.\<close>

definition light_ray :: "nat \<Rightarrow> real \<times> real" where
  "light_ray i = (-30 + real i * 15, real i * 0.5)"

text \<open>\<open>useTransform([rotateX, rotateY], ([x, y]) =>
  `perspective(1000px) rotateX(${x}deg) rotateY(${y}deg)`)\<close>: the
  perspective and the two angles.\<close>

record tilt =
  tilt_perspective :: real
  tilt_x :: real
  tilt_y :: real

definition intro_tilt :: "intro \<Rightarrow> tilt" where
  "intro_tilt s = \<lparr>tilt_perspective = 1000, tilt_x = rotateX s, tilt_y = rotateY s\<rparr>"

definition intro_subtitle :: "nat list" where
  "intro_subtitle = map of_char ''One year of love, laughter & forever.''"

definition begin_label :: "nat list" where
  "begin_label = map of_char ''Tap to Begin the Surprise '' @ [0x2728]"

text \<open>\<open>{showButton && (<motion.div><motion.button onClick={onComplete}>...)}\<close>:
  the button, with its label, once \<open>showButton\<close> holds.\<close>

definition intro_button :: "intro \<Rightarrow> nat list option" where
  "intro_button s = (if showButton s then Some begin_label else None)"

record intro_view =
  iv_rays :: "(real \<times> real) list"
  iv_petals :: "petal_frame list"
  iv_sparkles :: "sparkle_frame list"
  iv_photo :: "string \<times> string"      \<comment> \<open>\<open>src\<close>, \<open>alt\<close>\<close>
  iv_tilt :: tilt
  iv_title :: "(nat \<times> real) list"
  iv_subtitle :: "nat list"
  iv_button :: "nat list option"

definition intro_render :: "string \<Rightarrow> intro \<Rightarrow> petals_state \<times> sparkles_state \<Rightarrow> intro_view" where
  "intro_render coupleImage s d =
     \<lparr>iv_rays = map light_ray [0..<5], iv_petals = petals_view (fst d), iv_sparkles = sparkles_view (snd d),
      iv_photo = (coupleImage, ''Couple''), iv_tilt = intro_tilt s, iv_title = title_spans,
      iv_subtitle = intro_subtitle, iv_button = intro_button s\<rparr>"

subsection \<open>Properties of the view\<close>

text \<open>The rays form a fan symmetric about the vertical, 15 degrees apart.\<close>

lemma light_rays_fan:
  "map (\<lambda>i. fst (light_ray i)) [0..<5] = [-30, -15, 0, 15, 30]
   \<and> map (\<lambda>i. fst (light_ray (4 - i))) [0..<5] = map (\<lambda>i. - fst (light_ray i)) [0..<5]"
  by (simp add: light_ray_def upt_rec)

text \<open>Mounted at \<open>t0\<close>, the intro shows the button exactly from \<open>t0 + 5000\<close>
  on, and its petals and sparkles are those of its first commit.\<close>

lemma intro_render_timed:
  "iv_button (intro_render img (intro_run t (intro_mount p t0)) (intro_decor (r # rs)))
     = (if t0 + 5000 \<le> t then Some begin_label else None)
   \<and> iv_petals (intro_render img (intro_run t (intro_mount p t0)) (intro_decor (r # rs)))
     = map petal_view (new_petals 15 (fst r))
   \<and> iv_sparkles (intro_render img (intro_run t (intro_mount p t0)) (intro_decor (r # rs)))
     = map sparkle_view (new_sparkles 25 (snd r))"
proof -
  have "intro_ok t0 (intro_run t (intro_mount p t0)) \<and> clock (intro_timers (intro_run t (intro_mount p t0))) = max t0 t"
    using intro_ok_run [of t0 "intro_mount p t0" t] intro_ok_mount [of t0 p] by simp
  then have "showButton (intro_run t (intro_mount p t0)) = (t0 + 5000 \<le> t)"
    by (auto simp: intro_ok_def button_delay_def max_def)
  then show ?thesis
    by (simp add: intro_render_def intro_button_def intro_decor_first petals_view_def sparkles_view_def)
qed

text \<open>The title has one span per code point of the source text, the heart
  being two code points; every space is a no-break space.\<close>

lemma title_spans_text:
  "length title_spans = 32 \<and> map fst title_spans =
     map (\<lambda>c. if c = 32 then 0xA0 else c) intro_title \<and> 32 \<notin> set (map fst title_spans)"
  by (simp add: title_spans_def intro_title_def)

end
