(* ===== verification/Backdrops.thy ===== *)
theory Backdrops
  imports GiftBox Decor
begin

text \<open>
  The parts of the scenes' renders that are drawn with \<open>Math.random()\<close> during
  the render itself, and the static texts around them: the gift box's sparkle
  aura, light burst and sparkle trail (Scene3GiftBox.tsx), the memory
  universe's stars and title (Scene4MemoryUniverse.tsx), the timeline's
  background hearts and closing card (Scene5Timeline.tsx), and the finale's
  confetti rain (Scene6Finale.tsx). Each takes the random values of its render,
  \<open>r\<close>, indexed in the order of the calls within the element (an element
  draws a fixed number of values, so element \<open>i\<close> starts at \<open>k * i\<close>). Texts
  are code points.
\<close>

subsection \<open>Scene 3: the gift box\<close>





subsection \<open>Scene 4: the memory universe\<close>


definition universe_title :: "nat list list" where
  "universe_title = [map of_char ''Our Memory Universe '' @ [0x2728], map of_char ''Tap any memory to explore'']"


subsection \<open>Scene 5: the timeline\<close>




definition timeline_end_card :: "nat list list" where
  "timeline_end_card =
     [map of_char ''Forever & Always'', map of_char ''Here's to many more beautiful years together! '' @ [0x1F495]]"

subsection \<open>Scene 6: the finale's confetti rain\<close>





subsection \<open>Ranges of the drawn values\<close>




end
