(* ===== verification/Spec2Isabelle.thy ===== *)
theory Spec2Isabelle
  imports Timers Sequencer LongPress Carousel Layout GiftBox Timeline Universe Intro EasterEgg Finale AppShell
    AppScenes SceneRoots Decor EggView JourneyView IntroView Backdrops
begin

text \<open>
  \<^bold>\<open>A verification model of the anniversary presentation.\<close>

  The program (\<open>src/src/app\<close>) is a React single-page presentation of six scenes
  shown one after another: \<open>App.tsx\<close> holds the index of the current scene and
  mounts the scene of that index inside \<open>AnimatePresence mode="wait"\<close>; every
  scene but the last receives \<open>onComplete\<close> (which increments the index), the
  finale receives \<open>onReplay\<close> (which resets it to 0). App also holds the
  long-press trigger of a hidden easter egg. The scenes keep local state driven
  by browser timers (\<open>setTimeout\<close>, \<open>setInterval\<close>) and by taps, and use
  closed-form layouts (a heart curve, a radial burst, a 3D carousel).

  \<^bold>\<open>Theories and what they model.\<close>
  \<^item> \<open>Prelude\<close>: type names (\<open>ms\<close>, \<open>timer_handle\<close>) and list lemmas shared by the
    components.
  \<^item> \<open>Timers\<close>: the browser's timer service, the environment every component
    calls: a queue of active timers with fresh positive handles, clearing by
    handle, and an event loop (\<open>pop_due\<close>) that runs the earliest due timer
    first and re-arms intervals. It is not repository code; it is modelled after
    the HTML timer steps. \<open>timer_work\<close> is the measure that makes every
    component's event loop terminate (each firing consumes work; clearing never
    adds any), so each loop is a total \<^theory_text>\<open>function\<close>, without fuel.
  \<^item> \<open>Sequencer\<close> (App.tsx \<open>currentScene\<close>, \<open>handleSceneComplete\<close>,
    \<open>handleReplay\<close>, the \<open>AnimatePresence\<close> children): the presence state
    (index and exiting scene), one step per event (a live scene completes, the
    exiting scene completes again, the finale replays, an exit animation ends),
    runs and reachable states; and the specification's sequencer (active scene,
    epoch, guarded advance, reset, idempotent completion) as the abstract model.
  \<^item> \<open>LongPress\<close> (App.tsx \<open>showEasterEgg\<close>, \<open>longPressTimer\<close>,
    \<open>handleTouchStart\<close>, \<open>handleTouchEnd\<close>, the effect whose cleanup clears the
    previous timer): timed pointer input, each event preceded by the timers due
    by its time.
  \<^item> \<open>Carousel\<close> (Scene2PhotoJourney.tsx): the 3000 ms interval started on mount
    and cleared on unmount, its updater, the Continue button, the render window
    of the polaroid stack, the per-item animation values and the progress dots.
  \<^item> \<open>Layout\<close> (Scene6Finale.tsx \<open>getHeartPositions\<close>, Scene4MemoryUniverse.tsx
    radial positions, Scene3GiftBox.tsx burst particles) over exact reals, with
    \<open>Math.random()\<close> injected as a function \<open>rnd\<close>.
  \<^item> \<open>GiftBox\<close> (Scene3GiftBox.tsx): \<open>isOpening\<close>, \<open>isOpened\<close>, \<open>handleTap\<close>
    with its guard, the two chained 2000 ms timeouts ending in \<open>onComplete\<close>,
    taps delivered after the timers due by their time, the view flags of the JSX
    and the 30 burst particles. The proofs summarise a state after the first tap
    by \<open>gview\<close>, a function of the lid's due time and the clock.
  \<^item> \<open>Timeline\<close> (Scene5Timeline.tsx and App's \<open>milestones\<close>): the state
    \<open>expandedMilestone\<close>, the icon and card click handlers that toggle it, the
    Continue button, and what each milestone renders from the state (photo
    grid, hint, entrance delay, sparkles). Emoji in App's titles are written
    as their UTF-8 bytes (\<open>utf8\<close>), icons by their lucide names.
  \<^item> \<open>Universe\<close> (Scene4MemoryUniverse.tsx): \<open>expandedPhoto\<close>,
    \<open>currentIndex\<close>, \<open>photosWithPosition\<close> (filled by the mount effect with the
    radial layout) and \<open>miniHearts\<close>; \<open>handlePhotoTap\<close>, \<open>handleClose\<close>,
    \<open>handleSwipe\<close>, \<open>handleDoubleTap\<close> and the 1000 ms timeout that removes a
    batch of hearts (\<open>Date.now()\<close> is the timer clock); the routing of a tap
    through the full-screen expanded layer, which covers the orbit and the
    Continue button, and the card's \<open>stopPropagation\<close>; the orbit view and the
    expanded view. The lifetime proof describes the hearts after double taps
    at least 10 ms apart by \<open>hearts_ok\<close> (live batches and their timeouts).
  \<^item> \<open>Intro\<close> (Scene1Intro.tsx): \<open>showButton\<close>, \<open>gyroPermission\<close>, the motion
    values \<open>rotateX\<close>/\<open>rotateY\<close>, the mount effect (iOS permission request or an
    immediate grant, and the 5000 ms button timeout), the orientation handler
    while permission is granted, the button, and the title's entrance delays.
  \<^item> \<open>EasterEgg\<close> (HiddenEasterEgg.tsx): the confetti and the effect with
    dependencies \<open>[isActive, onDismiss]\<close>; since App passes a new \<open>onDismiss\<close> at
    every render, an App commit is the component's event, and each commit
    cleans up and re-runs the effect.
  \<^item> \<open>Finale\<close> (Scene6Finale.tsx): \<open>showLanterns\<close> and its 2000 ms timeout, the
    Replay button, the lanterns, photo delays and texts (as code points), and,
    to read those texts, UTF-8 encoding and the Mac OS Roman table.
  \<^item> \<open>AppShell\<close> (App.tsx with its \<open>HiddenEasterEgg\<close> child): the long press and
    the easter egg composed in one state \<open>app\<close>. A state change of App
    (\<open>app_rerenders\<close>: \<open>showEasterEgg\<close> or \<open>longPressTimer\<close> changed; setting a
    state to its value does not re-render) re-renders App, which commits the
    egg's effect with the current \<open>showEasterEgg\<close> (\<open>app_commit\<close>,
    \<open>app_settle\<close>); \<open>onDismiss\<close> resets \<open>showEasterEgg\<close> (\<open>app_dismiss\<close>). One
    event loop (\<open>app_run\<close>) runs the two components' timers in due order, the
    long press's first on a tie; it is a total \<^theory_text>\<open>function\<close> whose measure is
    the pair of the two queues' \<open>timer_work\<close>. Each component keeps its own
    queue and handle counter (handles are only compared within a component).
    \<open>ap_draws\<close> counts the \<open>Math.random()\<close> calls: \<open>rnd\<close> is the one stream of
    their values, and each active commit takes the next 50 for its confetti.
    The loop's induction rule \<open>app_run_rule\<close> carries the invariant
    \<open>app_inv\<close> and any property that the idle return and the two kinds of
    firing preserve; the liveness, the invariant and the confetti proofs use it.
  \<^item> \<open>AppScenes\<close> (the whole of App.tsx): the sequencer's presence state and
    the shell in one state \<open>full_app\<close>. Its inputs are pointer events and the
    scenes' \<open>onComplete\<close>/\<open>onReplay\<close> calls (\<open>full_in\<close>), each at a time
    and after the timers due by then (\<open>full_event\<close>, \<open>full_trace\<close>). A call
    that changes \<open>currentScene\<close> re-renders App and so commits the egg's
    effect again (\<open>full_scene\<close>); the end of an exit animation re-renders only
    \<open>AnimatePresence\<close>. Lemmas: the scene state is the sequencer's run of the
    scene calls, the shell's invariant and its calm bound carry over, and a
    scene change while the egg is shown restarts its dismiss timeout.
  \<^item> \<open>SceneRoots\<close> (the root element and background layer of each of the six
    scene files): whether the root is a \<open>motion.div\<close>, its fade-in, its
    \<open>exit\<close> prop and duration, and the background's gradient keyframes, cycle
    length and easing; also the finale message's entrance. Lemmas: every
    scene the sequencer keeps as exiting in a reachable state has an
    \<open>exit\<close> prop on its root; every background loops without a jump but the
    timeline's.
  \<^item> \<open>Decor\<close> (RosePetals.tsx, SparkleEffect.tsx, and their use in
    Scene1Intro.tsx): the particle list of each component, the effect with
    dependencies \<open>[count]\<close> that draws it on mount, and the animation values
    each particle renders; \<open>Math.random()\<close> is an injected \<open>rnd\<close> with values
    in \<open>[0, 1)\<close> (\<open>unit_rnd\<close>). Lemmas: the particles are drawn once, at the
    first commit, and every later render keeps them; their positions, delays,
    durations and sizes lie in the ranges the code scales to.
  \<^item> \<open>EggView\<close> (HiddenEasterEgg.tsx lines 29 to 195): the overlay rendered
    while \<open>isActive\<close> (sparkles, icon, message, confetti, rising hearts), with
    the random values drawn during the render injected, and App's use of it
    (\<open>app_overlay\<close>). Lemmas: in every reachable state of the composed App the
    overlay is shown exactly while a dismiss timeout is pending and shows the
    50 confetti pieces of the last active commit, drawn from the last 50
    values of the stream; the render-time random
    values stay in their ranges.
  \<^item> \<open>JourneyView\<close> (Scene2PhotoJourney.tsx lines 40 to 414): what the
    Photo Journey renders from \<open>currentIndex\<close> and \<open>showContinue\<close>: orbs,
    sparkles drawn with \<open>Math.random()\<close> at each render, title, the polaroid
    stack (frame of \<open>Carousel\<close>, image, caption, date, sway and aura of the
    current photo), progress dots, Continue button and floating hearts; also
    App's \<open>photo\<close> record. Lemmas: the stack is the render window with the
    current photo in front, alone in swaying and glowing; with App's photos the
    front polaroid at time \<open>t\<close> is photo \<open>min ((t - t0) div 3000) 12\<close>
    (\<open>journey_front_photo\<close>, in this theory).
  \<^item> \<open>IntroView\<close> (Scene1Intro.tsx lines 56 to 302): the intro's rendered
    scene from its state: five light rays, the petals and sparkles of
    \<open>Decor\<close>, the photo tilted through \<open>useTransform\<close>, the title spans, the
    subtitle and the button once \<open>showButton\<close> holds. Lemmas: the rays form a
    symmetric fan; mounted at \<open>t0\<close> the button is rendered exactly from
    \<open>t0 + 5000\<close> and the decoration is that of the first commit.
  \<^item> \<open>Backdrops\<close>: the elements of Scenes 3 to 6 drawn with
    \<open>Math.random()\<close> during the render (gift box aura, light burst and trail,
    stars, timeline hearts, the finale's confetti rain) and the static texts
    next to them. Lemma: every drawn value lies in the range the code scales
    it to.
  \<^item> this theory: App's photo list, \<open>coupleImage\<close> and the properties that span components.

  \<^bold>\<open>What the theorems show\<close> (claim ids C1 to C40 name them in the theories).
  Sequencer: the code refines the specification's sequencer in runs where every
  scene completes once (C1), and keeps the index within the six scenes (C5);
  but a second click on the Continue button of a fading-out scene advances
  again and skips a scene (C2), an index past 5 never mounts a scene again
  (C3), and that dead end is reachable from the start (C4).
  Long press: releasing cancels the pending timeout for good (C6), the egg shows
  exactly for presses held 3000 ms (C7), at most one timeout is ever active
  (C8), and a second press start cancels and restarts the timeout (C9).
  Carousel: the timed progress in closed form (C10), the interval is active
  exactly until the last photo (C11), unmounting cancels it (C12), the render
  window has at most three photos (C13) with the current one in front (C14).
  Layout: the heart has one position per photo starting at (50%, 41.25%) (C15),
  stays inside the container (C16) and is mirror-symmetric (C17); the radial
  layout puts every photo on the circle of radius 150.
  Decoration (theory \<open>Decor\<close>): the petals and sparkles are drawn once per
  \<open>count\<close>, at the first commit, and kept by every later render with the same
  count (C18). Render-time randomness (theories \<open>Backdrops\<close>, \<open>EggView\<close>):
  for values of \<open>Math.random()\<close> in \<open>[0, 1)\<close> every drawn element of Scenes 3 to
  6 (C20) and of the easter egg's overlay (C30) lies in the range the code
  scales it to. Across components: the finale places every photo on the
  heart (C21).
  Gift box: any number of taps from \<open>t1\<close> on yields exactly one \<open>onComplete\<close>, at
  \<open>t1 + 4000\<close> (C22); the view switches to the opening animations at the
  first tap and shows the explosion from \<open>t1 + 2000\<close> (C23); without a tap
  nothing happens, and the burst's 30 particles lie on a circle of radius
  200 in alternating colours. The whole App (theory \<open>AppScenes\<close>): whatever
  the touches and scene calls before time \<open>c\<close>, the easter egg is dismissed
  and no timer is left by \<open>c + 8000\<close> ms (C24, liveness: a long press started
  by \<open>c\<close> fires by \<open>c + 3000\<close> and the last dismiss timeout 5000 ms after the
  render that started it, a scene change's included); the touches and the
  egg never change the scenes: the scene state is the sequencer's run of the
  scene calls. Composed shell (theory
  \<open>AppShell\<close>): every reachable state satisfies \<open>app_inv\<close>: one dismiss
  timeout is pending exactly while the egg is shown (C25); the event loop
  is a total function and returns with nothing due. Its
  overlay (theory \<open>EggView\<close>) is rendered exactly while a dismiss timeout is
  pending, with the 50 confetti pieces of the last active commit (C35).
  Timeline: entrances are staggered and every sparkle stays in its box, for
  any state and milestones (C26); a click on a milestone toggles it and
  closes any other (C27); every Continue click calls \<open>onComplete\<close>, with no
  guard (C28); with App's milestones a click on one without photos closes the
  open grid and shows nothing; at most one photo grid is ever open.
  Memory universe: an expanded photo is always the photo at \<open>currentIndex\<close>
  (C31); Prev undoes Next and n Next taps cycle back (C32); each batch of ten
  mini hearts lives exactly 1000 ms when double taps are 10 ms apart (C33),
  but ids \<open>Date.now() + i\<close> collide for taps \<open>t1 < t2 < t1 + 10\<close>: between the
  two timeouts only \<open>t2 - t1\<close> hearts of the second batch remain (C34); each
  batch has ten consecutive ids and lands within 25 px of the tap (C29); the "connecting" lines all
  point to the same relative spot and connect nothing (C36).
  Intro: the button appears exactly 5 s after mounting and every tap on it
  from then on calls \<open>onComplete\<close> (C37); without a granted permission the photo
  never tilts, and without a permission API it follows the last complete
  reading (C38); a rejected permission request and orientation readings with
  a \<open>null\<close> angle leave no trace in the scene (C19, error behaviour). Easter egg: each App commit while it is shown restarts its
  5 s timeout, so it is dismissed 5 s after the last commit (C39). Finale:
  lanterns from 2 s, Replay counted on every click, and the emoji of its
  subtitle and footer are mis-decoded UTF-8 (C40).

  \<^bold>\<open>Modelling choices.\<close> JS numbers that count (indices, handles, milliseconds)
  are \<open>nat\<close>, which is exact for the values the program reaches (far below
  2 to the power 53); layout values are exact reals, approximated by the floating-point
  computation. React state updates and effect cleanups are written out as the
  state transitions they commit. Every scene is modelled with its handlers,
  timers and render conditions; the sequencer abstracts a scene to the event of
  its \<open>onComplete\<close> call. \<open>Math.random()\<close> is an injected function,
  \<open>Date.now()\<close> the clock of the timer queue. A tap is an event on the element
  that receives it, after the browser has run the timers due by its time. An
  exiting scene's buttons are assumed to take clicks during its exit animation
  (motion does not disable pointer events).

  \<^bold>\<open>Not modelled.\<close> The six scenes are each modelled as a component with
  its own timer queue; the whole App (\<open>AppScenes\<close>) takes their
  \<open>onComplete\<close> and \<open>onReplay\<close> calls as timed inputs rather than running
  their timers in its own loop, since a scene reaches App only through those
  calls, which the scene theories characterise. \<open>FloatingParticles\<close>, which
  Scene1Intro.tsx imports, is not among the sources. The imports and prop
  interfaces, CSS classes, the orientation warning and asset loading are
  styling with no behaviour and are not modelled; the scenes' roots and
  backgrounds are (\<open>SceneRoots\<close>).
\<close>

text \<open>App's \<open>photos\<close> list, in the order of the code.\<close>

definition app_photos :: "photo list" where
  "app_photos =
    [\<lparr>url = ''/src/asset/two.jpeg'', caption = ''The moment we said yes'', date = ''December 4, 2024''\<rparr>,
     \<lparr>url = ''/src/asset/three.jpeg'', caption = ''Our special day'', date = ''February 17, 2025''\<rparr>,
     \<lparr>url = ''/src/asset/four.jpeg'', caption = ''Adventures together'', date = ''April 2025''\<rparr>,
     \<lparr>url = ''/src/asset/five.jpeg'', caption = ''Festival of lights'', date = ''October 2025''\<rparr>,
     \<lparr>url = ''/src/asset/six.jpeg'', caption = ''Laughter & joy'', date = ''December 2025''\<rparr>,
     \<lparr>url = ''/src/asset/seven.jpeg'', caption = ''Forever moments'', date = ''January 2026''\<rparr>,
     \<lparr>url = ''/src/asset/eight.jpeg'', caption = ''Moments of joy'', date = ''January 2026''\<rparr>,
     \<lparr>url = ''/src/asset/nine.jpeg'', caption = ''Together forever'', date = ''February 2026''\<rparr>,
     \<lparr>url = ''/src/asset/ten.jpeg'', caption = ''Creating memories'', date = ''February 2026''\<rparr>,
     \<lparr>url = ''/src/asset/eleven.jpeg'', caption = ''Our journey'', date = ''March 2026''\<rparr>,
     \<lparr>url = ''/src/asset/twelve.jpeg'', caption = ''Spring together'', date = ''April 2026''\<rparr>,
     \<lparr>url = ''/src/asset/thirteen.jpeg'', caption = ''Love grows'', date = ''May 2026''\<rparr>,
     \<lparr>url = ''/src/asset/fifteen.jpeg'', caption = ''Summer dreams'', date = ''July 2026''\<rparr>]"

text \<open>\<open>photos={photos.map((p) => p.url)}\<close>, the finale's input.\<close>

definition finale_photos :: "string list" where
  "finale_photos = map url app_photos"

text \<open>\<open>coupleImage\<close>, the intro's photo.\<close>

definition coupleImage :: string where
  "coupleImage = ''/src/asset/one.jpeg''"

lemma length_app_photos: "length app_photos = 13"
  by (simp add: app_photos_def)

text \<open>The Photo Journey with App's photos: at time \<open>t\<close> after mounting at
  \<open>t0\<close>, the polaroid in front is App's photo \<open>min ((t - t0) div 3000) 12\<close>,
  shown with its caption.\<close>

lemma journey_front_photo:
  "hd (jv_stack (journey_render r app_photos (carousel_run (length app_photos) t (carousel_mount t0))))
     = polaroid_view (min ((t - t0) div 3000) 12) (min ((t - t0) div 3000) 12)
         (app_photos ! min ((t - t0) div 3000) 12)"
proof -
  let ?k = "min ((t - t0) div 3000) 12"
  have "currentIndex (carousel_run 13 t (carousel_mount t0)) = ?k"
    using carousel_mount_view [of 13 t t0] by (simp add: car_view_def)
  moreover have "?k < length app_photos" by (simp add: length_app_photos)
  ultimately show ?thesis
    using polaroid_stack_front [of ?k app_photos] by (simp add: journey_render_def length_app_photos)
qed

text \<open>Claim C21 (functional, across App and the finale). The finale pairs every
  one of App's photo URLs, in order, with a heart position, and every position
  lies inside the container.\<close>

theorem finale_places_all_photos:
  "map fst (heart_photos rnd finale_photos) = finale_photos
    \<and> list_all (\<lambda>p. 0 \<le> hx (snd p) \<and> hx (snd p) \<le> 100 \<and> 0 \<le> hy (snd p) \<and> hy (snd p) \<le> 100)
         (heart_photos rnd finale_photos)"
proof -
  have len: "length finale_photos = 13"
    by (simp add: finale_photos_def length_app_photos)
  have m: "map fst (heart_photos rnd finale_photos) = finale_photos"
    by (simp add: heart_photos_def getHeartPositions_def Let_def)
  have "0 \<le> hx q \<and> hx q \<le> 100 \<and> 0 \<le> hy q \<and> hy q \<le> 100"
    if "q \<in> set (getHeartPositions rnd 13)" for q
  proof -
    from that obtain i where i: "i < 13" and q: "q = getHeartPositions rnd 13 ! i"
      by (auto simp: in_set_conv_nth getHeartPositions_def)
    from heart_point_bounds [of rnd 13 i] i q show ?thesis
      by (simp add: getHeartPositions_def)
  qed
  then have "\<forall>p\<in>set (heart_photos rnd finale_photos).
      0 \<le> hx (snd p) \<and> hx (snd p) \<le> 100 \<and> 0 \<le> hy (snd p) \<and> hy (snd p) \<le> 100"
    by (auto simp: heart_photos_def Let_def len dest: set_zip_rightD)
  with m show ?thesis by (simp add: list_all_iff)
qed

end
